(* ===== verification/Prelude.thy ===== *)
theory Prelude
  imports Main
begin

text \<open>
  Shared vocabulary of the bridge front-end model: the status enumeration that the
  bridging SDK reports for every chain transaction, the asset and chain configuration
  records the screens look up, the render error raised by a failed lookup or a thrown
  library call, the JavaScript idioms the components use on nullable props
  (\<open>x || d\<close>, \<open>x !== null\<close>), and the generic lemmas on options and lists the
  component theories share.  The collection \<open>view_defs\<close> holds the unfolding rules
  of every screen model, so that a property of a rendered screen is
  \<open>simp add: view_defs\<close> over the screen's props.
\<close>

named_theorems view_defs "unfolding rules of the screen (view) models"
named_theorems js_simps "evaluation rules of the JavaScript idioms on nullable values"
named_theorems eval_simps "unfolding rules that evaluate the model on concrete inputs with simp"

section \<open>Data the SDK hands to the screens\<close>

text \<open>
  \<open>ChainTransactionStatus\<close> of \<open>@renproject/utils\<close>: the status of one chain
  transaction of a gateway (the lock, the RenVM submission, the mint or release).
\<close>

datatype chain_transaction_status = TxReady | TxConfirming | TxDone | TxReverted

text \<open>
  A JavaScript \<open>number | null\<close> prop holding a count is an \<open>int option\<close>
  (\<open>None\<close> for \<open>null\<close> and for \<open>undefined\<close>, which \<open>undefinedForNull\<close>
  identifies); a \<open>string | null\<close> prop is a \<open>string option\<close>.
\<close>

type_synonym js_count = "int option"
type_synonym js_string = "string option"
type_synonym i18n_key = string

section \<open>Configuration registry\<close>

text \<open>
  \<open>getAssetConfig\<close> and \<open>getChainConfig\<close> (utils/tokensConfig, utils/chainsConfig)
  map an identifier to display metadata; the icon components are not modelled.
  A lookup miss is fatal to the render of the screen that made it.
\<close>

record asset_config =
  ac_full_name :: string
  ac_short_name :: string
  ac_color :: "string option"

record chain_config =
  cc_full_name :: string

record registry =
  asset_cfg :: "string \<Rightarrow> asset_config option"
  chain_cfg :: "string \<Rightarrow> chain_config option"
  ren_full_name :: "string \<Rightarrow> string"
  ren_asset_name :: "string \<Rightarrow> string"

datatype render_error =
    UnknownAsset string
  | UnknownChain string
  | BigNumberArgumentOutOfRange int

definition get_asset_config :: "registry \<Rightarrow> string \<Rightarrow> render_error + asset_config" where
  "get_asset_config reg a = (case asset_cfg reg a of None \<Rightarrow> Inl (UnknownAsset a) | Some c \<Rightarrow> Inr c)"

definition get_chain_config :: "registry \<Rightarrow> string \<Rightarrow> render_error + chain_config" where
  "get_chain_config reg c = (case chain_cfg reg c of None \<Rightarrow> Inl (UnknownChain c) | Some k \<Rightarrow> Inr k)"

section \<open>JavaScript idioms\<close>

text \<open>
  An exception thrown while a component renders aborts the render: the rest of the
  function body is not evaluated.  \<open>sum_bind\<close> sequences two computations of a
  render in that way.
\<close>

definition sum_bind :: "'e + 'a \<Rightarrow> ('a \<Rightarrow> 'e + 'b) \<Rightarrow> 'e + 'b" where
  "sum_bind x f = (case x of Inl err \<Rightarrow> Inl err | Inr a \<Rightarrow> f a)"

text \<open>\<open>x || d\<close> on a possibly undefined string: the empty string is falsy too.\<close>

definition js_or :: "string option \<Rightarrow> string \<Rightarrow> string" where
  "js_or x d = (case x of None \<Rightarrow> d | Some s \<Rightarrow> (if s = [] then d else s))"

text \<open>\<open>a !== null && b !== null\<close> for two nullable props, pairing their values.\<close>

definition both_present :: "'a option \<Rightarrow> 'b option \<Rightarrow> ('a \<times> 'b) option" where
  "both_present a b = (case a of None \<Rightarrow> None | Some x \<Rightarrow> (case b of None \<Rightarrow> None | Some y \<Rightarrow> Some (x, y)))"

declare get_asset_config_def [eval_simps] get_chain_config_def [eval_simps]
  js_or_def [eval_simps] both_present_def [eval_simps] sum_bind_def [eval_simps]

section \<open>Shared lemmas\<close>

lemma sum_bind_simps [simp, js_simps]:
  "sum_bind (Inl err) f = Inl err"
  "sum_bind (Inr a) f = f a"
  by (simp_all add: sum_bind_def)

lemma sum_bind_Inr_iff:
  "sum_bind x f = Inr b \<longleftrightarrow> (\<exists>a. x = Inr a \<and> f a = Inr b)"
  by (cases x) simp_all

lemma js_or_None [simp, js_simps]: "js_or None d = d"
  by (simp add: js_or_def)

lemma js_or_Some [simp, js_simps]: "s \<noteq> [] \<Longrightarrow> js_or (Some s) d = s"
  by (simp add: js_or_def)

lemma js_or_empty [simp, js_simps]: "js_or (Some []) d = d"
  by (simp add: js_or_def)

lemma js_or_nonempty: "d \<noteq> [] \<Longrightarrow> js_or x d \<noteq> []"
  by (simp add: js_or_def split: option.splits)

lemma both_present_Some_iff [simp, js_simps]:
  "both_present a b = Some (x, y) \<longleftrightarrow> a = Some x \<and> b = Some y"
  by (simp add: both_present_def split: option.splits)

lemma both_present_None_iff [simp, js_simps]:
  "both_present a b = None \<longleftrightarrow> a = None \<or> b = None"
  by (simp add: both_present_def split: option.splits)

lemma both_present_simps [simp, js_simps]:
  "both_present None b = None"
  "both_present a None = None"
  "both_present (Some x) (Some y) = Some (x, y)"
  by (simp_all add: both_present_def split: option.splits)

lemma get_asset_config_Inr_iff [simp]:
  "get_asset_config reg a = Inr c \<longleftrightarrow> asset_cfg reg a = Some c"
  by (simp add: get_asset_config_def split: option.splits)

lemma get_chain_config_Inr_iff [simp]:
  "get_chain_config reg a = Inr c \<longleftrightarrow> chain_cfg reg a = Some c"
  by (simp add: get_chain_config_def split: option.splits)

lemma get_asset_config_known [simp]:
  "asset_cfg reg a = Some c \<Longrightarrow> get_asset_config reg a = Inr c"
  by simp

lemma get_chain_config_known [simp]:
  "chain_cfg reg a = Some c \<Longrightarrow> get_chain_config reg a = Inr c"
  by simp

lemma get_asset_config_unknown [simp]:
  "asset_cfg reg a = None \<Longrightarrow> get_asset_config reg a = Inl (UnknownAsset a)"
  by (simp add: get_asset_config_def)

lemma get_chain_config_unknown [simp]:
  "chain_cfg reg a = None \<Longrightarrow> get_chain_config reg a = Inl (UnknownChain a)"
  by (simp add: get_chain_config_def)

end
