(* ===== verification/BigNum.thy ===== *)
theory BigNum
  imports Prelude
begin

text \<open>
  The part of bignumber.js (v9, default configuration) that the mint screens call on
  the lock amount: the string constructor \<open>new BigNumber(s)\<close> (base 10),
  \<open>shiftedBy(k)\<close>, and \<open>toString()\<close>.  A finite value is a signed coefficient
  and a decimal exponent, \<open>BFin c e\<close> for \<open>c * 10^e\<close>; the library keeps it
  canonical (no trailing zeros in the coefficient, zero with exponent 0) and inside
  the exponent range \<open>[-1e7, 1e7]\<close> of its leading digit, overflowing to
  \<open>Infinity\<close> and underflowing to zero outside it.  The string constructor accepts
  the library's \<open>isNumeric\<close> grammar \<open>-?(\d+(\.\d*)?|\.\d+)(e[+-]?\d+)?\<close>
  (case-insensitive \<open>e\<close>); any other string goes through \<open>parseNumeric\<close>, which
  trims whitespace and a leading plus sign, recognises \<open>Infinity\<close> and
  \<open>-Infinity\<close>, and parses the trimmed string again; what remains is \<open>NaN\<close>,
  produced without an exception in the default (non-DEBUG) mode.  \<open>shiftedBy(k)\<close>
  multiplies by the parsed \<open>1e\<close>k.  \<open>toString()\<close> prints fixed-point notation
  when the exponent of the leading digit lies strictly between \<open>TO_EXP_NEG = -7\<close>
  and \<open>TO_EXP_POS = 21\<close>, and exponential notation (\<open>1e-8\<close>, \<open>1.5e+21\<close>)
  otherwise.
\<close>

datatype bignum = BNaN | BInf bool | BFin int int

section \<open>Decimal digits\<close>

definition is_digit :: "char \<Rightarrow> bool" where
  "is_digit c \<longleftrightarrow> 48 \<le> (of_char c :: nat) \<and> (of_char c :: nat) \<le> 57"

definition digit_value :: "char \<Rightarrow> nat" where
  "digit_value c = of_char c - 48"

definition digit_char :: "nat \<Rightarrow> char" where
  "digit_char n = char_of (48 + n)"

fun digits_of :: "nat \<Rightarrow> string" where
  "digits_of n = (if n < 10 then [digit_char n] else digits_of (n div 10) @ [digit_char (n mod 10)])"

declare digits_of.simps [simp del]

definition digits_value :: "string \<Rightarrow> nat" where
  "digits_value ds = foldl (\<lambda>acc c. 10 * acc + digit_value c) 0 ds"

section \<open>The string constructor\<close>

definition split_sign :: "string \<Rightarrow> bool \<times> string" where
  "split_sign s = (case s of c # r \<Rightarrow> if c = CHR ''-'' then (True, r) else (False, s) | [] \<Rightarrow> (False, []))"

definition parse_exponent :: "string \<Rightarrow> int option" where
  "parse_exponent r =
     (case r of
        [] \<Rightarrow> Some 0
      | c # r' \<Rightarrow>
          if c = CHR ''e'' \<or> c = CHR ''E'' then
            (let (neg, ds) = (case r' of
                                d # ds' \<Rightarrow> if d = CHR ''-'' then (True, ds')
                                           else if d = CHR ''+'' then (False, ds') else (False, r')
                              | [] \<Rightarrow> (False, []))
             in if ds \<noteq> [] \<and> list_all is_digit ds
                then Some (if neg then - int (digits_value ds) else int (digits_value ds))
                else None)
          else None)"

definition parse_unsigned :: "string \<Rightarrow> (nat \<times> int) option" where
  "parse_unsigned body =
     (let ip = takeWhile is_digit body; r1 = dropWhile is_digit body;
          (fp, r2) = (case r1 of
                        c # r \<Rightarrow> if c = CHR ''.'' then (takeWhile is_digit r, dropWhile is_digit r)
                                 else ([], r1)
                      | [] \<Rightarrow> ([], []))
      in if ip = [] \<and> fp = [] then None
         else (case parse_exponent r2 of
                 None \<Rightarrow> None
               | Some x \<Rightarrow> Some (digits_value (ip @ fp), x - int (length fp))))"

fun strip_zeros :: "nat \<Rightarrow> int \<Rightarrow> nat \<times> int" where
  "strip_zeros n e = (if n \<noteq> 0 \<and> n mod 10 = 0 then strip_zeros (n div 10) (e + 1) else (n, e))"

declare strip_zeros.simps [simp del]

definition mk_fin :: "bool \<Rightarrow> nat \<Rightarrow> int \<Rightarrow> bignum" where
  "mk_fin neg n e =
     (if n = 0 then BFin 0 0
      else (case strip_zeros n e of (m, e') \<Rightarrow> BFin (if neg then - int m else int m) e'))"

text \<open>
  The exponent range of the default configuration (\<open>RANGE = [-1e7, 1e7]\<close>): a
  finite value whose leading digit has an exponent above \<open>MAX_EXP\<close> becomes
  \<open>Infinity\<close>, below \<open>MIN_EXP\<close> zero.  The constructor and every arithmetic
  result (\<open>normalise\<close>) apply this check.
\<close>

definition max_exp :: int where "max_exp = 10 ^ 7"
definition min_exp :: int where "min_exp = - (10 ^ 7)"

definition sci_exp :: "int \<Rightarrow> int \<Rightarrow> int" where
  "sci_exp c e = e + int (length (digits_of (nat \<bar>c\<bar>))) - 1"

definition bn_range :: "bignum \<Rightarrow> bignum" where
  "bn_range x =
     (case x of
        BFin c e \<Rightarrow>
          (if c = 0 then x
           else if max_exp < sci_exp c e then BInf (c < 0)
           else if sci_exp c e < min_exp then BFin 0 0 else x)
      | _ \<Rightarrow> x)"

text \<open>
  A string of the \<open>isNumeric\<close> grammar, parsed; \<open>None\<close> for a string outside it.
\<close>

definition bn_parse_numeric :: "string \<Rightarrow> bignum option" where
  "bn_parse_numeric s =
     (case split_sign s of
        (neg, body) \<Rightarrow> (case parse_unsigned body of
                          None \<Rightarrow> None
                        | Some (n, e) \<Rightarrow> Some (bn_range (mk_fin neg n e))))"

text \<open>
  \<open>parseNumeric\<close>, for a string outside the grammar: the regular expression
  \<open>whitespaceOrPlus\<close> (\<open>^\s*\+(?=[\w.])|^\s+|\s+$\<close>, global) removes leading
  whitespace with a plus sign before a word character or a point, or else the leading
  whitespace, and the trailing whitespace.  \<open>\s\<close> is read on 8-bit characters (tab
  to carriage return, space, no-break space).  The trimmed string is then
  \<open>Infinity\<close>, \<open>-Infinity\<close>, or parsed again; the prefixes \<open>0x\<close>, \<open>0b\<close>,
  \<open>0o\<close> of other bases are not modelled and give \<open>NaN\<close> here.
\<close>

definition js_space :: "char \<Rightarrow> bool" where
  "js_space c \<longleftrightarrow> (let n = (of_char c :: nat) in (9 \<le> n \<and> n \<le> 13) \<or> n = 32 \<or> n = 160)"

definition js_word_char :: "char \<Rightarrow> bool" where
  "js_word_char c \<longleftrightarrow>
     (let n = (of_char c :: nat) in
      (48 \<le> n \<and> n \<le> 57) \<or> (65 \<le> n \<and> n \<le> 90) \<or> (97 \<le> n \<and> n \<le> 122) \<or> n = 95)"

definition js_trim_numeric :: "string \<Rightarrow> string" where
  "js_trim_numeric s =
     (let s1 = dropWhile js_space s;
          s2 = (case s1 of
                  c # c' # r \<Rightarrow> if c = CHR ''+'' \<and> (js_word_char c' \<or> c' = CHR ''.'') then c' # r else s1
                | _ \<Rightarrow> s1)
      in rev (dropWhile js_space (rev s2)))"

definition bn_of_string :: "string \<Rightarrow> bignum" where
  "bn_of_string s =
     (case bn_parse_numeric s of
        Some x \<Rightarrow> x
      | None \<Rightarrow>
          (let t = js_trim_numeric s in
           if t = ''Infinity'' then BInf False
           else if t = ''-Infinity'' then BInf True
           else (case bn_parse_numeric t of None \<Rightarrow> BNaN | Some x \<Rightarrow> x)))"

section \<open>shiftedBy\<close>

definition max_safe_integer :: int where
  "max_safe_integer = 2 ^ 53 - 1"

text \<open>
  \<open>shiftedBy(k)\<close> is \<open>this.times('1e' + k)\<close> after \<open>intCheck(k, -MAX_SAFE_INTEGER,
  MAX_SAFE_INTEGER)\<close>, which throws outside that range.  The string \<open>1e\<close>k is
  parsed with the exponent range, so a shift beyond it multiplies by \<open>Infinity\<close> or
  by zero; \<open>times\<close> gives \<open>NaN\<close> for \<open>NaN\<close> and for zero times
  \<open>Infinity\<close>, and normalises a finite product into the range.
\<close>

definition bn_pow10 :: "int \<Rightarrow> bignum" where
  "bn_pow10 k = bn_range (BFin 1 k)"

fun bn_times :: "bignum \<Rightarrow> bignum \<Rightarrow> bignum" where
  "bn_times BNaN y = BNaN"
| "bn_times x BNaN = BNaN"
| "bn_times (BInf s) (BInf t) = BInf (s \<noteq> t)"
| "bn_times (BInf s) (BFin d f) = (if d = 0 then BNaN else BInf (s \<noteq> (d < 0)))"
| "bn_times (BFin c e) (BInf t) = (if c = 0 then BNaN else BInf ((c < 0) \<noteq> t))"
| "bn_times (BFin c e) (BFin d f) =
     (if c = 0 \<or> d = 0 then BFin 0 0 else bn_range (mk_fin (c * d < 0) (nat \<bar>c * d\<bar>) (e + f)))"

definition bn_shifted_by :: "bignum \<Rightarrow> int \<Rightarrow> render_error + bignum" where
  "bn_shifted_by x k =
     (if k < - max_safe_integer \<or> max_safe_integer < k then Inl (BigNumberArgumentOutOfRange k)
      else Inr (bn_times x (bn_pow10 k)))"

section \<open>toString\<close>

definition to_exp_neg :: int where "to_exp_neg = -7"
definition to_exp_pos :: int where "to_exp_pos = 21"

definition to_exponential :: "string \<Rightarrow> int \<Rightarrow> string" where
  "to_exponential ds x =
     (case ds of [] \<Rightarrow> [] | d # rest \<Rightarrow> (if rest = [] then [d] else d # CHR ''.'' # rest)) @
     CHR ''e'' # (if x < 0 then CHR ''-'' # digits_of (nat (- x)) else CHR ''+'' # digits_of (nat x))"

definition to_fixed_point :: "string \<Rightarrow> int \<Rightarrow> string" where
  "to_fixed_point ds x =
     (if x < 0 then CHR ''0'' # CHR ''.'' # replicate (nat (- x - 1)) CHR ''0'' @ ds
      else if length ds < nat x + 1 then ds @ replicate (nat x + 1 - length ds) CHR ''0''
      else if nat x + 1 < length ds then take (nat x + 1) ds @ CHR ''.'' # drop (nat x + 1) ds
      else ds)"

fun bn_to_string :: "bignum \<Rightarrow> string" where
  "bn_to_string BNaN = ''NaN''"
| "bn_to_string (BInf neg) = (if neg then ''-Infinity'' else ''Infinity'')"
| "bn_to_string (BFin c e) =
     (let ds = digits_of (nat \<bar>c\<bar>); x = e + int (length ds) - 1;
          str = (if x \<le> to_exp_neg \<or> to_exp_pos \<le> x then to_exponential ds x else to_fixed_point ds x)
      in if c < 0 then CHR ''-'' # str else str)"

text \<open>
  The printed tail after the digits of a mantissa: nothing, or an exponent part.
  Used to state where \<open>takeWhile is_digit\<close> stops on printed numbers.
\<close>

definition exp_tail :: "string \<Rightarrow> bool" where
  "exp_tail r \<longleftrightarrow> r = [] \<or> hd r = CHR ''e''"

definition bn_canonical :: "bignum \<Rightarrow> bool" where
  "bn_canonical x =
     (case x of
        BFin c e \<Rightarrow> (if c = 0 then e = 0 else \<not> 10 dvd c \<and> min_exp \<le> sci_exp c e \<and> sci_exp c e \<le> max_exp)
      | _ \<Rightarrow> True)"

text \<open>
  A shift of \<open>x\<close> by \<open>k\<close> that stays inside the exponent range: \<open>k\<close> itself and
  the exponent of the leading digit after the shift.
\<close>

definition bn_shift_in_range :: "bignum \<Rightarrow> int \<Rightarrow> bool" where
  "bn_shift_in_range x k \<longleftrightarrow>
     min_exp \<le> k \<and> k \<le> max_exp \<and>
     (case x of BFin c e \<Rightarrow> c = 0 \<or> (min_exp \<le> sci_exp c e + k \<and> sci_exp c e + k \<le> max_exp) | _ \<Rightarrow> True)"

text \<open>
  Concrete inputs evaluate with \<open>simp add: eval_simps\<close>: the simplifier computes on
  binary numerals, whereas \<open>code_simp\<close> unfolds \<open>nat\<close> numerals into \<open>Suc\<close> terms,
  which is too slow for amounts in base units.
\<close>

declare bn_of_string_def [eval_simps] split_sign_def [eval_simps] parse_unsigned_def [eval_simps]
  is_digit_def [eval_simps] digits_value_def [eval_simps] digit_value_def [eval_simps]
  parse_exponent_def [eval_simps] mk_fin_def [eval_simps] strip_zeros.simps [eval_simps]
  bn_shifted_by_def [eval_simps] max_safe_integer_def [eval_simps] digits_of.simps [eval_simps]
  to_exp_neg_def [eval_simps] to_exp_pos_def [eval_simps] to_fixed_point_def [eval_simps]
  to_exponential_def [eval_simps] max_exp_def [eval_simps] min_exp_def [eval_simps]
  sci_exp_def [eval_simps] bn_range_def [eval_simps] bn_parse_numeric_def [eval_simps]
  js_space_def [eval_simps] js_word_char_def [eval_simps] js_trim_numeric_def [eval_simps]
  bn_pow10_def [eval_simps] bn_shift_in_range_def [eval_simps]

section \<open>Lemmas: decimal digits\<close>

lemma digit_char_simps [eval_simps]:
  "digit_char 0 = CHR ''0''" "digit_char 1 = CHR ''1''" "digit_char (Suc 0) = CHR ''1''"
  "digit_char 2 = CHR ''2''" "digit_char 3 = CHR ''3''" "digit_char 4 = CHR ''4''"
  "digit_char 5 = CHR ''5''" "digit_char 6 = CHR ''6''" "digit_char 7 = CHR ''7''"
  "digit_char 8 = CHR ''8''" "digit_char 9 = CHR ''9''"
  by code_simp+

lemma is_digit_digit_char [simp]: "n < 10 \<Longrightarrow> is_digit (digit_char n)"
  by (simp add: is_digit_def digit_char_def)

lemma digit_value_digit_char [simp]: "n < 10 \<Longrightarrow> digit_value (digit_char n) = n"
  by (simp add: digit_value_def digit_char_def)

lemma not_digit_simps [simp]:
  "\<not> is_digit CHR ''-''" "\<not> is_digit CHR ''.''" "\<not> is_digit CHR ''e''"
  "\<not> is_digit CHR ''E''" "\<not> is_digit CHR ''+''" "is_digit CHR ''0''"
  by (simp_all add: is_digit_def)

lemma digit_value_zero [simp]: "digit_value CHR ''0'' = 0"
  by (simp add: digit_value_def)

lemma digits_value_foldl:
  "foldl (\<lambda>acc c. 10 * acc + digit_value c) a ds = a * 10 ^ length ds + digits_value ds"
proof (induction ds arbitrary: a)
  case Nil
  then show ?case by (simp add: digits_value_def)
next
  case (Cons c ds)
  have "foldl (\<lambda>acc c. 10 * acc + digit_value c) a (c # ds)
      = (10 * a + digit_value c) * 10 ^ length ds + digits_value ds"
    using Cons.IH [of "10 * a + digit_value c"] by simp
  moreover have "digits_value (c # ds) = digit_value c * 10 ^ length ds + digits_value ds"
    using Cons.IH [of "digit_value c"] by (simp add: digits_value_def)
  ultimately show ?case by (simp add: algebra_simps)
qed

lemma digits_value_Nil [simp]: "digits_value [] = 0"
  by (simp add: digits_value_def)

lemma digits_value_append:
  "digits_value (xs @ ys) = digits_value xs * 10 ^ length ys + digits_value ys"
proof -
  have "digits_value (xs @ ys) = foldl (\<lambda>acc c. 10 * acc + digit_value c) (digits_value xs) ys"
    by (simp only: digits_value_def foldl_append)
  then show ?thesis by (simp only: digits_value_foldl)
qed

lemma digits_value_Cons:
  "digits_value (c # ys) = digit_value c * 10 ^ length ys + digits_value ys"
proof -
  have "digits_value [c] = digit_value c" by (simp add: digits_value_def)
  then show ?thesis using digits_value_append [of "[c]" ys] by simp
qed

lemma digits_value_zeros [simp]: "digits_value (replicate k CHR ''0'') = 0"
  by (induction k) (simp_all add: digits_value_Cons)

lemma digits_value_zeros_prefix [simp]:
  "digits_value (replicate k CHR ''0'' @ ds) = digits_value ds"
  by (simp add: digits_value_append)

lemma digits_of_props:
  "digits_of n \<noteq> [] \<and> list_all is_digit (digits_of n) \<and> digits_value (digits_of n) = n"
proof (induction n rule: digits_of.induct)
  case (1 n)
  show ?case
  proof (cases "n < 10")
    case True
    then show ?thesis by (simp add: digits_of.simps [of n] digits_value_def)
  next
    case False
    with "1.IH" have ih: "digits_of (n div 10) \<noteq> [] \<and> list_all is_digit (digits_of (n div 10)) \<and>
        digits_value (digits_of (n div 10)) = n div 10" by simp
    have "digits_value (digits_of (n div 10) @ [digit_char (n mod 10)]) = n"
      using ih by (simp add: digits_value_append digits_value_def)
    with False ih show ?thesis by (simp add: digits_of.simps [of n])
  qed
qed

lemma digits_of_nonempty [simp]: "digits_of n \<noteq> []"
  using digits_of_props by blast

lemma digits_of_digits [simp]: "list_all is_digit (digits_of n)"
  using digits_of_props by blast

lemma digits_value_digits_of [simp]: "digits_value (digits_of n) = n"
  using digits_of_props by blast

lemma digits_of_last: "last (digits_of n) = digit_char (n mod 10)"
  by (cases "n < 10") (simp_all add: digits_of.simps [of n])

lemma strip_zeros_not_dvd [simp]: "\<not> 10 dvd n \<Longrightarrow> strip_zeros n e = (n, e)"
  by (subst strip_zeros.simps) auto

lemma strip_zeros_scaled:
  "n \<noteq> 0 \<Longrightarrow> \<not> 10 dvd n \<Longrightarrow> strip_zeros (n * 10 ^ k) e = (n, e + int k)"
proof (induction k arbitrary: e)
  case 0
  then show ?case by simp
next
  case (Suc k)
  have "strip_zeros (n * 10 ^ Suc k) e = strip_zeros (n * 10 ^ k) (e + 1)"
    using Suc.prems by (subst strip_zeros.simps) simp
  also have "\<dots> = (n, e + 1 + int k)" using Suc.IH Suc.prems by simp
  finally show ?case by simp
qed

lemma strip_zeros_canonical:
  "strip_zeros n e = (m, e') \<Longrightarrow> n \<noteq> 0 \<Longrightarrow> m \<noteq> 0 \<and> \<not> 10 dvd m \<and> n = m * 10 ^ nat (e' - e) \<and> e \<le> e'"
proof (induction n e arbitrary: m e' rule: strip_zeros.induct)
  case (1 n e)
  show ?case
  proof (cases "n mod 10 = 0")
    case True
    with "1.prems" have r: "strip_zeros (n div 10) (e + 1) = (m, e')" and nz: "n div 10 \<noteq> 0"
      by (auto simp: strip_zeros.simps [of n e])
    from "1.IH" [OF _ r nz] True "1.prems"(2)
    have ih: "m \<noteq> 0 \<and> \<not> 10 dvd m \<and> n div 10 = m * 10 ^ nat (e' - (e + 1)) \<and> e + 1 \<le> e'" by simp
    then have "nat (e' - e) = Suc (nat (e' - (e + 1)))" by linarith
    with ih True show ?thesis by (auto simp: dvd_eq_mod_eq_0 elim!: dvdE) 
  next
    case False
    with "1.prems" show ?thesis by (simp add: strip_zeros.simps [of n e] dvd_eq_mod_eq_0)
  qed
qed

section \<open>Lemmas: parsing what toString prints\<close>

lemma parse_exponent_Nil [simp]: "parse_exponent [] = Some 0"
  by (simp add: parse_exponent_def)

lemma parse_exponent_neg:
  "parse_exponent (CHR ''e'' # CHR ''-'' # digits_of m) = Some (- int m)"
  by (simp add: parse_exponent_def)

lemma parse_exponent_pos:
  "parse_exponent (CHR ''e'' # CHR ''+'' # digits_of m) = Some (int m)"
  by (simp add: parse_exponent_def)

lemma takeWhile_digits_append:
  "list_all is_digit xs \<Longrightarrow> takeWhile is_digit (xs @ ys) = xs @ takeWhile is_digit ys"
  by (simp add: takeWhile_append2 list_all_iff)

lemma dropWhile_digits_append:
  "list_all is_digit xs \<Longrightarrow> dropWhile is_digit (xs @ ys) = dropWhile is_digit ys"
  by (simp add: dropWhile_append2 list_all_iff)

lemma list_all_digit_zeros [simp]: "list_all is_digit (replicate k CHR ''0'')"
  by (induction k) simp_all

lemma exp_tail_take [simp]: "exp_tail r \<Longrightarrow> takeWhile is_digit r = []"
  by (cases r) (auto simp: exp_tail_def)

lemma exp_tail_drop [simp]: "exp_tail r \<Longrightarrow> dropWhile is_digit r = r"
  by (cases r) (auto simp: exp_tail_def)

lemma parse_unsigned_point:
  assumes "list_all is_digit ip" "list_all is_digit fp" "exp_tail r"
    and "parse_exponent r = Some x" "ip \<noteq> [] \<or> fp \<noteq> []"
  shows "parse_unsigned (ip @ CHR ''.'' # fp @ r) = Some (digits_value (ip @ fp), x - int (length fp))"
  using assms by (simp add: parse_unsigned_def takeWhile_digits_append dropWhile_digits_append)

lemma parse_unsigned_integer:
  assumes "list_all is_digit ip" "ip \<noteq> []" "exp_tail r" "parse_exponent r = Some x"
  shows "parse_unsigned (ip @ r) = Some (digits_value ip, x)"
proof -
  have "dropWhile is_digit (ip @ r) = r" using assms by (simp add: dropWhile_digits_append)
  moreover have "(case r of c # r' \<Rightarrow> if c = CHR ''.'' then (takeWhile is_digit r', dropWhile is_digit r') else ([], r) | [] \<Rightarrow> ([], [])) = ([], r)"
    using assms(3) by (cases r) (auto simp: exp_tail_def)
  ultimately show ?thesis using assms by (simp add: parse_unsigned_def takeWhile_digits_append)
qed

lemma exp_tail_simps [simp]: "exp_tail []" "exp_tail (CHR ''e'' # r)"
  by (simp_all add: exp_tail_def)

lemma parse_exponent_signed:
  "parse_exponent (CHR ''e'' # (if x < 0 then CHR ''-'' # digits_of (nat (- x)) else CHR ''+'' # digits_of (nat x))) = Some x"
  by (simp add: parse_exponent_neg parse_exponent_pos)

lemma parse_to_exponential:
  assumes "list_all is_digit ds" "ds \<noteq> []"
  shows "parse_unsigned (to_exponential ds x) = Some (digits_value ds, x - (int (length ds) - 1))"
proof (cases ds)
  case Nil
  with assms show ?thesis by simp
next
  case (Cons d rest)
  let ?r = "CHR ''e'' # (if x < 0 then CHR ''-'' # digits_of (nat (- x)) else CHR ''+'' # digits_of (nat x))"
  show ?thesis
  proof (cases "rest = []")
    case True
    have "parse_unsigned ([d] @ ?r) = Some (digits_value [d], x)"
      using assms Cons True by (intro parse_unsigned_integer parse_exponent_signed) simp_all
    with Cons True show ?thesis by (simp add: to_exponential_def)
  next
    case False
    have "parse_unsigned ([d] @ CHR ''.'' # rest @ ?r) = Some (digits_value ([d] @ rest), x - int (length rest))"
      using assms Cons by (intro parse_unsigned_point parse_exponent_signed) simp_all
    with Cons False show ?thesis by (simp add: to_exponential_def)
  qed
qed

lemma parse_to_fixed_point:
  assumes "list_all is_digit ds" "ds \<noteq> []"
  shows "parse_unsigned (to_fixed_point ds x) =
           Some (digits_value ds * 10 ^ nat (x + 1 - int (length ds)), min 0 (x + 1 - int (length ds)))"
proof -
  consider (neg) "x < 0" | (pad) "0 \<le> x" "length ds < nat x + 1"
    | (point) "0 \<le> x" "nat x + 1 < length ds" | (exact) "0 \<le> x" "length ds = nat x + 1"
    by linarith
  then show ?thesis
  proof cases
    case neg
    have "parse_unsigned ([CHR ''0''] @ CHR ''.'' # (replicate (nat (- x - 1)) CHR ''0'' @ ds) @ [])
        = Some (digits_value ([CHR ''0''] @ replicate (nat (- x - 1)) CHR ''0'' @ ds),
                0 - int (length (replicate (nat (- x - 1)) CHR ''0'' @ ds)))"
      using assms by (intro parse_unsigned_point) simp_all
    moreover have "digits_value ([CHR ''0''] @ replicate (nat (- x - 1)) CHR ''0'' @ ds) = digits_value ds"
      using digits_value_zeros_prefix [of "Suc (nat (- x - 1))" ds] by simp
    ultimately show ?thesis using neg by (simp add: to_fixed_point_def)
  next
    case pad
    have "parse_unsigned ((ds @ replicate (nat x + 1 - length ds) CHR ''0'') @ [])
        = Some (digits_value (ds @ replicate (nat x + 1 - length ds) CHR ''0''), 0)"
      using assms by (intro parse_unsigned_integer) simp_all
    moreover have "nat (x + 1 - int (length ds)) = nat x + 1 - length ds" using pad by linarith
    ultimately show ?thesis using pad by (simp add: to_fixed_point_def digits_value_append)
  next
    case point
    have "parse_unsigned (take (nat x + 1) ds @ CHR ''.'' # drop (nat x + 1) ds @ [])
        = Some (digits_value (take (nat x + 1) ds @ drop (nat x + 1) ds), 0 - int (length (drop (nat x + 1) ds)))"
      using assms point by (intro parse_unsigned_point) (auto simp: list_all_iff dest: in_set_takeD in_set_dropD)
    then show ?thesis using point by (simp add: to_fixed_point_def)
  next
    case exact
    have "parse_unsigned (ds @ []) = Some (digits_value ds, 0)"
      using assms by (intro parse_unsigned_integer) simp_all
    then show ?thesis using exact by (simp add: to_fixed_point_def)
  qed
qed

section \<open>Round trip and canonical form\<close>

lemma bn_print_shape:
  assumes "list_all is_digit ds" "ds \<noteq> []"
  shows "\<exists>ch rest. (if X \<le> to_exp_neg \<or> to_exp_pos \<le> X then to_exponential ds X else to_fixed_point ds X) = ch # rest \<and> is_digit ch"
proof -
  obtain d r where ds: "ds = d # r" using assms(2) by (cases ds) auto
  with assms have d: "is_digit d" by simp
  have "\<exists>ch rest. to_exponential ds X = ch # rest \<and> is_digit ch"
    using ds d by (simp add: to_exponential_def)
  moreover have "\<exists>ch rest. to_fixed_point ds X = ch # rest \<and> is_digit ch"
    using ds d by (auto simp: to_fixed_point_def)
  ultimately show ?thesis by simp
qed

lemma not_digit_I [simp]: "\<not> is_digit CHR ''I''"
  by (simp add: is_digit_def)

lemma bn_parse_numeric_digit_start:
  assumes "is_digit ch"
  shows "bn_parse_numeric (ch # rest) =
           (case parse_unsigned (ch # rest) of None \<Rightarrow> None | Some (n, e) \<Rightarrow> Some (bn_range (mk_fin False n e)))"
    and "bn_parse_numeric (CHR ''-'' # ch # rest) =
           (case parse_unsigned (ch # rest) of None \<Rightarrow> None | Some (n, e) \<Rightarrow> Some (bn_range (mk_fin True n e)))"
proof -
  have "ch \<noteq> CHR ''-''" using assms by auto
  then show "bn_parse_numeric (ch # rest) =
           (case parse_unsigned (ch # rest) of None \<Rightarrow> None | Some (n, e) \<Rightarrow> Some (bn_range (mk_fin False n e)))"
    and "bn_parse_numeric (CHR ''-'' # ch # rest) =
           (case parse_unsigned (ch # rest) of None \<Rightarrow> None | Some (n, e) \<Rightarrow> Some (bn_range (mk_fin True n e)))"
    by (simp_all add: bn_parse_numeric_def split_sign_def)
qed

lemma bn_of_string_numeric: "bn_parse_numeric s = Some x \<Longrightarrow> bn_of_string s = x"
  by (simp add: bn_of_string_def)

lemma mk_fin_scaled:
  assumes "n \<noteq> 0" "\<not> 10 dvd n"
  shows "mk_fin neg (n * 10 ^ k) e0 = BFin (if neg then - int n else int n) (e0 + int k)"
  using assms by (simp add: mk_fin_def strip_zeros_scaled)

lemma bn_parse_printed:
  assumes "bn_canonical (BFin c e)"
  shows "parse_unsigned (if e + int (length (digits_of (nat \<bar>c\<bar>))) - 1 \<le> to_exp_neg \<or>
                            to_exp_pos \<le> e + int (length (digits_of (nat \<bar>c\<bar>))) - 1
                         then to_exponential (digits_of (nat \<bar>c\<bar>)) (e + int (length (digits_of (nat \<bar>c\<bar>))) - 1)
                         else to_fixed_point (digits_of (nat \<bar>c\<bar>)) (e + int (length (digits_of (nat \<bar>c\<bar>))) - 1))
         \<in> {Some (nat \<bar>c\<bar>, e), Some (nat \<bar>c\<bar> * 10 ^ nat e, min 0 e)}"
  by (simp add: parse_to_exponential parse_to_fixed_point)

lemma mk_fin_canonical_value:
  assumes "bn_canonical (BFin c e)" "p \<in> {Some (nat \<bar>c\<bar>, e), Some (nat \<bar>c\<bar> * 10 ^ nat e, min 0 e)}"
  shows "(case p of None \<Rightarrow> BNaN | Some (n, e') \<Rightarrow> mk_fin (c < 0) n e') = BFin c e"
proof (cases "c = 0")
  case True
  with assms show ?thesis by (auto simp: bn_canonical_def mk_fin_def)
next
  case False
  then have nz: "nat \<bar>c\<bar> \<noteq> 0" by simp
  have nd: "\<not> 10 dvd nat \<bar>c\<bar>"
  proof
    assume "10 dvd nat \<bar>c\<bar>"
    then have "(10::int) dvd \<bar>c\<bar>" by (metis abs_ge_zero int_dvd_int_iff nat_0_le of_nat_numeral)
    with assms(1) False show False by (simp add: bn_canonical_def)
  qed
  have "mk_fin (c < 0) (nat \<bar>c\<bar> * 10 ^ 0) e = BFin c e"
    using mk_fin_scaled [OF nz nd, of "c < 0" 0 e] by auto
  moreover have "mk_fin (c < 0) (nat \<bar>c\<bar> * 10 ^ nat e) (min 0 e) = BFin c e"
    using mk_fin_scaled [OF nz nd, of "c < 0" "nat e" "min 0 e"] by auto
  ultimately show ?thesis using assms(2) by auto
qed

lemma bn_range_canonical: "bn_canonical x \<Longrightarrow> bn_range x = x"
  by (auto simp: bn_range_def bn_canonical_def split: bignum.splits)

lemma bn_roundtrip: "bn_canonical x \<Longrightarrow> bn_of_string (bn_to_string x) = x"
proof (cases x)
  case BNaN
  then show ?thesis
    by (simp add: bn_of_string_def bn_parse_numeric_def split_sign_def parse_unsigned_def is_digit_def
        js_trim_numeric_def js_space_def)
next
  case (BInf b)
  then show ?thesis
    by (simp add: bn_of_string_def bn_parse_numeric_def split_sign_def parse_unsigned_def is_digit_def
        js_trim_numeric_def js_space_def)
next
  case (BFin c e)
  assume can: "bn_canonical x"
  let ?ds = "digits_of (nat \<bar>c\<bar>)"
  let ?X = "e + int (length ?ds) - 1"
  let ?str = "if ?X \<le> to_exp_neg \<or> to_exp_pos \<le> ?X then to_exponential ?ds ?X else to_fixed_point ?ds ?X"
  obtain ch rest where str: "?str = ch # rest" and ch: "is_digit ch"
    using bn_print_shape [of ?ds ?X] by auto
  have p: "parse_unsigned ?str \<in> {Some (nat \<bar>c\<bar>, e), Some (nat \<bar>c\<bar> * 10 ^ nat e, min 0 e)}"
    using can BFin by (intro bn_parse_printed) simp
  have v: "(case parse_unsigned ?str of None \<Rightarrow> BNaN | Some (n, e') \<Rightarrow> mk_fin (c < 0) n e') = BFin c e"
    using can BFin p by (intro mk_fin_canonical_value) simp_all
  have "bn_to_string x = (if c < 0 then CHR ''-'' # ?str else ?str)"
    using BFin by (simp only: bn_to_string.simps Let_def)
  then have bt: "bn_to_string x = (if c < 0 then CHR ''-'' # ch # rest else ch # rest)"
    by (simp only: str)
  from v have v': "(case parse_unsigned (ch # rest) of None \<Rightarrow> BNaN | Some (n, e') \<Rightarrow> mk_fin (c < 0) n e') = BFin c e"
    by (simp only: str)
  have r: "bn_range x = x" using can by (rule bn_range_canonical)
  have "bn_parse_numeric (bn_to_string x) = Some x"
  proof (cases "c < 0")
    case True
    have "bn_parse_numeric (bn_to_string x) =
        (case parse_unsigned (ch # rest) of None \<Rightarrow> None | Some (n, e) \<Rightarrow> Some (bn_range (mk_fin True n e)))"
      using bn_parse_numeric_digit_start(2) [OF ch] by (simp only: bt True if_True)
    also have "\<dots> = Some x" using True BFin v' r by (cases "parse_unsigned (ch # rest)") auto
    finally show ?thesis .
  next
    case False
    have "bn_parse_numeric (bn_to_string x) =
        (case parse_unsigned (ch # rest) of None \<Rightarrow> None | Some (n, e) \<Rightarrow> Some (bn_range (mk_fin False n e)))"
      using bn_parse_numeric_digit_start(1) [OF ch] by (simp only: bt False if_False)
    also have "\<dots> = Some x" using False BFin v' r by (cases "parse_unsigned (ch # rest)") auto
    finally show ?thesis .
  qed
  then show ?thesis by (rule bn_of_string_numeric)
qed

lemma nat_abs_dvd_iff: "(10::nat) dvd nat \<bar>c\<bar> \<longleftrightarrow> (10::int) dvd c"
proof -
  have "(10::int) dvd c \<longleftrightarrow> (10::int) dvd \<bar>c\<bar>" by simp
  also have "\<dots> \<longleftrightarrow> int 10 dvd int (nat \<bar>c\<bar>)" by simp
  also have "\<dots> \<longleftrightarrow> 10 dvd nat \<bar>c\<bar>" by (rule int_dvd_int_iff)
  finally show ?thesis by simp
qed

lemma mk_fin_coefficient: "mk_fin neg n e = BFin c e' \<Longrightarrow> (c = 0 \<and> e' = 0) \<or> (c \<noteq> 0 \<and> \<not> 10 dvd c)"
proof (cases "n = 0")
  case True
  then show "mk_fin neg n e = BFin c e' \<Longrightarrow> ?thesis" by (simp add: mk_fin_def)
next
  case False
  obtain m e'' where sz: "strip_zeros n e = (m, e'')" by fastforce
  from strip_zeros_canonical [OF sz False] have "m \<noteq> 0" "\<not> 10 dvd m" by auto
  then have "\<not> (10::int) dvd int m" by presburger
  with \<open>m \<noteq> 0\<close> False sz show "mk_fin neg n e = BFin c e' \<Longrightarrow> ?thesis"
    by (cases neg) (auto simp: mk_fin_def)
qed

lemma bn_range_mk_fin_canonical: "bn_canonical (bn_range (mk_fin neg n e))"
proof (cases "mk_fin neg n e")
  case (BFin c e')
  from mk_fin_coefficient [OF BFin] show ?thesis
    using BFin by (auto simp: bn_range_def bn_canonical_def)
qed (simp_all add: bn_range_def bn_canonical_def)

lemma bn_canonical_special [simp]: "bn_canonical BNaN" "bn_canonical (BInf b)" "bn_canonical (BFin 0 0)"
  by (simp_all add: bn_canonical_def)

lemma bn_parse_numeric_canonical: "bn_parse_numeric s = Some x \<Longrightarrow> bn_canonical x"
  by (auto simp: bn_parse_numeric_def bn_range_mk_fin_canonical split: prod.splits option.splits)

lemma bn_of_string_canonical: "bn_canonical (bn_of_string s)"
  using bn_parse_numeric_canonical
  by (auto simp: bn_of_string_def Let_def split: option.splits)

lemma bn_times_canonical: "bn_canonical (bn_times x y)"
  by (cases "(x, y)" rule: bn_times.cases) (simp_all add: bn_range_mk_fin_canonical)

lemma bn_shifted_by_safe: "\<bar>k\<bar> \<le> max_safe_integer \<Longrightarrow> bn_shifted_by x k = Inr (bn_times x (bn_pow10 k))"
  by (auto simp: bn_shifted_by_def)

lemma bn_shifted_by_range:
  "bn_shifted_by x k = Inl err \<longleftrightarrow> max_safe_integer < \<bar>k\<bar> \<and> err = BigNumberArgumentOutOfRange k"
  by (auto simp: bn_shifted_by_def)

lemma digits_of_single: "n < 10 \<Longrightarrow> digits_of n = [digit_char n]"
  by (simp add: digits_of.simps [of n])

lemma bn_pow10_in_range: "min_exp \<le> k \<Longrightarrow> k \<le> max_exp \<Longrightarrow> bn_pow10 k = BFin 1 k"
  by (simp add: bn_pow10_def bn_range_def sci_exp_def digits_of_single)

lemma bn_pow10_underflow: "k < min_exp \<Longrightarrow> bn_pow10 k = BFin 0 0"
  by (simp add: bn_pow10_def bn_range_def sci_exp_def digits_of_single min_exp_def max_exp_def)

lemma mk_fin_coeff_value:
  assumes "c \<noteq> 0" "\<not> 10 dvd c"
  shows "mk_fin (c < 0) (nat \<bar>c\<bar>) e = BFin c e"
proof -
  have "nat \<bar>c\<bar> \<noteq> 0" "\<not> 10 dvd nat \<bar>c\<bar>" using assms by (simp_all add: nat_abs_dvd_iff)
  from mk_fin_scaled [OF this, of "c < 0" 0 e] show ?thesis by auto
qed

lemma bn_times_pow10_fin:
  assumes "c \<noteq> 0" "\<not> 10 dvd c" "min_exp \<le> k" "k \<le> max_exp"
    and "min_exp \<le> sci_exp c e + k" "sci_exp c e + k \<le> max_exp"
  shows "bn_times (BFin c e) (bn_pow10 k) = BFin c (e + k)"
proof -
  have "mk_fin (c * 1 < 0) (nat \<bar>c * 1\<bar>) (e + k) = BFin c (e + k)"
    using mk_fin_coeff_value [OF assms(1,2)] by simp
  moreover have "sci_exp c (e + k) = sci_exp c e + k" by (simp add: sci_exp_def)
  ultimately show ?thesis
    using assms by (simp add: bn_pow10_in_range bn_range_def)
qed

lemma max_exp_safe: "max_exp \<le> max_safe_integer" "- max_safe_integer \<le> min_exp"
  by (simp_all add: max_exp_def min_exp_def max_safe_integer_def)

lemma bn_shifted_by_inverse:
  assumes "bn_canonical x" "bn_shift_in_range x k"
  shows "\<exists>y. bn_shifted_by x k = Inr y \<and> bn_canonical y \<and> bn_shifted_by y (- k) = Inr x"
proof -
  have k: "min_exp \<le> k" "k \<le> max_exp" "min_exp \<le> - k" "- k \<le> max_exp"
    using assms(2) by (auto simp: bn_shift_in_range_def min_exp_def max_exp_def)
  then have safe: "\<bar>k\<bar> \<le> max_safe_integer" "\<bar>- k\<bar> \<le> max_safe_integer"
    using max_exp_safe by auto
  show ?thesis
  proof (cases x)
    case (BFin c e)
    show ?thesis
    proof (cases "c = 0")
      case True
      with assms(1) BFin have "x = BFin 0 0" by (simp add: bn_canonical_def)
      then show ?thesis using safe k by (simp add: bn_shifted_by_safe bn_pow10_in_range)
    next
      case False
      have nd: "\<not> 10 dvd c" and r: "min_exp \<le> sci_exp c e" "sci_exp c e \<le> max_exp"
        using assms(1) BFin False by (auto simp: bn_canonical_def)
      have r': "min_exp \<le> sci_exp c e + k" "sci_exp c e + k \<le> max_exp"
        using assms(2) BFin False by (auto simp: bn_shift_in_range_def)
      have y: "bn_times (BFin c e) (bn_pow10 k) = BFin c (e + k)"
        using False nd k(1,2) r' by (rule bn_times_pow10_fin)
      have "sci_exp c (e + k) + - k = sci_exp c e" by (simp add: sci_exp_def)
      then have b: "bn_times (BFin c (e + k)) (bn_pow10 (- k)) = BFin c e"
        using bn_times_pow10_fin [OF False nd k(3,4), of "e + k"] r by simp
      have "bn_canonical (BFin c (e + k))" using y bn_times_canonical by metis
      then show ?thesis using BFin y b safe by (simp add: bn_shifted_by_safe)
    qed
  qed (use safe k in \<open>simp_all add: bn_shifted_by_safe bn_pow10_in_range\<close>)
qed

lemma bn_shifted_by_canonical:
  assumes "bn_canonical x" "bn_shifted_by x k = Inr y"
  shows "bn_canonical y"
  using assms(2) bn_times_canonical by (auto simp: bn_shifted_by_def split: if_splits)

lemma bn_of_string_digits:
  assumes "list_all is_digit ds" "ds \<noteq> []"
  shows "bn_of_string ds = bn_range (mk_fin False (digits_value ds) 0)"
proof -
  obtain ch rest where ds: "ds = ch # rest" using assms(2) by (cases ds) auto
  with assms(1) have ch: "is_digit ch" by simp
  have "parse_unsigned (ds @ []) = Some (digits_value ds, 0)"
    using assms by (intro parse_unsigned_integer) simp_all
  then have "bn_parse_numeric ds = Some (bn_range (mk_fin False (digits_value ds) 0))"
    using bn_parse_numeric_digit_start(1) [OF ch, of rest] ds by simp
  then show ?thesis by (rule bn_of_string_numeric)
qed

lemma bn_of_string_digits_of: "bn_of_string (digits_of n) = bn_range (mk_fin False n 0)"
  using bn_of_string_digits [of "digits_of n"] by simp

lemma mk_fin_single_digit:
  assumes "0 < n" "n < 10"
  shows "mk_fin neg n e = BFin (if neg then - int n else int n) e"
proof -
  have "\<not> 10 dvd n" using assms by (auto dest: dvd_imp_le)
  with assms show ?thesis by (simp add: mk_fin_def)
qed

lemma bn_of_string_single_digit:
  assumes "0 < n" "n < 10"
  shows "bn_of_string (digits_of n) = BFin (int n) 0"
proof -
  have "bn_of_string (digits_of n) = bn_range (mk_fin False n 0)" by (rule bn_of_string_digits_of)
  also have "\<dots> = BFin (int n) 0"
    using assms by (simp add: mk_fin_single_digit bn_range_def sci_exp_def digits_of_single
        min_exp_def max_exp_def)
  finally show ?thesis .
qed

end
