(* ===== verification/MintStatuses.thy ===== *)
theory MintStatuses
  imports BigNum
begin

text \<open>
  The two mint status screens of src/src/features/gateway/steps/mint/MintStatuses.tsx.
  \<open>MintDepositConfirmationStatus\<close> shows a deposit whose lock transaction is still
  confirming; \<open>MintDepositAcceptedStatus\<close> shows a deposit accepted by the gateway
  and raises notifications from effects.  A screen is modelled as a function from
  its props (and the configuration registry and theme it reads) to a record of what it
  renders, or to the error its render throws.  The helpers \<open>maxConfirmations\<close> and
  the lock amount formatting (\<open>lockAmountFormatted\<close>, computed with bignumber.js in
  both screens) come first.  The notification effects of the accepted screen are
  modelled in theory \<open>MintAcceptedEffects\<close>.
\<close>

section \<open>Props and rendered output\<close>

text \<open>
  The fields of the SDK's \<open>Gateway\<close> object that the screens read: the asset
  (\<open>gateway.params.asset\<close>), the source chain as the gateway resolved it
  (\<open>gateway.fromChain.chain\<close>), and the chains of the gateway's parameters
  (\<open>gateway.params.from.chain\<close>, \<open>gateway.params.to.chain\<close>), and the amount the
  H2H screens display.  \<open>getGatewayParams(gateway)\<close> (gatewayHooks) returns the
  asset, the two parameter chains and the amount.
\<close>

record gateway =
  gw_asset :: string
  gw_from_chain :: string
  gw_params_from :: string
  gw_params_to :: string
  gw_amount :: string

text \<open>The theme colours the screens fall back to (theme/colors, \<open>theme.customColors\<close>).\<close>

record theme_colors =
  orange_light :: string
  sky_blue :: string

text \<open>What \<open>ProgressWithContent\<close> receives.\<close>

record progress_view =
  pv_color :: "string option"
  pv_processing :: bool
  pv_confirmations :: "int option"
  pv_target :: "int option"
  pv_status_info :: "string option"

datatype confirmations_text = ConfirmationsOf int int | ConfirmationsSkeleton

datatype amount_display = AmountValue string string | AmountSkeleton

record tx_details =
  td_label :: string
  td_address :: string
  td_link :: string

section \<open>Helpers\<close>

text \<open>\<open>maxConfirmations\<close> (lines 149--154).\<close>

definition max_confirmations :: "int \<Rightarrow> int \<Rightarrow> int" where
  "max_confirmations actual target = (if actual > target then target else actual)"

text \<open>
  \<open>lockAmountFormatted\<close> (lines 77--80, repeated at 189--192):
  \<open>new BigNumber(lockAmount).shiftedBy(-lockAssetDecimals).toString()\<close> when both
  props are non-null, \<open>null\<close> otherwise; \<open>shiftedBy\<close> throws on an argument out
  of the safe-integer range.
\<close>

definition lock_amount_formatted :: "js_string \<Rightarrow> js_count \<Rightarrow> render_error + string option" where
  "lock_amount_formatted amount decimals =
     (case both_present amount decimals of
        None \<Rightarrow> Inr None
      | Some (a, d) \<Rightarrow> sum_bind (bn_shifted_by (bn_of_string a) (- d)) (\<lambda>x. Inr (Some (bn_to_string x))))"

text \<open>The transaction details button (lines 133--139 and 290--296).\<close>

definition tx_details_button :: "string \<Rightarrow> js_string \<Rightarrow> js_string \<Rightarrow> tx_details option" where
  "tx_details_button label tx_id tx_url =
     (case both_present tx_id tx_url of
        None \<Rightarrow> None
      | Some (a, l) \<Rightarrow> Some \<lparr>td_label = label, td_address = a, td_link = l\<rparr>)"

text \<open>The confirmation line (lines 110--116): the raw counts, or a skeleton.\<close>

definition confirmations_line :: "js_count \<Rightarrow> js_count \<Rightarrow> confirmations_text" where
  "confirmations_line c t =
     (case both_present c t of None \<Rightarrow> ConfirmationsSkeleton | Some (x, y) \<Rightarrow> ConfirmationsOf x y)"

section \<open>MintDepositConfirmationStatus\<close>

record confirmation_props =
  cp_gateway :: gateway
  cp_lock_confirmations :: js_count
  cp_lock_target_confirmations :: js_count
  cp_lock_status :: chain_transaction_status
  cp_lock_amount :: js_string
  cp_lock_asset_decimals :: js_count
  cp_lock_tx_id :: js_string
  cp_lock_tx_url :: js_string

record confirmation_view =
  cv_title :: i18n_key
  cv_progress :: progress_view
  cv_confirmations :: confirmations_text
  cv_amount :: amount_display
  cv_details :: "tx_details option"
  cv_processing_minutes :: nat

text \<open>
  Lines 56--147.  The title is the one the effect of lines 83--89 sets; the amount is
  the \<open>BigAssetAmount\<close> of lines 119--132 (a skeleton while the formatted amount is
  \<open>null\<close>); the estimated time is the constant \<open>lockProcessingTime = 500\<close>.
\<close>

definition mint_deposit_confirmation_status ::
  "registry \<Rightarrow> theme_colors \<Rightarrow> confirmation_props \<Rightarrow> render_error + confirmation_view" where
  "mint_deposit_confirmation_status reg th p =
     sum_bind (get_asset_config reg (gw_asset (cp_gateway p))) (\<lambda>lock_asset.
     sum_bind (get_chain_config reg (gw_from_chain (cp_gateway p))) (\<lambda>lock_chain.
     sum_bind (lock_amount_formatted (cp_lock_amount p) (cp_lock_asset_decimals p)) (\<lambda>amount.
     let confirmed = (cp_lock_status p = TxDone) in
     Inr \<lparr>cv_title = (if confirmed then ''mint.deposit-confirmed-label''
                      else ''mint.deposit-confirming-label''),
          cv_progress = \<lparr>pv_color = Some (js_or (ac_color lock_asset) (orange_light th)),
                         pv_processing = False,
                         pv_confirmations = cp_lock_confirmations p,
                         pv_target = cp_lock_target_confirmations p,
                         pv_status_info = None\<rparr>,
          cv_confirmations = confirmations_line (cp_lock_confirmations p) (cp_lock_target_confirmations p),
          cv_amount = (case amount of None \<Rightarrow> AmountSkeleton
                       | Some a \<Rightarrow> AmountValue a (ac_short_name lock_asset)),
          cv_details = tx_details_button (cc_full_name lock_chain) (cp_lock_tx_id p) (cp_lock_tx_url p),
          cv_processing_minutes = 500\<rparr>)))"

section \<open>MintDepositAcceptedStatus: the render\<close>

record accepted_props =
  ap_gateway :: gateway
  ap_expiry_time :: int
  ap_lock_target_confirmations :: js_count
  ap_lock_confirmations :: js_count
  ap_lock_amount :: js_string
  ap_lock_asset_decimals :: js_count
  ap_lock_tx_id :: js_string
  ap_lock_tx_url :: js_string

record accepted_view =
  av_title :: i18n_key
  av_action_required :: bool
  av_progress :: progress_view
  av_received_amount :: "string option"
  av_received_suffix :: string
  av_button_label :: "i18n_key \<times> string"
  av_button_disabled :: bool
  av_details :: "tx_details option"
  av_error_dialog_open :: bool

text \<open>
  Lines 168--307 (the effects of lines 194--240 are modelled below).  The submission
  wiring is left as stubs in the source (lines 244--250: \<open>submitting = false\<close>,
  \<open>onSubmit = () => {}\<close>, \<open>submittingError = ""\<close>); the model keeps them as they
  are: the progress shows the processing variant and the button its minting label
  and \<open>disabled\<close> state exactly when \<open>submitting\<close>, and the error dialog is open
  when \<open>Boolean(submittingError)\<close>.
\<close>

definition mint_deposit_accepted_status ::
  "registry \<Rightarrow> theme_colors \<Rightarrow> accepted_props \<Rightarrow> render_error + accepted_view" where
  "mint_deposit_accepted_status reg th p =
     sum_bind (get_asset_config reg (gw_asset (ap_gateway p))) (\<lambda>lock_asset.
     sum_bind (get_chain_config reg (gw_params_from (ap_gateway p))) (\<lambda>lock_chain.
     sum_bind (get_chain_config reg (gw_params_to (ap_gateway p))) (\<lambda>mint_chain.
     sum_bind (lock_amount_formatted (ap_lock_amount p) (ap_lock_asset_decimals p)) (\<lambda>amount.
     let submitting = False; submitting_error = ([] :: string) in
     Inr \<lparr>av_title = ''mint.deposit-accepted-submit-title'',
          av_action_required = True,
          av_progress =
            (if submitting
             then \<lparr>pv_color = Some (sky_blue th), pv_processing = True, pv_confirmations = None,
                   pv_target = None, pv_status_info = None\<rparr>
             else \<lparr>pv_color = Some (js_or (ac_color lock_asset) (sky_blue th)), pv_processing = False,
                   pv_confirmations = ap_lock_confirmations p,
                   pv_target = ap_lock_target_confirmations p, pv_status_info = None\<rparr>),
          av_received_amount = amount,
          av_received_suffix = ac_full_name lock_asset,
          av_button_label = (if submitting then ''mint.minting-label'' else ''mint.mint-label'',
                             ren_full_name reg (ac_full_name lock_asset)),
          av_button_disabled = submitting,
          av_details = tx_details_button (cc_full_name lock_chain) (ap_lock_tx_id p) (ap_lock_tx_url p),
          av_error_dialog_open = (submitting_error \<noteq> [])\<rparr>))))"

section \<open>Example inputs\<close>

text \<open>A concrete registry, theme and gateway (a BTC lock on Bitcoin, minted on Ethereum).\<close>

definition btc_config :: asset_config where
  "btc_config = \<lparr>ac_full_name = ''Bitcoin'', ac_short_name = ''BTC'', ac_color = None\<rparr>"

definition example_registry :: registry where
  "example_registry =
     \<lparr>asset_cfg = (\<lambda>a. if a = ''BTC'' then Some btc_config else None),
      chain_cfg = (\<lambda>c. if c = ''Bitcoin'' then Some \<lparr>cc_full_name = ''Bitcoin''\<rparr>
                       else if c = ''Ethereum'' then Some \<lparr>cc_full_name = ''Ethereum''\<rparr> else None),
      ren_full_name = (\<lambda>n. ''Ren'' @ n), ren_asset_name = (\<lambda>a. ''ren'' @ a)\<rparr>"

definition example_theme :: theme_colors where
  "example_theme = \<lparr>orange_light = ''orangeLight'', sky_blue = ''skyBlue''\<rparr>"

definition example_gateway :: gateway where
  "example_gateway =
     \<lparr>gw_asset = ''BTC'', gw_from_chain = ''Bitcoin'', gw_params_from = ''Bitcoin'', gw_params_to = ''Ethereum'',
      gw_amount = ''0.5''\<rparr>"

declare btc_config_def [eval_simps] example_registry_def [eval_simps] example_theme_def [eval_simps]
  example_gateway_def [eval_simps]

declare lock_amount_formatted_def [eval_simps] max_confirmations_def [eval_simps]

declare mint_deposit_confirmation_status_def [view_defs]
  mint_deposit_accepted_status_def [view_defs]
  tx_details_button_def [view_defs] confirmations_line_def [view_defs]

section \<open>Lemmas\<close>

lemma lock_amount_formatted_in_range:
  "\<bar>d\<bar> \<le> max_safe_integer \<Longrightarrow>
   \<exists>x. bn_shifted_by (bn_of_string s) (- d) = Inr x \<and>
       lock_amount_formatted (Some s) (Some d) = Inr (Some (bn_to_string x))"
  by (auto simp: lock_amount_formatted_def bn_shifted_by_safe)

lemma bn_shifted_by_NaN: "\<bar>k\<bar> \<le> max_safe_integer \<Longrightarrow> bn_shifted_by BNaN k = Inr BNaN"
  by (simp add: bn_shifted_by_safe)

lemma lock_amount_formatted_Inr:
  "lock_amount_formatted x d = Inr am \<Longrightarrow> (am = None \<longleftrightarrow> x = None \<or> d = None)"
  by (cases x; cases d) (auto simp: lock_amount_formatted_def sum_bind_Inr_iff)

lemma tx_details_button_None_iff:
  "tx_details_button l i u = None \<longleftrightarrow> i = None \<or> u = None"
  by (simp add: tx_details_button_def split: option.splits)

lemma confirmations_line_skeleton_iff:
  "confirmations_line c t = ConfirmationsSkeleton \<longleftrightarrow> c = None \<or> t = None"
  by (simp add: confirmations_line_def split: option.splits)

lemma bn_to_string_zero: "bn_to_string (BFin 0 0) = ''0''"
  by (simp add: digits_of_single digit_char_simps to_exp_neg_def to_exp_pos_def to_fixed_point_def Let_def)

section \<open>Properties\<close>

text \<open>
  C13: The lock amount formatting round-trips: for every amount string and every
  decimal count whose shift keeps the value inside bignumber.js's exponent range, the
  formatted amount exists and shifting it back by the decimals gives the value the
  amount string parses to (specification, section 8, first property).
\<close>

theorem format_rescale_roundtrip:
  assumes "bn_shift_in_range (bn_of_string raw) (- d)"
  shows "\<exists>f. lock_amount_formatted (Some raw) (Some d) = Inr (Some f) \<and>
             bn_shifted_by (bn_of_string f) d = Inr (bn_of_string raw)"
proof -
  from bn_shifted_by_inverse [OF bn_of_string_canonical assms]
  obtain y where y: "bn_shifted_by (bn_of_string raw) (- d) = Inr y" "bn_canonical y"
    and bk: "bn_shifted_by y d = Inr (bn_of_string raw)" by auto
  have "lock_amount_formatted (Some raw) (Some d) = Inr (Some (bn_to_string y))"
    using y by (simp add: lock_amount_formatted_def)
  moreover have "bn_of_string (bn_to_string y) = y" using y(2) by (rule bn_roundtrip)
  ultimately show ?thesis using bk by auto
qed

theorem format_rescale_roundtrip_witness:
  "bn_shift_in_range (bn_of_string ''1500000'') (- 6) \<and>
   lock_amount_formatted (Some ''1500000'') (Some 6) = Inr (Some ''1.5'') \<and>
   bn_shifted_by (bn_of_string ''1.5'') 6 = Inr (bn_of_string ''1500000'')"
proof -
  have h: "bn_shift_in_range (bn_of_string ''1500000'') (- 6)" by (simp add: eval_simps)
  have f: "lock_amount_formatted (Some ''1500000'') (Some 6) = Inr (Some ''1.5'')"
    by (simp add: eval_simps)
  show ?thesis using format_rescale_roundtrip [OF h] h f by auto
qed

text \<open>
  C15: The lock amount formatting is null exactly when the amount or the decimal count
  is null, and throws exactly when the decimal count is outside the safe-integer
  range, with the argument of shiftedBy in the error.
\<close>

theorem lock_amount_formatted_null_and_error:
  "(lock_amount_formatted a d = Inr None \<longleftrightarrow> a = None \<or> d = None) \<and>
   (lock_amount_formatted (Some s) (Some k) = Inl err \<longleftrightarrow>
      max_safe_integer < \<bar>k\<bar> \<and> err = BigNumberArgumentOutOfRange (- k))"
proof -
  have "lock_amount_formatted a d = Inr None \<longleftrightarrow> a = None \<or> d = None"
    by (cases "bn_shifted_by (bn_of_string (the a)) (- the d)")
       (auto simp: lock_amount_formatted_def split: option.splits)
  moreover have "lock_amount_formatted (Some s) (Some k) = Inl err \<longleftrightarrow>
      max_safe_integer < \<bar>k\<bar> \<and> err = BigNumberArgumentOutOfRange (- k)"
    using bn_shifted_by_range [of "bn_of_string s" "- k" err]
    by (cases "bn_shifted_by (bn_of_string s) (- k)") (auto simp: lock_amount_formatted_def)
  ultimately show ?thesis by blast
qed

text \<open>
  C25: A single-digit amount in base units with seven or more decimals is formatted in
  exponential notation: one satoshi of an 8-decimal asset is shown as 1e-8, not as a
  fixed-point decimal.
\<close>

theorem small_amount_exponential:
  assumes "0 < n" "n < 10" "7 \<le> d" "d \<le> max_exp"
  shows "lock_amount_formatted (Some (digits_of n)) (Some d) =
           Inr (Some (digit_char n # CHR ''e'' # CHR ''-'' # digits_of (nat d)))"
proof -
  have x: "bn_of_string (digits_of n) = BFin (int n) 0"
    using assms(1,2) by (rule bn_of_string_single_digit)
  have nd: "\<not> 10 dvd int n" using assms(1,2) by (auto dest: zdvd_imp_le)
  have sc: "sci_exp (int n) 0 = 0" using assms(2) by (simp add: sci_exp_def digits_of_single)
  have k: "min_exp \<le> - d" "- d \<le> max_exp" using assms(3,4) by (simp_all add: min_exp_def max_exp_def)
  have "bn_times (BFin (int n) 0) (bn_pow10 (- d)) = BFin (int n) (0 + - d)"
    using assms(1) nd k sc by (intro bn_times_pow10_fin) simp_all
  moreover have "\<bar>- d\<bar> \<le> max_safe_integer" using assms(3,4) max_exp_safe by simp
  ultimately have s: "bn_shifted_by (BFin (int n) 0) (- d) = Inr (BFin (int n) (- d))"
    by (simp add: bn_shifted_by_safe)
  have "nat \<bar>int n\<bar> = n" by simp
  then have "bn_to_string (BFin (int n) (- d)) = digit_char n # CHR ''e'' # CHR ''-'' # digits_of (nat d)"
    using assms by (simp add: digits_of_single to_exp_neg_def to_exponential_def Let_def)
  then show ?thesis using x s by (simp add: lock_amount_formatted_def)
qed

theorem small_amount_exponential_witness:
  "lock_amount_formatted (Some ''1'') (Some 8) = Inr (Some ''1e-8'')"
proof -
  have "lock_amount_formatted (Some (digits_of 1)) (Some 8) =
          Inr (Some (digit_char 1 # CHR ''e'' # CHR ''-'' # digits_of (nat 8)))"
    by (rule small_amount_exponential) (simp_all add: max_exp_def)
  moreover have "digits_of 1 = ''1''" "digit_char 1 = CHR ''1''" "digits_of (nat 8) = ''8''"
    by code_simp+
  ultimately show ?thesis by simp
qed

text \<open>
  C16: The confirmation screen throws exactly on an unknown asset, then on an unknown
  source chain, then on a decimal count outside the safe-integer range, in that order,
  with the matching error.
\<close>

theorem confirmation_status_error_order:
  "mint_deposit_confirmation_status reg th p = Inl err \<longleftrightarrow>
     (asset_cfg reg (gw_asset (cp_gateway p)) = None \<and> err = UnknownAsset (gw_asset (cp_gateway p))) \<or>
     (asset_cfg reg (gw_asset (cp_gateway p)) \<noteq> None \<and> chain_cfg reg (gw_from_chain (cp_gateway p)) = None \<and>
      err = UnknownChain (gw_from_chain (cp_gateway p))) \<or>
     (asset_cfg reg (gw_asset (cp_gateway p)) \<noteq> None \<and> chain_cfg reg (gw_from_chain (cp_gateway p)) \<noteq> None \<and>
      cp_lock_amount p \<noteq> None \<and>
      (\<exists>d. cp_lock_asset_decimals p = Some d \<and> max_safe_integer < \<bar>d\<bar> \<and> err = BigNumberArgumentOutOfRange (- d)))"
  by (auto simp: mint_deposit_confirmation_status_def lock_amount_formatted_def bn_shifted_by_def
      sum_bind_def get_asset_config_def get_chain_config_def split: option.splits sum.splits)

theorem confirmation_status_error_order_witness:
  "mint_deposit_confirmation_status example_registry example_theme
     \<lparr>cp_gateway = example_gateway\<lparr>gw_asset := ''DOGE''\<rparr>, cp_lock_confirmations = None,
      cp_lock_target_confirmations = None, cp_lock_status = TxConfirming, cp_lock_amount = None,
      cp_lock_asset_decimals = None, cp_lock_tx_id = None, cp_lock_tx_url = None\<rparr> = Inl (UnknownAsset ''DOGE'')"
  using confirmation_status_error_order [of example_registry example_theme
     "\<lparr>cp_gateway = example_gateway\<lparr>gw_asset := ''DOGE''\<rparr>, cp_lock_confirmations = None,
      cp_lock_target_confirmations = None, cp_lock_status = TxConfirming, cp_lock_amount = None,
      cp_lock_asset_decimals = None, cp_lock_tx_id = None, cp_lock_tx_url = None\<rparr>" "UnknownAsset ''DOGE''"]
  by (simp add: eval_simps)

text \<open>
  C26: An amount string that bignumber.js does not parse is shown as the text NaN with
  the asset suffix, not as the skeleton placeholder.
\<close>

theorem non_numeric_amount_shows_nan:
  assumes "asset_cfg reg (gw_asset (cp_gateway p)) = Some a"
    and "chain_cfg reg (gw_from_chain (cp_gateway p)) = Some k"
    and "cp_lock_amount p = Some s" "bn_of_string s = BNaN"
    and "cp_lock_asset_decimals p = Some d" "\<bar>d\<bar> \<le> max_safe_integer"
  shows "\<exists>v. mint_deposit_confirmation_status reg th p = Inr v \<and>
             cv_amount v = AmountValue ''NaN'' (ac_short_name a)"
proof -
  have "lock_amount_formatted (Some s) (Some d) = Inr (Some ''NaN'')"
    using assms(4,6) by (simp add: lock_amount_formatted_def bn_shifted_by_NaN)
  then show ?thesis using assms by (simp add: view_defs)
qed

theorem non_numeric_amount_shows_nan_witness:
  "\<exists>v. mint_deposit_confirmation_status example_registry example_theme
     \<lparr>cp_gateway = example_gateway, cp_lock_confirmations = None,
      cp_lock_target_confirmations = None, cp_lock_status = TxConfirming, cp_lock_amount = Some ''abc'',
      cp_lock_asset_decimals = Some 8, cp_lock_tx_id = None, cp_lock_tx_url = None\<rparr> = Inr v \<and>
     cv_amount v = AmountValue ''NaN'' ''BTC''"
proof -
  have a: "asset_cfg example_registry (gw_asset example_gateway) = Some btc_config"
    and k: "chain_cfg example_registry (gw_from_chain example_gateway) = Some \<lparr>cc_full_name = ''Bitcoin''\<rparr>"
    and n: "bn_of_string ''abc'' = BNaN" and d: "\<bar>8\<bar> \<le> max_safe_integer"
    by (simp_all add: eval_simps)
  show ?thesis
    using non_numeric_amount_shows_nan [of example_registry
      "\<lparr>cp_gateway = example_gateway, cp_lock_confirmations = None,
        cp_lock_target_confirmations = None, cp_lock_status = TxConfirming, cp_lock_amount = Some ''abc'',
        cp_lock_asset_decimals = Some 8, cp_lock_tx_id = None, cp_lock_tx_url = None\<rparr>" btc_config
      "\<lparr>cc_full_name = ''Bitcoin''\<rparr>" "''abc''" 8 example_theme] a k n d
    by (simp add: btc_config_def)
qed

text \<open>
  C24: On a confirmation screen that renders, the title says confirmed exactly when
  the lock status is Done, the amount is a skeleton exactly when the amount or the
  decimals are null, the transaction details button is shown exactly when both the
  transaction id and its URL are present, the confirmation line is a skeleton exactly
  when a count is null, the progress shows the counts as given, and the estimated time
  is 500 minutes.
\<close>

theorem confirmation_view_shape:
  assumes "mint_deposit_confirmation_status reg th p = Inr v"
  shows "(cv_title v = ''mint.deposit-confirmed-label'' \<longleftrightarrow> cp_lock_status p = TxDone) \<and>
         (cv_amount v = AmountSkeleton \<longleftrightarrow> cp_lock_amount p = None \<or> cp_lock_asset_decimals p = None) \<and>
         (cv_details v \<noteq> None \<longleftrightarrow> cp_lock_tx_id p \<noteq> None \<and> cp_lock_tx_url p \<noteq> None) \<and>
         (cv_confirmations v = ConfirmationsSkeleton \<longleftrightarrow>
            cp_lock_confirmations p = None \<or> cp_lock_target_confirmations p = None) \<and>
         pv_confirmations (cv_progress v) = cp_lock_confirmations p \<and>
         pv_target (cv_progress v) = cp_lock_target_confirmations p \<and>
         cv_processing_minutes v = 500"
proof -
  obtain a where a: "asset_cfg reg (gw_asset (cp_gateway p)) = Some a"
    using assms by (cases "asset_cfg reg (gw_asset (cp_gateway p))")
      (simp_all add: mint_deposit_confirmation_status_def)
  obtain k where k: "chain_cfg reg (gw_from_chain (cp_gateway p)) = Some k"
    using assms a by (cases "chain_cfg reg (gw_from_chain (cp_gateway p))")
      (simp_all add: mint_deposit_confirmation_status_def)
  obtain am where am: "lock_amount_formatted (cp_lock_amount p) (cp_lock_asset_decimals p) = Inr am"
    using assms a k by (cases "lock_amount_formatted (cp_lock_amount p) (cp_lock_asset_decimals p)")
      (simp_all add: mint_deposit_confirmation_status_def)
  have v: "cv_title v = (if cp_lock_status p = TxDone then ''mint.deposit-confirmed-label''
                         else ''mint.deposit-confirming-label'') \<and>
      cv_amount v = (case am of None \<Rightarrow> AmountSkeleton | Some x \<Rightarrow> AmountValue x (ac_short_name a)) \<and>
      cv_details v = tx_details_button (cc_full_name k) (cp_lock_tx_id p) (cp_lock_tx_url p) \<and>
      cv_confirmations v = confirmations_line (cp_lock_confirmations p) (cp_lock_target_confirmations p) \<and>
      pv_confirmations (cv_progress v) = cp_lock_confirmations p \<and>
      pv_target (cv_progress v) = cp_lock_target_confirmations p \<and>
      cv_processing_minutes v = 500"
    using assms a k am by (auto simp: mint_deposit_confirmation_status_def)
  have "cv_amount v = AmountSkeleton \<longleftrightarrow> am = None"
    using v by (simp split: option.splits)
  then show ?thesis
    using v lock_amount_formatted_Inr [OF am]
    by (simp add: tx_details_button_None_iff confirmations_line_skeleton_iff)
qed

theorem confirmation_view_shape_witness:
  "\<exists>v. mint_deposit_confirmation_status example_registry example_theme
     \<lparr>cp_gateway = example_gateway, cp_lock_confirmations = Some 2, cp_lock_target_confirmations = None,
      cp_lock_status = TxDone, cp_lock_amount = None, cp_lock_asset_decimals = Some 8,
      cp_lock_tx_id = None, cp_lock_tx_url = None\<rparr> = Inr v \<and>
     cv_title v = ''mint.deposit-confirmed-label'' \<and> cv_amount v = AmountSkeleton \<and>
     cv_confirmations v = ConfirmationsSkeleton"
proof -
  obtain v where v: "mint_deposit_confirmation_status example_registry example_theme
     \<lparr>cp_gateway = example_gateway, cp_lock_confirmations = Some 2, cp_lock_target_confirmations = None,
      cp_lock_status = TxDone, cp_lock_amount = None, cp_lock_asset_decimals = Some 8,
      cp_lock_tx_id = None, cp_lock_tx_url = None\<rparr> = Inr v"
    by (simp add: view_defs eval_simps)
  show ?thesis using v confirmation_view_shape [OF v] by simp
qed

text \<open>
  C17: The accepted screen throws exactly on an unknown asset, then an unknown source
  chain, then an unknown destination chain, then a decimal count outside the safe-
  integer range, in that order, with the matching error.
\<close>

theorem accepted_status_error_order:
  "mint_deposit_accepted_status reg th p = Inl err \<longleftrightarrow>
     (asset_cfg reg (gw_asset (ap_gateway p)) = None \<and> err = UnknownAsset (gw_asset (ap_gateway p))) \<or>
     (asset_cfg reg (gw_asset (ap_gateway p)) \<noteq> None \<and> chain_cfg reg (gw_params_from (ap_gateway p)) = None \<and>
      err = UnknownChain (gw_params_from (ap_gateway p))) \<or>
     (asset_cfg reg (gw_asset (ap_gateway p)) \<noteq> None \<and> chain_cfg reg (gw_params_from (ap_gateway p)) \<noteq> None \<and>
      chain_cfg reg (gw_params_to (ap_gateway p)) = None \<and> err = UnknownChain (gw_params_to (ap_gateway p))) \<or>
     (asset_cfg reg (gw_asset (ap_gateway p)) \<noteq> None \<and> chain_cfg reg (gw_params_from (ap_gateway p)) \<noteq> None \<and>
      chain_cfg reg (gw_params_to (ap_gateway p)) \<noteq> None \<and> ap_lock_amount p \<noteq> None \<and>
      (\<exists>d. ap_lock_asset_decimals p = Some d \<and> max_safe_integer < \<bar>d\<bar> \<and> err = BigNumberArgumentOutOfRange (- d)))"
  by (auto simp: mint_deposit_accepted_status_def lock_amount_formatted_def bn_shifted_by_def
      sum_bind_def get_asset_config_def get_chain_config_def split: option.splits sum.splits)

text \<open>
  C14: Beyond the exponent range the formatting loses the amount: for a decimal count
  above 1e7 (and within the safe-integer range) every finite amount is formatted as 0
  and every other as NaN, so shifting back cannot recover it.
\<close>

theorem large_decimals_underflow:
  assumes "max_exp < d" "d \<le> max_safe_integer"
  shows "lock_amount_formatted (Some raw) (Some d) =
           Inr (Some (case bn_of_string raw of BFin c e \<Rightarrow> ''0'' | _ \<Rightarrow> ''NaN''))"
proof -
  have p: "bn_pow10 (- d) = BFin 0 0"
    using assms(1) by (intro bn_pow10_underflow) (simp add: min_exp_def max_exp_def)
  have s: "\<bar>- d\<bar> \<le> max_safe_integer" using assms by (simp add: max_exp_def)
  show ?thesis
    using s p bn_to_string_zero
    by (cases "bn_of_string raw") (simp_all add: lock_amount_formatted_def bn_shifted_by_safe)
qed

theorem large_decimals_underflow_witness:
  "lock_amount_formatted (Some ''1'') (Some 10000001) = Inr (Some ''0'') \<and>
   bn_shifted_by (bn_of_string ''0'') 10000001 = Inr BNaN \<and> bn_of_string ''1'' = BFin 1 0"
proof -
  have h: "max_exp < 10000001" "10000001 \<le> max_safe_integer"
    by (simp_all add: max_exp_def max_safe_integer_def)
  have o: "bn_of_string ''1'' = BFin 1 0" by (simp add: eval_simps)
  have "lock_amount_formatted (Some ''1'') (Some 10000001) = Inr (Some ''0'')"
    using large_decimals_underflow [OF h, of "''1''"] o by simp
  moreover have "bn_shifted_by (bn_of_string ''0'') 10000001 = Inr BNaN"
    by (simp add: eval_simps)
  ultimately show ?thesis using o by simp
qed

end
