(* ===== verification/Submitter.thy ===== *)
theory Submitter
  imports Prelude
begin

text \<open>
  The chain-transaction submitter: the hook \<open>useChainTransactionSubmitter\<close> of
  features/gateway/gatewayTransactionHooks, which the H2H screens call once per
  transaction leg (\<open>gateway.in\<close>, \<open>transaction.renVM\<close>, \<open>transaction.out\<close>).
  The hook's file is not among the repository's sources, so its behaviour is taken
  from the specification (section 4.1): a lifecycle phase, the last error, the
  guarded \<open>submit\<close>, \<open>reset\<close>, and the SDK's asynchronous reports.  The model
  counts the external submissions the hook delegates to the SDK and the settlements
  the SDK reports, so that "at most one submission in flight" is a statement about
  the state.  The theory holds the deterministic step function, the abstract
  lifecycle it refines, the reachable states with their invariant, and the big-step
  \<open>handleSubmit\<close> that the screens await.
\<close>

section \<open>State and events\<close>

datatype phase = Idle | Submitting | Waiting | Done | Errored

record 'e submitter =
  phase :: phase
  last_error :: "'e option"
  submissions :: nat
  settlements :: nat

text \<open>\<open>wrap(chainTransaction)\<close>: a fresh submitter.\<close>

definition wrap :: "'e submitter" where
  "wrap = \<lparr>phase = Idle, last_error = None, submissions = 0, settlements = 0\<rparr>"

text \<open>The phases in which \<open>submit\<close> is a no-op.\<close>

definition busy :: "phase \<Rightarrow> bool" where
  "busy p \<longleftrightarrow> p = Submitting \<or> p = Waiting \<or> p = Done"

definition in_flight :: "phase \<Rightarrow> bool" where
  "in_flight p \<longleftrightarrow> p = Submitting \<or> p = Waiting"

text \<open>
  User actions (\<open>Submit\<close>, \<open>Reset\<close>) and the SDK's reports on the submission in
  flight: accepted (broadcast), confirmed (completed), failed (rejected or reverted).
\<close>

datatype 'e sdk_report = SdkAccepted | SdkConfirmed | SdkFailed 'e

datatype 'e sub_event = Submit | Reset | Report "'e sdk_report"

fun sub_step :: "'e submitter \<Rightarrow> 'e sub_event \<Rightarrow> 'e submitter" where
  "sub_step s Submit =
     (if busy (phase s) then s
      else s\<lparr>phase := Submitting, last_error := None, submissions := Suc (submissions s)\<rparr>)"
| "sub_step s (Report SdkAccepted) =
     (if phase s = Submitting then s\<lparr>phase := Waiting\<rparr> else s)"
| "sub_step s (Report SdkConfirmed) =
     (if phase s = Waiting then s\<lparr>phase := Done, settlements := Suc (settlements s)\<rparr> else s)"
| "sub_step s (Report (SdkFailed e)) =
     (if in_flight (phase s)
      then s\<lparr>phase := Errored, last_error := Some e, settlements := Suc (settlements s)\<rparr>
      else s)"
| "sub_step s Reset =
     (if phase s = Errored then s\<lparr>phase := Idle, last_error := None\<rparr>
      else s\<lparr>last_error := None\<rparr>)"

fun sub_run :: "'e submitter \<Rightarrow> 'e sub_event list \<Rightarrow> 'e submitter" where
  "sub_run s [] = s"
| "sub_run s (ev # evs) = sub_run (sub_step s ev) evs"

text \<open>The booleans the hook returns for rendering.\<close>

record 'e submitter_flags =
  flag_submitting :: bool
  flag_waiting :: bool
  flag_done :: bool
  error_submitting :: "'e option"

definition sub_flags :: "'e submitter \<Rightarrow> 'e submitter_flags" where
  "sub_flags s =
     \<lparr>flag_submitting = (phase s = Submitting), flag_waiting = (phase s = Waiting),
      flag_done = (phase s = Done),
      error_submitting = (if phase s = Errored then last_error s else None)\<rparr>"

section \<open>The abstract lifecycle\<close>

text \<open>
  The specification's lifecycle: \<open>Idle \<rightarrow> Submitting \<rightarrow> Waiting \<rightarrow> Done\<close>, failure
  from either in-flight phase, retry from \<open>Errored\<close>, and \<open>reset\<close> back to
  \<open>Idle\<close>.  Nothing leaves \<open>Done\<close>.
\<close>

inductive lifecycle :: "phase \<Rightarrow> phase \<Rightarrow> bool" where
  start: "lifecycle Idle Submitting"
| retry: "lifecycle Errored Submitting"
| accept: "lifecycle Submitting Waiting"
| complete: "lifecycle Waiting Done"
| fail_submit: "lifecycle Submitting Errored"
| fail_wait: "lifecycle Waiting Errored"
| reset: "lifecycle Errored Idle"

inductive_cases lifecycle_from_Done: "lifecycle Done q"

section \<open>Reachable states\<close>

inductive sub_reach :: "'e submitter \<Rightarrow> bool" where
  init: "sub_reach wrap"
| step: "sub_reach s \<Longrightarrow> sub_reach (sub_step s ev)"

text \<open>
  The invariant: an error is recorded exactly in phase \<open>Errored\<close>, and every
  external submission but the one in flight has been settled by the SDK.
\<close>

definition sub_inv :: "'e submitter \<Rightarrow> bool" where
  "sub_inv s \<longleftrightarrow>
     (last_error s \<noteq> None \<longleftrightarrow> phase s = Errored) \<and>
     submissions s = settlements s + (if in_flight (phase s) then 1 else 0)"

section \<open>The awaited submission\<close>

text \<open>
  \<open>handleSubmit\<close> as the screens \<open>await\<close> it: a no-op when the submitter is busy;
  otherwise one submission followed by the SDK's reports up to its settlement.  How
  the SDK settles is the environment's choice, given as an outcome: completed,
  rejected before broadcast, or reverted after broadcast.  The promise resolves in
  every case; the failure is recorded in the state and not rethrown
  (specification, section 4.1).
\<close>

datatype 'e sdk_outcome = SdkCompleted | SdkRejected 'e | SdkRevertedAfterBroadcast 'e

fun sdk_reports :: "'e sdk_outcome \<Rightarrow> 'e sub_event list" where
  "sdk_reports SdkCompleted = [Report SdkAccepted, Report SdkConfirmed]"
| "sdk_reports (SdkRejected e) = [Report (SdkFailed e)]"
| "sdk_reports (SdkRevertedAfterBroadcast e) = [Report SdkAccepted, Report (SdkFailed e)]"

fun outcome_error :: "'e sdk_outcome \<Rightarrow> 'e option" where
  "outcome_error SdkCompleted = None"
| "outcome_error (SdkRejected e) = Some e"
| "outcome_error (SdkRevertedAfterBroadcast e) = Some e"

definition handle_submit :: "'e sdk_outcome \<Rightarrow> 'e submitter \<Rightarrow> 'e submitter" where
  "handle_submit r s = (if busy (phase s) then s else sub_run s (Submit # sdk_reports r))"

section \<open>Lemmas\<close>

lemma sub_event_exhaust [case_names Submit Reset Accepted Confirmed Failed]:
  obtains "ev = Submit" | "ev = Reset" | "ev = Report SdkAccepted" | "ev = Report SdkConfirmed"
    | e where "ev = Report (SdkFailed e)"
  by (metis sdk_report.exhaust sub_event.exhaust)

lemma busy_simps [simp]:
  "busy Idle = False" "busy Submitting" "busy Waiting" "busy Done" "busy Errored = False"
  by (simp_all add: busy_def)

lemma in_flight_simps [simp]:
  "in_flight Idle = False" "in_flight Submitting" "in_flight Waiting"
  "in_flight Done = False" "in_flight Errored = False"
  by (simp_all add: in_flight_def)

lemma sub_run_append: "sub_run s (xs @ ys) = sub_run (sub_run s xs) ys"
  by (induction xs arbitrary: s) auto

lemma sub_step_inv: "sub_inv s \<Longrightarrow> sub_inv (sub_step s ev)"
  by (cases ev rule: sub_event_exhaust) (auto simp: sub_inv_def busy_def in_flight_def)

lemma sub_run_inv: "sub_inv s \<Longrightarrow> sub_inv (sub_run s evs)"
  by (induction evs arbitrary: s) (auto intro: sub_step_inv)

lemma wrap_inv: "sub_inv wrap"
  by (simp add: sub_inv_def wrap_def)

lemma sub_reach_run: "sub_reach s \<Longrightarrow> sub_reach (sub_run s evs)"
  by (induction evs arbitrary: s) (auto intro: sub_reach.step)

lemma wrap_simps [simp]:
  "phase wrap = Idle" "last_error wrap = None" "submissions wrap = 0" "settlements wrap = 0"
  by (simp_all add: wrap_def)

lemma sub_step_Done: "phase s = Done \<Longrightarrow> phase (sub_step s ev) = Done"
  by (cases ev rule: sub_event_exhaust) auto

lemma sub_step_submissions:
  "submissions (sub_step s ev) =
     (if ev = Submit \<and> \<not> busy (phase s) then Suc (submissions s) else submissions s)"
  by (cases ev rule: sub_event_exhaust) auto

lemma sub_reach_iff_run: "sub_reach s \<longleftrightarrow> (\<exists>evs. s = sub_run wrap evs)"
proof
  assume "sub_reach s"
  then show "\<exists>evs. s = sub_run wrap evs"
  proof (induction rule: sub_reach.induct)
    case init
    show ?case by (rule exI [of _ "[]"]) simp
  next
    case (step s ev)
    then obtain evs where "s = sub_run wrap evs" by blast
    then have "sub_step s ev = sub_run wrap (evs @ [ev])" by (simp add: sub_run_append)
    then show ?case by blast
  qed
next
  assume "\<exists>evs. s = sub_run wrap evs"
  then show "sub_reach s" using sub_reach_run [OF sub_reach.init] by blast
qed

lemma sub_reach_inv: "sub_reach s \<Longrightarrow> sub_inv s"
  using sub_reach_iff_run sub_run_inv wrap_inv by metis

lemma lifecycle_Done_stuck: "\<not> lifecycle Done q"
  by (auto elim: lifecycle_from_Done)

lemma handle_submit_reach: "sub_reach s \<Longrightarrow> sub_reach (handle_submit r s)"
  by (simp add: handle_submit_def sub_reach_run sub_reach.step del: sub_run.simps)

lemma handle_submit_busy [simp]: "busy (phase s) \<Longrightarrow> handle_submit r s = s"
  by (simp add: handle_submit_def)

lemma handle_submit_idle:
  "\<not> busy (phase s) \<Longrightarrow> handle_submit r s = sub_run (sub_step s Submit) (sdk_reports r)"
  by (simp add: handle_submit_def)

lemma handle_submit_fields:
  assumes "\<not> busy (phase s)"
  shows "phase (handle_submit r s) = (case r of SdkCompleted \<Rightarrow> Done | _ \<Rightarrow> Errored)"
    and "last_error (handle_submit r s) = outcome_error r"
    and "submissions (handle_submit r s) = Suc (submissions s)"
    and "settlements (handle_submit r s) = Suc (settlements s)"
  using assms by (induction r) (simp_all add: handle_submit_def)

lemma sub_reach_one_in_flight:
  assumes "sub_reach s"
  shows "submissions s \<le> Suc (settlements s) \<and>
         (submissions s = Suc (settlements s) \<longleftrightarrow> in_flight (phase s))"
  using sub_reach_inv [OF assms] by (simp add: sub_inv_def)

lemma sub_step_submit_busy: "busy (phase s) \<Longrightarrow> sub_step s Submit = s"
  by simp

lemma sub_step_refines_lifecycle:
  "phase (sub_step s ev) = phase s \<or> lifecycle (phase s) (phase (sub_step s ev))"
  by (cases ev rule: sub_event_exhaust; cases "phase s") (auto intro: lifecycle.intros)

lemma sub_run_Done:
  "phase s = Done \<Longrightarrow> phase (sub_run s evs) = Done \<and> submissions (sub_run s evs) = submissions s"
proof (induction evs arbitrary: s)
  case Nil
  then show ?case by simp
next
  case (Cons ev evs)
  have "phase (sub_step s ev) = Done" using Cons.prems by (rule sub_step_Done)
  moreover have "submissions (sub_step s ev) = submissions s"
    using Cons.prems by (simp add: sub_step_submissions)
  ultimately show ?case using Cons.IH by simp
qed

lemma handle_submit_settles:
  assumes "\<not> busy (phase s)"
  shows "submissions (handle_submit r s) = Suc (submissions s) \<and>
         settlements (handle_submit r s) = Suc (settlements s) \<and>
         \<not> in_flight (phase (handle_submit r s)) \<and>
         (phase (handle_submit r s) = Done \<longleftrightarrow> r = SdkCompleted) \<and>
         error_submitting (sub_flags (handle_submit r s)) = outcome_error r"
  using handle_submit_fields [OF assms, of r]
  by (cases r) (simp_all add: sub_flags_def)

lemma sub_flags_simps [simp]:
  "flag_submitting (sub_flags s) \<longleftrightarrow> phase s = Submitting"
  "flag_waiting (sub_flags s) \<longleftrightarrow> phase s = Waiting"
  "flag_done (sub_flags s) \<longleftrightarrow> phase s = Done"
  "error_submitting (sub_flags s) = (if phase s = Errored then last_error s else None)"
  by (simp_all add: sub_flags_def)

lemma sub_inv_error_iff:
  "sub_inv s \<Longrightarrow> error_submitting (sub_flags s) \<noteq> None \<longleftrightarrow> phase s = Errored"
  by (simp add: sub_inv_def)

end
