(* ===== verification/MintH2HStatuses.thy ===== *)
theory MintH2HStatuses
  imports MintStatuses Submitter
begin

text \<open>
  The host-to-host lock screen of
  src/src/features/gateway/steps/mint/MintH2HStatuses.tsx,
  \<open>MintH2HLockTransactionStatus\<close>, and the rendering it shares with the two
  progress screens of that file (theory \<open>MintH2HProgress\<close>).  The screen renders the
  gateway's amounts and one submit button wired to the chain-transaction submitter of
  the lock leg (\<open>gateway.in\<close>, the hook of theory \<open>Submitter\<close>).  It is a render
  function over its props and the submitter's state, and a step function for what
  the user can do on it (click the button, act on the error dialog) and what the SDK
  reports; a disabled button receives no click.
\<close>

section \<open>Shared pieces of the rendering\<close>

text \<open>
  The receiving line (\<open>AssetInfo\<close>): the output amount with the ren asset's name
  (\<open>getRenAssetName(asset)\<close>) and three decimals, and the USD equivalent when
  \<open>outputAmountUsd !== null\<close> (lines 110--131, 237--259, 381--403).
\<close>

record receiving_view =
  rv_value :: js_string
  rv_suffix :: string
  rv_decimal_scale :: nat
  rv_usd :: js_string

definition receiving_info :: "registry \<Rightarrow> string \<Rightarrow> js_string \<Rightarrow> js_string \<Rightarrow> receiving_view" where
  "receiving_info reg asset output output_usd =
     \<lparr>rv_value = output, rv_suffix = ren_asset_name reg asset, rv_decimal_scale = 3,
      rv_usd = output_usd\<rparr>"

section \<open>MintH2HLockTransactionStatus\<close>

record 'e h2h_lock_view =
  lv_balance :: js_string
  lv_balance_asset :: string
  lv_minting :: "string \<times> string"
  lv_receiving :: receiving_view
  lv_button_disabled :: bool
  lv_button_label :: i18n_key
  lv_error_dialog :: "'e option"

text \<open>The button of line 155: \<open>disabled={submitting || waiting || done}\<close>.\<close>

definition lock_button_disabled :: "'e submitter \<Rightarrow> bool" where
  "lock_button_disabled s =
     (let f = sub_flags s in flag_submitting f \<or> flag_waiting f \<or> flag_done f)"

text \<open>
  Lines 57--172.  \<open>balance\<close> is what \<open>useEthereumChainAssetBalance\<close> returns
  (\<open>null\<close> while loading, shown as a skeleton); the submitter is the state of
  \<open>useChainTransactionSubmitter(gateway.in)\<close>.
\<close>

text \<open>
  The props of lines 50--55 (\<open>MintH2HLockTransactionStatusProps\<close>); \<open>Fees\<close>
  is a rendered node passed through unchanged and is not modelled.
\<close>

record h2h_lock_props =
  hp_gateway :: gateway
  hp_output_amount :: js_string
  hp_output_amount_usd :: js_string

definition mint_h2h_lock_transaction_status ::
  "registry \<Rightarrow> h2h_lock_props \<Rightarrow> js_string \<Rightarrow> 'e submitter \<Rightarrow>
   render_error + 'e h2h_lock_view" where
  "mint_h2h_lock_transaction_status reg p balance sub =
     sum_bind (get_asset_config reg (gw_asset (hp_gateway p))) (\<lambda>asset_config.
     let g = hp_gateway p; f = sub_flags sub in
     Inr \<lparr>lv_balance = balance, lv_balance_asset = gw_asset g, lv_minting = (gw_amount g, gw_asset g),
          lv_receiving = receiving_info reg (gw_asset g) (hp_output_amount p) (hp_output_amount_usd p),
          lv_button_disabled = lock_button_disabled sub,
          lv_button_label = (if flag_submitting f \<or> flag_waiting f then ''gateway.submitting-tx-label''
                             else ''gateway.submit-tx-label''),
          lv_error_dialog = error_submitting f\<rparr>)"

text \<open>
  What can happen on the lock screen: a click on the submit button
  (\<open>onClick={handleSubmit}\<close>), the action of the error dialog
  (\<open>onAction={handleReset}\<close>, present only while \<open>errorSubmitting\<close> is set), and a
  report of the SDK on the lock transaction.
\<close>

datatype 'e lock_screen_event = ClickSubmit | ErrorDialogAction | LockReport "'e sdk_report"

fun h2h_lock_step :: "'e submitter \<Rightarrow> 'e lock_screen_event \<Rightarrow> 'e submitter" where
  "h2h_lock_step s ClickSubmit = (if lock_button_disabled s then s else sub_step s Submit)"
| "h2h_lock_step s ErrorDialogAction =
     (if error_submitting (sub_flags s) \<noteq> None then sub_step s Reset else s)"
| "h2h_lock_step s (LockReport r) = sub_step s (Report r)"

fun h2h_lock_run :: "'e submitter \<Rightarrow> 'e lock_screen_event list \<Rightarrow> 'e submitter" where
  "h2h_lock_run s [] = s"
| "h2h_lock_run s (ev # evs) = h2h_lock_run (h2h_lock_step s ev) evs"

inductive h2h_lock_reach :: "'e submitter \<Rightarrow> bool" where
  mount: "h2h_lock_reach wrap"
| step: "h2h_lock_reach s \<Longrightarrow> h2h_lock_reach (h2h_lock_step s ev)"

text \<open>
  Two measures for the proofs about the lock screen: the submissions made plus one
  while a new one may still be made (\<open>submit_potential\<close>), and the failure
  reports of the SDK among the screen's events.  And a schedule of events that
  completes the lock from each phase (\<open>completion_events\<close>).
\<close>

definition submit_potential :: "'e submitter \<Rightarrow> nat" where
  "submit_potential s = submissions s + (if busy (phase s) then 0 else 1)"

fun is_failure_report :: "'e lock_screen_event \<Rightarrow> bool" where
  "is_failure_report (LockReport (SdkFailed e)) = True"
| "is_failure_report _ = False"

fun completion_events :: "phase \<Rightarrow> 'e lock_screen_event list" where
  "completion_events Idle = [ClickSubmit, LockReport SdkAccepted, LockReport SdkConfirmed]"
| "completion_events Submitting = [LockReport SdkAccepted, LockReport SdkConfirmed]"
| "completion_events Waiting = [LockReport SdkConfirmed]"
| "completion_events Done = []"
| "completion_events Errored = [ClickSubmit, LockReport SdkAccepted, LockReport SdkConfirmed]"

declare mint_h2h_lock_transaction_status_def [view_defs] receiving_info_def [view_defs]
  lock_button_disabled_def [view_defs]

section \<open>Lemmas\<close>

lemma lock_button_disabled_busy: "lock_button_disabled s \<longleftrightarrow> busy (phase s)"
  by (simp add: lock_button_disabled_def busy_def)

lemma h2h_lock_step_cases: "h2h_lock_step s ev = s \<or> (\<exists>e. h2h_lock_step s ev = sub_step s e)"
  by (cases ev) (auto simp del: sub_step.simps)

lemma h2h_lock_reach_sub_reach: "h2h_lock_reach s \<Longrightarrow> sub_reach s"
proof (induction rule: h2h_lock_reach.induct)
  case mount
  show ?case by (rule sub_reach.init)
next
  case (step s ev)
  from h2h_lock_step_cases [of s ev] step.IH show ?case by (auto intro: sub_reach.step)
qed

lemma h2h_lock_run_reach: "h2h_lock_reach s \<Longrightarrow> h2h_lock_reach (h2h_lock_run s evs)"
  by (induction evs arbitrary: s) (auto intro: h2h_lock_reach.step)

lemma h2h_lock_click_busy: "busy (phase s) \<Longrightarrow> h2h_lock_step s ClickSubmit = s"
  by (simp add: lock_button_disabled_busy)

lemma h2h_lock_clicks_busy: "busy (phase s) \<Longrightarrow> h2h_lock_run s (replicate n ClickSubmit) = s"
  by (induction n) (simp_all add: h2h_lock_click_busy)

lemma h2h_lock_step_Done:
  assumes "phase s = Done"
  shows "h2h_lock_step s ev = s"
proof (cases ev)
  case (LockReport r)
  then show ?thesis using assms by (cases r) auto
qed (use assms in \<open>auto simp: lock_button_disabled_busy\<close>)

lemma h2h_lock_step_potential:
  "submit_potential (h2h_lock_step s ev) \<le> submit_potential s + (if is_failure_report ev then 1 else 0)"
proof (cases ev)
  case ClickSubmit
  then show ?thesis by (auto simp: submit_potential_def lock_button_disabled_busy)
next
  case ErrorDialogAction
  then show ?thesis by (auto simp: submit_potential_def sub_flags_def)
next
  case (LockReport r)
  then show ?thesis by (cases r) (auto simp: submit_potential_def in_flight_def)
qed

lemma h2h_lock_run_potential:
  "submit_potential (h2h_lock_run s evs) \<le> submit_potential s + length (filter is_failure_report evs)"
proof (induction evs arbitrary: s)
  case Nil
  then show ?case by simp
next
  case (Cons ev evs)
  from Cons.IH [of "h2h_lock_step s ev"] h2h_lock_step_potential [of s ev] show ?case
    by (cases "is_failure_report ev") auto
qed

section \<open>Properties\<close>

text \<open>
  C23: Any number of clicks on the lock screen's button from an idle or errored state
  causes exactly one external submission.
\<close>

theorem repeated_clicks_one_submission:
  assumes "\<not> busy (phase s)" "0 < n"
  shows "h2h_lock_run s (replicate n ClickSubmit) = sub_step s Submit \<and>
         submissions (h2h_lock_run s (replicate n ClickSubmit)) = Suc (submissions s)"
proof -
  obtain m where n: "n = Suc m" using assms(2) by (cases n) auto
  have b: "busy (phase (sub_step s Submit))" using assms(1) by simp
  have "h2h_lock_run s (replicate n ClickSubmit) = h2h_lock_run (sub_step s Submit) (replicate m ClickSubmit)"
    using assms(1) n by (simp add: lock_button_disabled_busy)
  also have "\<dots> = sub_step s Submit" using b by (rule h2h_lock_clicks_busy)
  finally show ?thesis using assms(1) by simp
qed

theorem repeated_clicks_one_submission_witness:
  "submissions (h2h_lock_run (wrap :: nat submitter) (replicate 3 ClickSubmit)) = 1"
  using repeated_clicks_one_submission [of "wrap :: nat submitter" 3] by simp

text \<open>
  C2: Error recovery on the lock screen: a failure reported while in flight opens the
  error dialog with the error and re-enables the button; the dialog's action resets
  the submitter to idle with no error; a new click then issues a new submission.
\<close>

theorem lock_error_recovery:
  assumes "in_flight (phase s)"
  shows "error_submitting (sub_flags (h2h_lock_step s (LockReport (SdkFailed e)))) = Some e \<and>
         \<not> lock_button_disabled (h2h_lock_step s (LockReport (SdkFailed e))) \<and>
         phase (h2h_lock_run s [LockReport (SdkFailed e), ErrorDialogAction]) = Idle \<and>
         error_submitting (sub_flags (h2h_lock_run s [LockReport (SdkFailed e), ErrorDialogAction])) = None \<and>
         submissions (h2h_lock_run s [LockReport (SdkFailed e), ErrorDialogAction, ClickSubmit]) =
           Suc (submissions s)"
  using assms by (auto simp: in_flight_def lock_button_disabled_busy)

theorem lock_error_recovery_witness:
  "in_flight (phase (sub_step (wrap :: nat submitter) Submit)) \<and>
   submissions (h2h_lock_run (wrap :: nat submitter)
     [ClickSubmit, LockReport (SdkFailed 4), ErrorDialogAction, ClickSubmit]) = 2"
proof -
  have f: "in_flight (phase (sub_step (wrap :: nat submitter) Submit))" by simp
  from lock_error_recovery [OF f, of 4]
  have "submissions (h2h_lock_run (sub_step (wrap :: nat submitter) Submit)
          [LockReport (SdkFailed 4), ErrorDialogAction, ClickSubmit]) = Suc (submissions (sub_step (wrap :: nat submitter) Submit))"
    by blast
  moreover have "h2h_lock_step (wrap :: nat submitter) ClickSubmit = sub_step wrap Submit"
    by (simp add: lock_button_disabled_busy)
  ultimately show ?thesis using f by simp
qed

text \<open>
  C1: The lock screen never makes more external submissions than one plus the number
  of failures the SDK reports: each submission after the first needs the previous one
  to have failed.
\<close>

theorem lock_submissions_bounded:
  "submissions (h2h_lock_run s evs) \<le> submissions s + 1 + length (filter is_failure_report evs)"
proof -
  have "submissions (h2h_lock_run s evs) \<le> submit_potential (h2h_lock_run s evs)"
    by (simp add: submit_potential_def)
  also have "\<dots> \<le> submit_potential s + length (filter is_failure_report evs)"
    by (rule h2h_lock_run_potential)
  also have "\<dots> \<le> submissions s + 1 + length (filter is_failure_report evs)"
    by (simp add: submit_potential_def)
  finally show ?thesis .
qed

text \<open>
  C3: From every state of the lock screen some sequence of user actions and SDK
  reports completes the lock, with at most one more external submission.
\<close>

theorem lock_screen_can_complete:
  "\<exists>evs. phase (h2h_lock_run s evs) = Done \<and> submissions (h2h_lock_run s evs) \<le> Suc (submissions s)"
proof (intro exI)
  show "phase (h2h_lock_run s (completion_events (phase s))) = Done \<and>
        submissions (h2h_lock_run s (completion_events (phase s))) \<le> Suc (submissions s)"
    by (cases "phase s") (simp_all add: lock_button_disabled_busy)
qed

end
