(* ===== verification/MintH2HProgress.thy ===== *)
theory MintH2HProgress
  imports MintH2HStatuses
begin

text \<open>
  The two host-to-host progress screens of
  src/src/features/gateway/steps/mint/MintH2HStatuses.tsx:
  \<open>MintH2HLockTransactionProgressStatus\<close> and
  \<open>MintH2HMintTransactionProgressStatus\<close>.  Both wire one button to the RenVM leg
  and the mint leg (\<open>transaction.renVM\<close>, \<open>transaction.out\<close>) through
  \<open>handleSubmitBoth\<close>, and one error dialog to each leg.  Here the two-leg click runs
  \<open>handleSubmitBoth\<close> to completion in one step: the RenVM submission is awaited,
  then the mint submission, each settling as the SDK's outcome for it says.  This
  one-step model describes the screens between two user actions; the theory
  \<open>MintH2HAsync\<close> models the handler's awaits, the SDK's reports and the user's
  actions in between as separate events, and proves that the states it reaches with no
  handler pending are exactly reachable here.
\<close>

section \<open>The two-leg screens\<close>

text \<open>
  \<open>handleSubmitBoth\<close> (lines 207--210 and 351--354):
  \<open>await renVM.handleSubmit(); await out.handleSubmit();\<close>.  The hook records a
  failure in its state and does not rethrow (specification, section 4.1), so the
  first promise resolves in every case and the second call is made.
\<close>

definition handle_submit_both ::
  "'e sdk_outcome \<Rightarrow> 'e sdk_outcome \<Rightarrow> 'e submitter \<times> 'e submitter \<Rightarrow> 'e submitter \<times> 'e submitter" where
  "handle_submit_both renvm_outcome out_outcome legs =
     (case legs of (renvm, out) \<Rightarrow>
        (let renvm' = handle_submit renvm_outcome renvm;
             out' = handle_submit out_outcome out
         in (renvm', out')))"

text \<open>
  The button of lines 283--291 and 427--435: disabled while either leg is
  submitting, waiting or done, or while the screen's status prop (the lock status,
  resp. the mint status) is \<open>Confirming\<close>; its label says "submitting" while either
  leg is submitting or waiting.
\<close>

definition legs_button_disabled ::
  "'e submitter \<Rightarrow> 'e submitter \<Rightarrow> chain_transaction_status option \<Rightarrow> bool" where
  "legs_button_disabled renvm out status =
     (let r = sub_flags renvm; o' = sub_flags out in
      flag_submitting o' \<or> flag_waiting o' \<or> flag_done o' \<or>
      flag_submitting r \<or> flag_waiting r \<or> flag_done r \<or> status = Some TxConfirming)"

definition legs_button_label :: "'e submitter \<Rightarrow> 'e submitter \<Rightarrow> i18n_key" where
  "legs_button_label renvm out =
     (let r = sub_flags renvm; o' = sub_flags out in
      if flag_submitting o' \<or> flag_waiting o' \<or> flag_submitting r \<or> flag_waiting r
      then ''gateway.submitting-tx-label'' else ''gateway.submit-tx-label'')"

record 'e h2h_legs_view =
  gv_switch_wallet_open :: bool
  gv_progress :: progress_view
  gv_minting :: "string \<times> string"
  gv_receiving :: receiving_view
  gv_button_disabled :: bool
  gv_button_label :: i18n_key
  gv_renvm_error_dialog :: "'e option"
  gv_out_error_dialog :: "'e option"

text \<open>
  \<open>MintH2HLockTransactionProgressStatus\<close>, lines 185--315: the lock's progress, and
  the dialog asking to switch the wallet to the destination chain once the lock is
  done while the wallet of that chain is not connected (\<open>useWallet(to)\<close>).
\<close>

text \<open>
  The props of lines 174--183 (\<open>MintH2HLockTransactionProgressStatusProps\<close>).  The
  \<open>transaction\<close> prop is represented by the states of the two submitters built from
  it (\<open>transaction.renVM\<close>, \<open>transaction.out\<close>), passed as arguments; \<open>Fees\<close>
  is not modelled.
\<close>

record h2h_lock_progress_props =
  lpp_gateway :: gateway
  lpp_output_amount :: js_string
  lpp_output_amount_usd :: js_string
  lpp_lock_status :: "chain_transaction_status option"
  lpp_lock_confirmations :: js_count
  lpp_lock_target_confirmations :: js_count

definition mint_h2h_lock_transaction_progress_status ::
  "registry \<Rightarrow> h2h_lock_progress_props \<Rightarrow> bool \<Rightarrow> 'e submitter \<Rightarrow> 'e submitter \<Rightarrow>
   render_error + 'e h2h_legs_view" where
  "mint_h2h_lock_transaction_progress_status reg p connected renvm out =
     sum_bind (get_chain_config reg (gw_params_from (lpp_gateway p))) (\<lambda>from_chain_config.
     sum_bind (get_asset_config reg (gw_asset (lpp_gateway p))) (\<lambda>asset_config.
     Inr \<lparr>gv_switch_wallet_open = (lpp_lock_status p = Some TxDone \<and> \<not> connected),
          gv_progress = \<lparr>pv_color = None, pv_processing = False, pv_confirmations = lpp_lock_confirmations p,
                         pv_target = lpp_lock_target_confirmations p, pv_status_info = None\<rparr>,
          gv_minting = (gw_amount (lpp_gateway p), gw_asset (lpp_gateway p)),
          gv_receiving = receiving_info reg (gw_asset (lpp_gateway p)) (lpp_output_amount p) (lpp_output_amount_usd p),
          gv_button_disabled = legs_button_disabled renvm out (lpp_lock_status p),
          gv_button_label = legs_button_label renvm out,
          gv_renvm_error_dialog = error_submitting (sub_flags renvm),
          gv_out_error_dialog = error_submitting (sub_flags out)\<rparr>))"

text \<open>
  \<open>MintH2HMintTransactionProgressStatus\<close>, lines 329--459: while the RenVM status is
  \<open>Confirming\<close> the progress shows the processing state with "Submitting to
  RenVM...", otherwise the mint's confirmations.
\<close>

text \<open>
  The props of lines 317--327 (\<open>MintH2HMintTransactionProgressStatusProps\<close>), with
  \<open>transaction\<close> and \<open>Fees\<close> treated as for the lock progress screen.
\<close>

record h2h_mint_progress_props =
  mpp_gateway :: gateway
  mpp_renvm_status :: "chain_transaction_status option"
  mpp_mint_status :: "chain_transaction_status option"
  mpp_mint_confirmations :: js_count
  mpp_mint_target_confirmations :: js_count
  mpp_output_amount :: js_string
  mpp_output_amount_usd :: js_string

definition mint_h2h_mint_transaction_progress_status ::
  "registry \<Rightarrow> h2h_mint_progress_props \<Rightarrow> 'e submitter \<Rightarrow> 'e submitter \<Rightarrow>
   render_error + 'e h2h_legs_view" where
  "mint_h2h_mint_transaction_progress_status reg p renvm out =
     sum_bind (get_chain_config reg (gw_params_to (mpp_gateway p))) (\<lambda>mint_chain_config.
     sum_bind (get_asset_config reg (gw_asset (mpp_gateway p))) (\<lambda>asset_config.
     Inr \<lparr>gv_switch_wallet_open = False,
          gv_progress =
            (if mpp_renvm_status p = Some TxConfirming
             then \<lparr>pv_color = None, pv_processing = True, pv_confirmations = None, pv_target = None,
                   pv_status_info = Some ''Submitting to RenVM...''\<rparr>
             else \<lparr>pv_color = None, pv_processing = False, pv_confirmations = mpp_mint_confirmations p,
                   pv_target = mpp_mint_target_confirmations p, pv_status_info = None\<rparr>),
          gv_minting = (gw_amount (mpp_gateway p), gw_asset (mpp_gateway p)),
          gv_receiving = receiving_info reg (gw_asset (mpp_gateway p)) (mpp_output_amount p) (mpp_output_amount_usd p),
          gv_button_disabled = legs_button_disabled renvm out (mpp_mint_status p),
          gv_button_label = legs_button_label renvm out,
          gv_renvm_error_dialog = error_submitting (sub_flags renvm),
          gv_out_error_dialog = error_submitting (sub_flags out)\<rparr>))"

text \<open>
  What can happen on a two-leg screen: a click on the button, which runs
  \<open>handleSubmitBoth\<close> with the SDK's outcome for each leg, and the action of either
  error dialog (\<open>renVM.handleReset\<close>, \<open>out.handleReset\<close>).  The status prop that
  disables the button is fixed during a run.
\<close>

datatype 'e legs_event =
    ClickSubmitBoth "'e sdk_outcome" "'e sdk_outcome"
  | RenVMDialogAction
  | OutDialogAction

fun h2h_legs_step ::
  "chain_transaction_status option \<Rightarrow> 'e submitter \<times> 'e submitter \<Rightarrow> 'e legs_event \<Rightarrow>
   'e submitter \<times> 'e submitter" where
  "h2h_legs_step status (renvm, out) (ClickSubmitBoth o1 o2) =
     (if legs_button_disabled renvm out status then (renvm, out)
      else handle_submit_both o1 o2 (renvm, out))"
| "h2h_legs_step status (renvm, out) RenVMDialogAction =
     (if error_submitting (sub_flags renvm) \<noteq> None then (sub_step renvm Reset, out) else (renvm, out))"
| "h2h_legs_step status (renvm, out) OutDialogAction =
     (if error_submitting (sub_flags out) \<noteq> None then (renvm, sub_step out Reset) else (renvm, out))"


text \<open>
  The states a two-leg screen can reach from the mount (two fresh submitters), with
  its status prop fixed, and the predicate the proofs about them keep: both legs
  satisfy the submitter invariant and neither has a submission in flight between
  two user actions (the click awaits both settlements).
\<close>

inductive h2h_legs_reach :: "chain_transaction_status option \<Rightarrow> 'e submitter \<times> 'e submitter \<Rightarrow> bool"
  for status where
  mount: "h2h_legs_reach status (wrap, wrap)"
| step: "h2h_legs_reach status st \<Longrightarrow> h2h_legs_reach status (h2h_legs_step status st ev)"

definition legs_settled :: "'e submitter \<times> 'e submitter \<Rightarrow> bool" where
  "legs_settled st \<longleftrightarrow>
     (case st of (renvm, out) \<Rightarrow>
        sub_inv renvm \<and> sub_inv out \<and> \<not> in_flight (phase renvm) \<and> \<not> in_flight (phase out))"

declare mint_h2h_lock_transaction_progress_status_def [view_defs]
  mint_h2h_mint_transaction_progress_status_def [view_defs]
  legs_button_disabled_def [view_defs] legs_button_label_def [view_defs]

section \<open>Lemmas\<close>

lemma legs_button_disabled_busy:
  "legs_button_disabled renvm out status \<longleftrightarrow> busy (phase renvm) \<or> busy (phase out) \<or> status = Some TxConfirming"
  by (auto simp: legs_button_disabled_def busy_def)

lemma h2h_legs_click:
  "\<not> legs_button_disabled renvm out status \<Longrightarrow>
   h2h_legs_step status (renvm, out) (ClickSubmitBoth o1 o2) = (handle_submit o1 renvm, handle_submit o2 out)"
  by (simp add: handle_submit_both_def)

lemma handle_submit_inv: "sub_inv s \<Longrightarrow> sub_inv (handle_submit r s)"
  by (simp add: handle_submit_def sub_run_inv sub_step_inv del: sub_run.simps)

lemma handle_submit_not_in_flight:
  "\<not> in_flight (phase s) \<Longrightarrow> \<not> in_flight (phase (handle_submit r s))"
  using handle_submit_settles [of s r] by (cases "busy (phase s)") auto

lemma reset_not_in_flight: "\<not> in_flight (phase s) \<Longrightarrow> \<not> in_flight (phase (sub_step s Reset))"
  by auto

lemma legs_step_settled: "legs_settled st \<Longrightarrow> legs_settled (h2h_legs_step status st ev)"
proof -
  assume a: "legs_settled st"
  obtain renvm out where st: "st = (renvm, out)" by (cases st) auto
  show ?thesis
  proof (cases ev)
    case (ClickSubmitBoth o1 o2)
    then show ?thesis using a st
      by (auto simp: legs_settled_def handle_submit_both_def handle_submit_inv handle_submit_not_in_flight
          simp del: sub_step.simps)
  next
    case RenVMDialogAction
    then show ?thesis using a st
      by (auto simp: legs_settled_def sub_step_inv reset_not_in_flight simp del: sub_step.simps)
  next
    case OutDialogAction
    then show ?thesis using a st
      by (auto simp: legs_settled_def sub_step_inv reset_not_in_flight simp del: sub_step.simps)
  qed
qed

lemma h2h_legs_reach_settled: "h2h_legs_reach status st \<Longrightarrow> legs_settled st"
proof (induction rule: h2h_legs_reach.induct)
  case mount
  then show ?case by (simp add: legs_settled_def wrap_inv)
next
  case (step st ev)
  then show ?case using legs_step_settled by blast
qed




lemma handle_submit_completed:
  "\<not> busy (phase s) \<Longrightarrow> phase (handle_submit SdkCompleted s) = Done"
  by (simp add: handle_submit_fields(1))

section \<open>Properties\<close>

text \<open>
  C11: handleSubmitBoth submits the mint leg even when the RenVM leg failed: after a
  click whose RenVM outcome is a failure, the RenVM leg is errored with that error and
  the mint leg has one more external submission.
\<close>

theorem submit_both_after_renvm_failure:
  assumes "\<not> legs_button_disabled renvm out status" "outcome_error o1 = Some e"
  shows "phase (fst (h2h_legs_step status (renvm, out) (ClickSubmitBoth o1 o2))) = Errored \<and>
         error_submitting (sub_flags (fst (h2h_legs_step status (renvm, out) (ClickSubmitBoth o1 o2)))) = Some e \<and>
         submissions (snd (h2h_legs_step status (renvm, out) (ClickSubmitBoth o1 o2))) = Suc (submissions out)"
proof -
  have nb: "\<not> busy (phase renvm)" "\<not> busy (phase out)"
    using assms(1) by (simp_all add: legs_button_disabled_busy)
  have r: "phase (handle_submit o1 renvm) = Errored"
    using handle_submit_fields(1) [OF nb(1), of o1] assms(2) by (cases o1) simp_all
  have "error_submitting (sub_flags (handle_submit o1 renvm)) = Some e"
    using handle_submit_settles [OF nb(1), of o1] assms(2) by simp
  then show ?thesis
    using r handle_submit_settles [OF nb(2), of o2]
    by (simp add: h2h_legs_click [OF assms(1)] del: h2h_legs_step.simps)
qed

theorem submit_both_after_renvm_failure_witness:
  "submissions (snd (h2h_legs_step None ((wrap, wrap) :: nat submitter \<times> nat submitter)
      (ClickSubmitBoth (SdkRejected 1) (SdkRejected 2)))) = 1 \<and>
   phase (fst (h2h_legs_step None ((wrap, wrap) :: nat submitter \<times> nat submitter)
      (ClickSubmitBoth (SdkRejected 1) (SdkRejected 2)))) = Errored"
proof -
  have nd: "\<not> legs_button_disabled (wrap :: nat submitter) (wrap :: nat submitter) None"
    by (simp add: legs_button_disabled_busy)
  show ?thesis using submit_both_after_renvm_failure [OF nd, of "SdkRejected 1" 1 "SdkRejected 2"] by simp
qed

text \<open>
  C12: A click on an enabled two-leg button whose two SDK outcomes complete leaves
  both legs done with one submission each, and the button disabled for every status.
\<close>

theorem submit_both_completes:
  assumes "\<not> legs_button_disabled renvm out status"
  shows "phase (fst (h2h_legs_step status (renvm, out) (ClickSubmitBoth SdkCompleted SdkCompleted))) = Done \<and>
         phase (snd (h2h_legs_step status (renvm, out) (ClickSubmitBoth SdkCompleted SdkCompleted))) = Done \<and>
         submissions (fst (h2h_legs_step status (renvm, out) (ClickSubmitBoth SdkCompleted SdkCompleted))) = Suc (submissions renvm) \<and>
         submissions (snd (h2h_legs_step status (renvm, out) (ClickSubmitBoth SdkCompleted SdkCompleted))) = Suc (submissions out) \<and>
         legs_button_disabled (fst (h2h_legs_step status (renvm, out) (ClickSubmitBoth SdkCompleted SdkCompleted)))
           (snd (h2h_legs_step status (renvm, out) (ClickSubmitBoth SdkCompleted SdkCompleted))) status'"
proof -
  have nb: "\<not> busy (phase renvm)" "\<not> busy (phase out)"
    using assms(1) by (simp_all add: legs_button_disabled_busy)
  show ?thesis
    using handle_submit_settles [OF nb(1), of SdkCompleted] handle_submit_settles [OF nb(2), of SdkCompleted]
    by (simp add: h2h_legs_click [OF assms(1)] legs_button_disabled_busy del: h2h_legs_step.simps)
qed

theorem submit_both_completes_witness:
  "phase (snd (h2h_legs_step (Some TxDone) ((wrap, wrap) :: nat submitter \<times> nat submitter)
      (ClickSubmitBoth SdkCompleted SdkCompleted))) = Done"
proof -
  have nd: "\<not> legs_button_disabled (wrap :: nat submitter) (wrap :: nat submitter) (Some TxDone)"
    by (simp add: legs_button_disabled_busy)
  show ?thesis using submit_both_completes [OF nd] by blast
qed

text \<open>
  C27: When both legs fail on a click, the lock progress screen shows both error
  dialogs at once, each with its leg's error, and the button is enabled again.
\<close>

theorem both_error_dialogs:
  assumes "\<not> legs_button_disabled renvm out (lpp_lock_status p)"
    and "h2h_legs_step (lpp_lock_status p) (renvm, out) (ClickSubmitBoth (SdkRejected e1) (SdkRejected e2)) = (renvm', out')"
    and "chain_cfg reg (gw_params_from (lpp_gateway p)) = Some k" "asset_cfg reg (gw_asset (lpp_gateway p)) = Some a"
  shows "\<exists>v. mint_h2h_lock_transaction_progress_status reg p connected renvm' out' = Inr v \<and>
             gv_renvm_error_dialog v = Some e1 \<and> gv_out_error_dialog v = Some e2 \<and> \<not> gv_button_disabled v"
proof -
  have nb: "\<not> busy (phase renvm)" "\<not> busy (phase out)" "lpp_lock_status p \<noteq> Some TxConfirming"
    using assms(1) by (simp_all add: legs_button_disabled_busy)
  have st: "renvm' = handle_submit (SdkRejected e1) renvm" "out' = handle_submit (SdkRejected e2) out"
    using assms(2) h2h_legs_click [OF assms(1)] by auto
  have "error_submitting (sub_flags renvm') = Some e1" "error_submitting (sub_flags out') = Some e2"
    "phase renvm' = Errored" "phase out' = Errored"
    using st handle_submit_settles [OF nb(1), of "SdkRejected e1"] handle_submit_settles [OF nb(2), of "SdkRejected e2"]
      handle_submit_fields(1) [OF nb(1), of "SdkRejected e1"] handle_submit_fields(1) [OF nb(2), of "SdkRejected e2"]
    by auto
  then show ?thesis using assms(3,4) nb(3) by (simp add: view_defs busy_def)
qed

theorem both_error_dialogs_witness:
  "\<exists>v. mint_h2h_lock_transaction_progress_status example_registry
        \<lparr>lpp_gateway = example_gateway, lpp_output_amount = Some ''0.4985'', lpp_output_amount_usd = None,
         lpp_lock_status = Some TxDone, lpp_lock_confirmations = Some 6, lpp_lock_target_confirmations = Some 6\<rparr> True
        (fst (h2h_legs_step (Some TxDone) ((wrap, wrap) :: nat submitter \<times> nat submitter)
                (ClickSubmitBoth (SdkRejected 1) (SdkRejected 2))))
        (snd (h2h_legs_step (Some TxDone) ((wrap, wrap) :: nat submitter \<times> nat submitter)
                (ClickSubmitBoth (SdkRejected 1) (SdkRejected 2)))) = Inr v \<and>
      gv_renvm_error_dialog v = Some 1 \<and> gv_out_error_dialog v = Some 2"
proof -
  have nd: "\<not> legs_button_disabled (wrap :: nat submitter) (wrap :: nat submitter)
              (lpp_lock_status \<lparr>lpp_gateway = example_gateway, lpp_output_amount = Some ''0.4985'', lpp_output_amount_usd = None,
         lpp_lock_status = Some TxDone, lpp_lock_confirmations = Some 6, lpp_lock_target_confirmations = Some 6\<rparr>)"
    by (simp add: legs_button_disabled_busy)
  have k: "chain_cfg example_registry (gw_params_from (lpp_gateway \<lparr>lpp_gateway = example_gateway, lpp_output_amount = Some ''0.4985'', lpp_output_amount_usd = None,
         lpp_lock_status = Some TxDone, lpp_lock_confirmations = Some 6, lpp_lock_target_confirmations = Some 6\<rparr>)) =
             Some \<lparr>cc_full_name = ''Bitcoin''\<rparr>"
    and a: "asset_cfg example_registry (gw_asset (lpp_gateway \<lparr>lpp_gateway = example_gateway, lpp_output_amount = Some ''0.4985'', lpp_output_amount_usd = None,
         lpp_lock_status = Some TxDone, lpp_lock_confirmations = Some 6, lpp_lock_target_confirmations = Some 6\<rparr>)) = Some btc_config"
    by (simp_all add: eval_simps)
  show ?thesis
    using both_error_dialogs [OF nd _ k a, of "(1::nat)" 2
      "fst (h2h_legs_step (Some TxDone) ((wrap, wrap) :: nat submitter \<times> nat submitter)
              (ClickSubmitBoth (SdkRejected 1) (SdkRejected 2)))"
      "snd (h2h_legs_step (Some TxDone) ((wrap, wrap) :: nat submitter \<times> nat submitter)
              (ClickSubmitBoth (SdkRejected 1) (SdkRejected 2)))"
      True]
    by auto
qed

text \<open>
  C18: The lock progress screen throws exactly on an unknown source chain, then an
  unknown asset; the mint progress screen exactly on an unknown destination chain,
  then an unknown asset.
\<close>

theorem progress_screens_error_order:
  "(mint_h2h_lock_transaction_progress_status reg p connected renvm out = Inl err \<longleftrightarrow>
      (chain_cfg reg (gw_params_from (lpp_gateway p)) = None \<and> err = UnknownChain (gw_params_from (lpp_gateway p))) \<or>
      (chain_cfg reg (gw_params_from (lpp_gateway p)) \<noteq> None \<and> asset_cfg reg (gw_asset (lpp_gateway p)) = None \<and>
       err = UnknownAsset (gw_asset (lpp_gateway p)))) \<and>
   (mint_h2h_mint_transaction_progress_status reg q renvm out = Inl err \<longleftrightarrow>
      (chain_cfg reg (gw_params_to (mpp_gateway q)) = None \<and> err = UnknownChain (gw_params_to (mpp_gateway q))) \<or>
      (chain_cfg reg (gw_params_to (mpp_gateway q)) \<noteq> None \<and> asset_cfg reg (gw_asset (mpp_gateway q)) = None \<and>
       err = UnknownAsset (gw_asset (mpp_gateway q))))"
  by (auto simp: mint_h2h_lock_transaction_progress_status_def mint_h2h_mint_transaction_progress_status_def
      sum_bind_def get_asset_config_def get_chain_config_def split: option.splits)

text \<open>
  C7: From every reachable state of a two-leg screen in which neither leg is done and
  the status is not Confirming, one click whose SDK outcomes complete leaves both legs
  done.
\<close>

theorem legs_can_complete:
  assumes "h2h_legs_reach status (renvm, out)" "status \<noteq> Some TxConfirming"
    and "phase renvm \<noteq> Done" "phase out \<noteq> Done"
  shows "phase (fst (h2h_legs_step status (renvm, out) (ClickSubmitBoth SdkCompleted SdkCompleted))) = Done \<and>
         phase (snd (h2h_legs_step status (renvm, out) (ClickSubmitBoth SdkCompleted SdkCompleted))) = Done"
proof -
  have "\<not> in_flight (phase renvm)" "\<not> in_flight (phase out)"
    using h2h_legs_reach_settled [OF assms(1)] by (simp_all add: legs_settled_def)
  then have nb: "\<not> busy (phase renvm)" "\<not> busy (phase out)"
    using assms(3,4) by (simp_all add: busy_def in_flight_def)
  then have "\<not> legs_button_disabled renvm out status"
    using assms(2) by (simp add: legs_button_disabled_busy)
  then show ?thesis
    using nb by (simp add: h2h_legs_click handle_submit_both_def handle_submit_completed del: h2h_legs_step.simps)
qed

theorem legs_can_complete_witness:
  "phase (fst (h2h_legs_step None (h2h_legs_step None ((wrap, wrap) :: nat submitter \<times> nat submitter)
      (ClickSubmitBoth (SdkRejected 1) (SdkRejected 2))) (ClickSubmitBoth SdkCompleted SdkCompleted))) = Done"
proof -
  let ?st = "h2h_legs_step None ((wrap, wrap) :: nat submitter \<times> nat submitter)
      (ClickSubmitBoth (SdkRejected 1) (SdkRejected 2))"
  have r0: "h2h_legs_reach None ?st" by (rule h2h_legs_reach.step [OF h2h_legs_reach.mount])
  then have r: "h2h_legs_reach None (fst ?st, snd ?st)" by simp
  have p: "phase (fst ?st) = Errored" "phase (snd ?st) = Errored"
    by (simp_all add: handle_submit_both_def handle_submit_def legs_button_disabled_busy)
  show ?thesis
    using legs_can_complete [OF r _ _ _] p by simp
qed



end
