(* ===== verification/MintH2HFlow.thy ===== *)
theory MintH2HFlow
  imports MintH2HProgress
begin

text \<open>
  The two progress screens of src/src/features/gateway/steps/mint/MintH2HStatuses.tsx
  composed into the host-to-host mint flow.  Both screens call
  \<open>useChainTransactionSubmitter(transaction.renVM)\<close> and
  \<open>useChainTransactionSubmitter(transaction.out)\<close> themselves (lines 204--205 and
  348--349), so each mounted screen owns fresh submitters for the same two legs.  The
  flow's parent, not among the sources, chooses the screen; the model lets it switch
  at any time.  A switch to the other screen unmounts the current one, whose
  submitters' counts of external submissions are kept in the flow, and mounts the other
  with submitters in their initial state (\<open>wrap\<close>).  Showing the screen already
  shown keeps it mounted.
\<close>

datatype progress_screen = LockProgressScreen | MintProgressScreen

record 'e h2h_flow =
  fl_screen :: progress_screen
  fl_legs :: "'e submitter \<times> 'e submitter"
  fl_renvm_submissions :: nat
  fl_out_submissions :: nat

datatype 'e flow_event = OnScreen "'e legs_event" | ShowScreen progress_screen

text \<open>
  The status prop that blocks the button of each screen: the lock status on the lock
  progress screen, the mint status on the mint progress screen.
\<close>

definition screen_status ::
  "chain_transaction_status option \<Rightarrow> chain_transaction_status option \<Rightarrow> progress_screen \<Rightarrow>
   chain_transaction_status option" where
  "screen_status lock_status mint_status sc =
     (case sc of LockProgressScreen \<Rightarrow> lock_status | MintProgressScreen \<Rightarrow> mint_status)"

fun h2h_flow_step ::
  "chain_transaction_status option \<Rightarrow> chain_transaction_status option \<Rightarrow> 'e h2h_flow \<Rightarrow>
   'e flow_event \<Rightarrow> 'e h2h_flow" where
  "h2h_flow_step ls ms fl (OnScreen ev) =
     fl\<lparr>fl_legs := h2h_legs_step (screen_status ls ms (fl_screen fl)) (fl_legs fl) ev\<rparr>"
| "h2h_flow_step ls ms fl (ShowScreen sc) =
     (if sc = fl_screen fl then fl
      else fl\<lparr>fl_screen := sc, fl_legs := (wrap, wrap),
              fl_renvm_submissions := fl_renvm_submissions fl + submissions (fst (fl_legs fl)),
              fl_out_submissions := fl_out_submissions fl + submissions (snd (fl_legs fl))\<rparr>)"

fun h2h_flow_run ::
  "chain_transaction_status option \<Rightarrow> chain_transaction_status option \<Rightarrow> 'e h2h_flow \<Rightarrow>
   'e flow_event list \<Rightarrow> 'e h2h_flow" where
  "h2h_flow_run ls ms fl [] = fl"
| "h2h_flow_run ls ms fl (ev # evs) = h2h_flow_run ls ms (h2h_flow_step ls ms fl ev) evs"

text \<open>All external submissions of the RenVM leg made in the flow so far.\<close>

definition renvm_total :: "'e h2h_flow \<Rightarrow> nat" where
  "renvm_total fl = fl_renvm_submissions fl + submissions (fst (fl_legs fl))"

section \<open>Lemmas\<close>

lemma legs_step_renvm_done:
  assumes "phase (fst st) = Done"
  shows "phase (fst (h2h_legs_step status st ev)) = Done \<and>
         submissions (fst (h2h_legs_step status st ev)) = submissions (fst st)"
  using assms
  by (cases st; cases ev) (auto simp: legs_button_disabled_busy simp del: sub_step.simps)

lemma flow_on_screen_renvm_done:
  assumes "phase (fst (fl_legs fl)) = Done"
  shows "phase (fst (fl_legs (h2h_flow_run ls ms fl (map OnScreen es)))) = Done \<and>
         renvm_total (h2h_flow_run ls ms fl (map OnScreen es)) = renvm_total fl"
  using assms
proof (induction es arbitrary: fl)
  case Nil
  then show ?case by simp
next
  case (Cons ev es)
  let ?fl = "h2h_flow_step ls ms fl (OnScreen ev)"
  have "phase (fst (fl_legs ?fl)) = Done" "renvm_total ?fl = renvm_total fl"
    using legs_step_renvm_done [OF Cons.prems] by (simp_all add: renvm_total_def)
  with Cons.IH [of ?fl] show ?case by simp
qed

section \<open>Properties\<close>

text \<open>
  C9: The two progress screens do not share the legs' submission state: once the RenVM
  leg is done on the lock progress screen, nothing on that screen submits it again,
  but after the flow shows the mint progress screen one click submits the same RenVM
  leg to the SDK again.
\<close>

theorem done_leg_resubmitted_across_screens:
  assumes "fl_screen fl = LockProgressScreen" "phase (fst (fl_legs fl)) = Done"
    and "ms \<noteq> Some TxConfirming"
  shows "(\<forall>es. renvm_total (h2h_flow_run ls ms fl (map OnScreen es)) = renvm_total fl) \<and>
         renvm_total (h2h_flow_run ls ms fl [ShowScreen MintProgressScreen, OnScreen (ClickSubmitBoth r_out o_out)]) =
           Suc (renvm_total fl)"
proof
  show "\<forall>es. renvm_total (h2h_flow_run ls ms fl (map OnScreen es)) = renvm_total fl"
    using flow_on_screen_renvm_done [OF assms(2)] by blast
next
  have "\<not> legs_button_disabled (wrap :: 'a submitter) wrap ms"
    using assms(3) by (simp add: legs_button_disabled_busy)
  then have "submissions (fst (h2h_legs_step ms ((wrap :: 'a submitter), wrap) (ClickSubmitBoth r_out o_out))) = 1"
    by (simp add: h2h_legs_click handle_submit_fields del: h2h_legs_step.simps)
  then show "renvm_total (h2h_flow_run ls ms fl [ShowScreen MintProgressScreen, OnScreen (ClickSubmitBoth r_out o_out)]) =
           Suc (renvm_total fl)"
    using assms(1) by (simp add: renvm_total_def screen_status_def del: h2h_legs_step.simps)
qed

theorem done_leg_resubmitted_across_screens_witness:
  "renvm_total (h2h_flow_run None None
     \<lparr>fl_screen = LockProgressScreen,
      fl_legs = h2h_legs_step None ((wrap, wrap) :: nat submitter \<times> nat submitter)
                  (ClickSubmitBoth SdkCompleted (SdkRejected 1)),
      fl_renvm_submissions = 0, fl_out_submissions = 0\<rparr>
     [ShowScreen MintProgressScreen, OnScreen (ClickSubmitBoth SdkCompleted SdkCompleted)]) = 2"
proof -
  let ?fl = "\<lparr>fl_screen = LockProgressScreen,
      fl_legs = h2h_legs_step None ((wrap, wrap) :: nat submitter \<times> nat submitter)
                  (ClickSubmitBoth SdkCompleted (SdkRejected 1)),
      fl_renvm_submissions = 0, fl_out_submissions = 0\<rparr>"
  have d: "phase (fst (fl_legs ?fl)) = Done" and t: "renvm_total ?fl = 1"
    by (simp_all add: renvm_total_def handle_submit_both_def handle_submit_def legs_button_disabled_busy)
  from done_leg_resubmitted_across_screens [where fl = ?fl and ms = None and ls = None
      and r_out = SdkCompleted and o_out = SdkCompleted] d t
  show ?thesis by simp
qed

end
