(* ===== verification/MintH2HPresentation.thy ===== *)
theory MintH2HPresentation
  imports MintH2HProgress
begin

text \<open>
  The specification's status presentation state machine (section 4.3) and its
  refinement by the lock progress screen (\<open>MintH2HLockTransactionProgressStatus\<close>,
  MintH2HStatuses.tsx lines 185--315).  The machine is per leg and has no state of
  its own: it is recomputed on each render from the latest external status (here the
  lock status prop) and the leg's submitter.  A step of the screen is either a
  re-render with a newer lock status pushed by the SDK, or a user action on the
  screen (the button, either error dialog), whose awaited submission runs to its
  settlement within the step.
\<close>

section \<open>The presentation machine of the specification\<close>

datatype pres_state =
  AwaitingDeposit | DepositConfirming | Accepted | SubmittingLeg | Settled | ErroredLeg | Reverted

datatype initiator = ByUser | BySdk

text \<open>
  The edges of section 4.3: all pushed by the SDK but \<open>Accepted \<rightarrow> Submitting\<close>,
  which the user starts with \<open>submit()\<close>; \<open>Errored\<close> is reached from
  \<open>Submitting\<close>, \<open>Reverted\<close> from \<open>Confirming\<close>.
\<close>

inductive pres_edge :: "initiator \<Rightarrow> pres_state \<Rightarrow> pres_state \<Rightarrow> bool" where
  deposit_seen: "pres_edge BySdk AwaitingDeposit DepositConfirming"
| deposit_accepted: "pres_edge BySdk DepositConfirming Accepted"
| deposit_reverted: "pres_edge BySdk DepositConfirming Reverted"
| submit: "pres_edge ByUser Accepted SubmittingLeg"
| settle: "pres_edge BySdk SubmittingLeg Settled"
| fail: "pres_edge BySdk SubmittingLeg ErroredLeg"

text \<open>
  One event of the program seen on the machine: an edge started by the event's
  initiator, followed by the SDK's pushes up to the next render (an awaited
  submission reports its settlement within the same user step).
\<close>

inductive pres_path :: "initiator \<Rightarrow> pres_state \<Rightarrow> pres_state \<Rightarrow> bool" where
  first: "pres_edge i a b \<Longrightarrow> pres_path i a b"
| sdk: "pres_path i a b \<Longrightarrow> pres_edge BySdk b c \<Longrightarrow> pres_path i a c"

inductive_cases pres_edge_from_Reverted: "pres_edge i Reverted b"

text \<open>
  The state a leg presents: its submitter's phase when a submission was made
  (in flight, done, errored), otherwise the deposit's status.
\<close>

fun pres_of :: "chain_transaction_status option \<Rightarrow> 'e submitter \<Rightarrow> pres_state" where
  "pres_of status s =
     (case phase s of
        Submitting \<Rightarrow> SubmittingLeg
      | Waiting \<Rightarrow> SubmittingLeg
      | Done \<Rightarrow> Settled
      | Errored \<Rightarrow> ErroredLeg
      | Idle \<Rightarrow>
          (case status of
             None \<Rightarrow> AwaitingDeposit
           | Some TxReady \<Rightarrow> AwaitingDeposit
           | Some TxConfirming \<Rightarrow> DepositConfirming
           | Some TxDone \<Rightarrow> Accepted
           | Some TxReverted \<Rightarrow> Reverted))"

text \<open>
  The order in which the SDK moves a transaction's status: from no status or
  \<open>Ready\<close> forwards to \<open>Confirming\<close> (which it repeats as confirmations
  arrive) and from there to \<open>Done\<close> or \<open>Reverted\<close>, both final.
\<close>

fun status_rank :: "chain_transaction_status option \<Rightarrow> nat" where
  "status_rank None = 0"
| "status_rank (Some TxReady) = 1"
| "status_rank (Some TxConfirming) = 2"
| "status_rank (Some TxDone) = 3"
| "status_rank (Some TxReverted) = 3"

definition status_advance :: "chain_transaction_status option \<Rightarrow> chain_transaction_status option \<Rightarrow> bool" where
  "status_advance st st' \<longleftrightarrow>
     st' \<noteq> None \<and> (st' = st \<or> status_rank st < status_rank st')"

section \<open>The lock progress screen as a transition system\<close>

text \<open>
  The screen's state is its lock status prop and its two submitters
  (\<open>useChainTransactionSubmitter(transaction.renVM)\<close>, \<open>(transaction.out)\<close>).
  The SDK pushes a newer lock status (a re-render with the new prop, lines
  185--198); the user acts on the screen through \<open>h2h_legs_step\<close>.
\<close>

type_synonym 'e lock_progress_state = "chain_transaction_status option \<times> 'e submitter \<times> 'e submitter"

inductive lock_progress_trans ::
  "'e lock_progress_state \<Rightarrow> initiator \<Rightarrow> 'e lock_progress_state \<Rightarrow> bool" where
  push: "status_advance st st' \<Longrightarrow> lock_progress_trans (st, legs) BySdk (st', legs)"
| screen: "lock_progress_trans (st, legs) ByUser (st, h2h_legs_step st legs ev)"

definition renvm_pres :: "'e lock_progress_state \<Rightarrow> pres_state" where
  "renvm_pres c = (case c of (st, renvm, out) \<Rightarrow> pres_of st renvm)"

definition out_pres :: "'e lock_progress_state \<Rightarrow> pres_state" where
  "out_pres c = (case c of (st, renvm, out) \<Rightarrow> pres_of st out)"

text \<open>
  What one step of the screen can do to one leg: nothing, an awaited submission
  when the leg is neither busy nor held by a confirming status, or the reset of an
  errored leg by its dialog.
\<close>

definition leg_change :: "chain_transaction_status option \<Rightarrow> 'e submitter \<Rightarrow> 'e submitter \<Rightarrow> bool" where
  "leg_change st s s' \<longleftrightarrow>
     s' = s \<or>
     (\<not> busy (phase s) \<and> st \<noteq> Some TxConfirming \<and> (\<exists>r. s' = handle_submit r s)) \<or>
     (phase s = Errored \<and> s' = sub_step s Reset)"

section \<open>Lemmas\<close>

lemma legs_step_leg_change:
  assumes "h2h_legs_step st (renvm, out) ev = (renvm', out')"
  shows "leg_change st renvm renvm' \<and> leg_change st out out'"
  using assms
  by (cases ev) (auto simp: leg_change_def legs_button_disabled_def busy_def handle_submit_both_def split: if_splits)

lemma pres_path_two: "pres_edge i a b \<Longrightarrow> pres_edge BySdk b c \<Longrightarrow> pres_path i a c"
  by (blast intro: pres_path.intros)

lemma pres_path_submit: "pres_path ByUser Accepted Settled" "pres_path ByUser Accepted ErroredLeg"
  by (auto intro: pres_path_two pres_edge.intros)

lemma leg_change_pres:
  assumes "leg_change st s s'"
  shows "pres_of st s' = pres_of st s \<or> pres_path ByUser (pres_of st s) (pres_of st s') \<or>
         pres_of st s \<in> {AwaitingDeposit, Reverted, ErroredLeg}"
proof -
  consider (same) "s' = s"
    | (submit) r where "\<not> busy (phase s)" "st \<noteq> Some TxConfirming" "s' = handle_submit r s"
    | (reset) "phase s = Errored"
    using assms by (auto simp: leg_change_def)
  then show ?thesis
  proof cases
    case submit
    have "phase s' = Done \<or> phase s' = Errored"
      using submit handle_submit_fields(1) [OF submit(1), of r] by (cases r) simp_all
    then show ?thesis using submit
      by (cases "phase s"; cases st rule: option.exhaust; (cases "the st")?)
         (auto simp: busy_def pres_path_submit)
  qed simp_all
qed

lemma push_pres:
  assumes "status_advance st st'"
  shows "pres_of st' s = pres_of st s \<or> pres_path BySdk (pres_of st s) (pres_of st' s)"
  using assms
  by (cases "phase s"; cases st rule: option.exhaust; cases st' rule: option.exhaust; (cases "the st")?; (cases "the st'")?)
     (auto simp: status_advance_def intro: pres_path.intros pres_path_two pres_edge.intros)

lemma lock_progress_trans_leg_cases:
  assumes "lock_progress_trans c i c'"
  obtains (push) st st' legs where "c = (st, legs)" "c' = (st', legs)" "i = BySdk" "status_advance st st'"
    | (screen) st legs ev where "c = (st, legs)" "c' = (st, h2h_legs_step st legs ev)" "i = ByUser"
  using assms by (cases rule: lock_progress_trans.cases) auto

section \<open>Refinement\<close>

text \<open>
  C8: Every step of the lock progress screen shows on each leg either no change of
  the presented state, or a path of the specification's machine started by the
  step's initiator, or else is a user action from \<open>AwaitingDeposit\<close>,
  \<open>Reverted\<close> or \<open>Errored\<close>, states the machine lets no user action leave:
  the button is disabled only while the lock is confirming, and the error dialog's
  reset and a retry leave \<open>Errored\<close>.
\<close>

theorem lock_progress_refines_presentation:
  assumes "lock_progress_trans c i c'"
  shows "(renvm_pres c' = renvm_pres c \<or> pres_path i (renvm_pres c) (renvm_pres c') \<or>
          i = ByUser \<and> renvm_pres c \<in> {AwaitingDeposit, Reverted, ErroredLeg}) \<and>
         (out_pres c' = out_pres c \<or> pres_path i (out_pres c) (out_pres c') \<or>
          i = ByUser \<and> out_pres c \<in> {AwaitingDeposit, Reverted, ErroredLeg})"
  using assms
proof (cases rule: lock_progress_trans_leg_cases)
  case (push st st' legs)
  then show ?thesis
    using push_pres [OF push(4), of "fst legs"] push_pres [OF push(4), of "snd legs"]
    by (cases legs) (simp add: renvm_pres_def out_pres_def)
next
  case (screen st legs ev)
  obtain renvm out renvm' out' where l: "legs = (renvm, out)" "h2h_legs_step st legs ev = (renvm', out')"
    by (cases legs, cases "h2h_legs_step st legs ev") auto
  have "leg_change st renvm renvm'" "leg_change st out out'"
    using legs_step_leg_change [of st renvm out ev renvm' out'] l by auto
  then show ?thesis
    using screen l leg_change_pres by (auto simp: renvm_pres_def out_pres_def)
qed

theorem lock_progress_refines_presentation_witness:
  "pres_path ByUser Accepted Settled \<and>
   renvm_pres (Some TxDone, (wrap :: nat submitter), (wrap :: nat submitter)) = Accepted \<and>
   renvm_pres (Some TxDone, h2h_legs_step (Some TxDone) ((wrap :: nat submitter), (wrap :: nat submitter))
                 (ClickSubmitBoth SdkCompleted SdkCompleted)) = Settled"
proof -
  let ?c = "(Some TxDone, (wrap :: nat submitter), (wrap :: nat submitter))"
  let ?c' = "(Some TxDone, h2h_legs_step (Some TxDone) ((wrap :: nat submitter), (wrap :: nat submitter))
                 (ClickSubmitBoth SdkCompleted SdkCompleted))"
  have t: "lock_progress_trans ?c ByUser ?c'"
    by (rule lock_progress_trans.screen)
  have a: "renvm_pres ?c = Accepted" and s: "renvm_pres ?c' = Settled"
    by (simp_all add: renvm_pres_def legs_button_disabled_def busy_def handle_submit_both_def handle_submit_def)
  show ?thesis using lock_progress_refines_presentation [OF t] a s by simp
qed

text \<open>
  C10: With the deposit (the lock) reverted, the lock progress screen still lets the
  user submit both legs, and with completing outcomes both legs present
  \<open>Settled\<close>, although in the specification's machine \<open>Reverted\<close> is final.
\<close>

theorem reverted_deposit_still_submits:
  assumes "phase renvm = Idle" "phase out = Idle"
  shows "lock_progress_trans (Some TxReverted, renvm, out) ByUser
           (Some TxReverted, handle_submit SdkCompleted renvm, handle_submit SdkCompleted out) \<and>
         renvm_pres (Some TxReverted, renvm, out) = Reverted \<and> out_pres (Some TxReverted, renvm, out) = Reverted \<and>
         renvm_pres (Some TxReverted, handle_submit SdkCompleted renvm, handle_submit SdkCompleted out) = Settled \<and>
         out_pres (Some TxReverted, handle_submit SdkCompleted renvm, handle_submit SdkCompleted out) = Settled \<and>
         (\<nexists>i b. pres_edge i Reverted b)"
proof -
  have nd: "\<not> legs_button_disabled renvm out (Some TxReverted)"
    using assms by (simp add: legs_button_disabled_def busy_def)
  have "lock_progress_trans (Some TxReverted, renvm, out) ByUser
          (Some TxReverted, h2h_legs_step (Some TxReverted) (renvm, out) (ClickSubmitBoth SdkCompleted SdkCompleted))"
    by (rule lock_progress_trans.screen)
  then have t: "lock_progress_trans (Some TxReverted, renvm, out) ByUser
           (Some TxReverted, handle_submit SdkCompleted renvm, handle_submit SdkCompleted out)"
    by (simp only: h2h_legs_click [OF nd])
  have "phase (handle_submit SdkCompleted renvm) = Done" "phase (handle_submit SdkCompleted out) = Done"
    using assms handle_submit_fields(1) [of renvm SdkCompleted] handle_submit_fields(1) [of out SdkCompleted]
    by (simp_all add: busy_def)
  then show ?thesis
    using t assms by (auto simp: renvm_pres_def out_pres_def elim: pres_edge_from_Reverted)
qed

theorem reverted_deposit_still_submits_witness:
  "phase (wrap :: nat submitter) = Idle \<and>
   lock_progress_trans (Some TxReverted, (wrap :: nat submitter), (wrap :: nat submitter)) ByUser
     (Some TxReverted, handle_submit SdkCompleted wrap, handle_submit SdkCompleted wrap) \<and>
   renvm_pres (Some TxReverted, handle_submit SdkCompleted (wrap :: nat submitter),
               handle_submit SdkCompleted (wrap :: nat submitter)) = Settled"
  using reverted_deposit_still_submits [of "wrap :: nat submitter" "wrap :: nat submitter"] by simp

end
