(* ===== verification/MintH2HAsync.thy ===== *)
theory MintH2HAsync
  imports MintH2HProgress
begin

text \<open>
  The two-leg screens with \<open>handleSubmitBoth\<close> (MintH2HStatuses.tsx lines 207--210
  and 348--351) as the asynchronous function it is:
  \<open>await renVM.handleSubmit(); await out.handleSubmit();\<close>.  A click starts the
  RenVM leg's submission and suspends the handler at its first \<open>await\<close>; the SDK's
  reports on each leg arrive as separate events, between which the screen renders and
  the user may act; when the RenVM leg's submission settles, the handler resumes at
  once (a promise continuation runs before any further event) and calls
  \<open>out.handleSubmit()\<close>, which is a no-op resolving immediately when the out leg is
  busy.  The theorems show that this small-step screen keeps the two legs in sequence,
  and that its states between two user actions are exactly those of the one-step
  model of \<open>MintH2HProgress\<close> (\<open>h2h_legs_step\<close>), so the properties proved there
  hold of it.
\<close>

section \<open>The suspended handler and the events\<close>

datatype pending = NoPending | AwaitRenVM | AwaitOut

datatype 'e async_event =
    AsyncClick
  | AsyncRenVMDialog
  | AsyncOutDialog
  | RenVMReport "'e sdk_report"
  | OutReport "'e sdk_report"

type_synonym 'e async_legs = "'e submitter \<times> 'e submitter \<times> pending"

text \<open>
  The handler resumed after \<open>await renVM.handleSubmit()\<close>: \<open>out.handleSubmit()\<close>
  submits the out leg and suspends the handler again, or, when the out leg is busy,
  returns at once and the handler ends.
\<close>

definition resume_out :: "'e submitter \<Rightarrow> 'e submitter \<times> pending" where
  "resume_out out = (if busy (phase out) then (out, NoPending) else (sub_step out Submit, AwaitOut))"

text \<open>
  The button (\<open>onClick={handleSubmitBoth}\<close>, disabled as in lines 283--291), the two
  error dialogs' actions (\<open>renVM.handleReset\<close>, \<open>out.handleReset\<close>), and the SDK's
  reports on each leg.  An enabled button implies an idle or errored RenVM leg, so the
  click always reaches the RenVM leg's submission.
\<close>

fun legs_async_step ::
  "chain_transaction_status option \<Rightarrow> 'e async_legs \<Rightarrow> 'e async_event \<Rightarrow> 'e async_legs" where
  "legs_async_step status (renvm, out, pc) AsyncClick =
     (if legs_button_disabled renvm out status then (renvm, out, pc)
      else (sub_step renvm Submit, out, AwaitRenVM))"
| "legs_async_step status (renvm, out, pc) AsyncRenVMDialog =
     (if error_submitting (sub_flags renvm) \<noteq> None then (sub_step renvm Reset, out, pc) else (renvm, out, pc))"
| "legs_async_step status (renvm, out, pc) AsyncOutDialog =
     (if error_submitting (sub_flags out) \<noteq> None then (renvm, sub_step out Reset, pc) else (renvm, out, pc))"
| "legs_async_step status (renvm, out, pc) (RenVMReport r) =
     (let renvm' = sub_step renvm (Report r) in
      if pc = AwaitRenVM \<and> \<not> in_flight (phase renvm')
      then (case resume_out out of (out', pc') \<Rightarrow> (renvm', out', pc'))
      else (renvm', out, pc))"
| "legs_async_step status (renvm, out, pc) (OutReport r) =
     (let out' = sub_step out (Report r) in
      (renvm, out', if pc = AwaitOut \<and> \<not> in_flight (phase out') then NoPending else pc))"

fun legs_async_run ::
  "chain_transaction_status option \<Rightarrow> 'e async_legs \<Rightarrow> 'e async_event list \<Rightarrow> 'e async_legs" where
  "legs_async_run status s [] = s"
| "legs_async_run status s (ev # evs) = legs_async_run status (legs_async_step status s ev) evs"

inductive legs_async_reach :: "chain_transaction_status option \<Rightarrow> 'e async_legs \<Rightarrow> bool"
  for status where
  mount: "legs_async_reach status (wrap, wrap, NoPending)"
| step: "legs_async_reach status s \<Longrightarrow> legs_async_reach status (legs_async_step status s ev)"

text \<open>
  The SDK's reports that complete whatever submission is in flight: acceptance and
  confirmation of the RenVM leg, then of the out leg.
\<close>

definition completing_reports :: "'e async_event list" where
  "completing_reports =
     [RenVMReport SdkAccepted, RenVMReport SdkConfirmed, OutReport SdkAccepted, OutReport SdkConfirmed]"

text \<open>
  The simulation invariant.  A leg's submission in flight from \<open>s0\<close> is \<open>s0\<close>
  submitted, possibly accepted.  Without a pending handler the legs are a state of
  the one-step model; while the RenVM leg is awaited they are the RenVM submission
  from a one-step state where the button was enabled; while the out leg is awaited,
  every outcome of its submission gives a one-step state.
\<close>

definition submission_of :: "'e submitter \<Rightarrow> 'e submitter \<Rightarrow> bool" where
  "submission_of s0 s \<longleftrightarrow>
     \<not> busy (phase s0) \<and>
     (s = sub_step s0 Submit \<or> s = sub_step (sub_step s0 Submit) (Report SdkAccepted))"

fun async_inv :: "chain_transaction_status option \<Rightarrow> 'e async_legs \<Rightarrow> bool" where
  "async_inv status (renvm, out, NoPending) = h2h_legs_reach status (renvm, out)"
| "async_inv status (renvm, out, AwaitRenVM) =
     (\<exists>renvm0. h2h_legs_reach status (renvm0, out) \<and> \<not> legs_button_disabled renvm0 out status \<and>
               submission_of renvm0 renvm)"
| "async_inv status (renvm, out, AwaitOut) =
     (\<exists>out0. submission_of out0 out \<and> (\<forall>r. h2h_legs_reach status (renvm, handle_submit r out0)))"

section \<open>Lemmas\<close>

lemma report_not_in_flight: "\<not> in_flight (phase s) \<Longrightarrow> sub_step s (Report r) = s"
  by (cases r) (auto simp: in_flight_def)

lemma submission_in_flight: "submission_of s0 s \<Longrightarrow> in_flight (phase s)"
  by (auto simp: submission_of_def)

lemma in_flight_busy: "in_flight p \<Longrightarrow> busy p"
  by (auto simp: in_flight_def busy_def)

lemma submit_submission: "\<not> busy (phase s) \<Longrightarrow> submission_of s (sub_step s Submit)"
  by (simp add: submission_of_def)

text \<open>A report on a submission in flight keeps it in flight or settles it with some outcome.\<close>

lemma submission_report_in_flight:
  assumes "submission_of s0 s" "in_flight (phase (sub_step s (Report r)))"
  shows "submission_of s0 (sub_step s (Report r))"
proof -
  have nb: "\<not> busy (phase s0)" and sub: "s = sub_step s0 Submit \<or> s = sub_step (sub_step s0 Submit) (Report SdkAccepted)"
    using assms(1) unfolding submission_of_def by blast+
  show ?thesis using nb sub assms(2) by (cases r) (auto simp: submission_of_def)
qed

lemma submission_report_settles:
  assumes "submission_of s0 s" "\<not> in_flight (phase (sub_step s (Report r)))"
  shows "\<exists>oc. sub_step s (Report r) = handle_submit oc s0"
proof -
  have nb: "\<not> busy (phase s0)" and sub: "s = sub_step s0 Submit \<or> s = sub_step (sub_step s0 Submit) (Report SdkAccepted)"
    using assms(1) unfolding submission_of_def by blast+
  show ?thesis
  proof (cases r)
    case SdkAccepted
    then show ?thesis using nb sub assms(2) by auto
  next
    case SdkConfirmed
    then have "s = sub_step (sub_step s0 Submit) (Report SdkAccepted) \<Longrightarrow>
               sub_step s (Report r) = handle_submit SdkCompleted s0"
      using nb by (simp add: handle_submit_def)
    then show ?thesis using nb sub SdkConfirmed assms(2) by auto
  next
    case (SdkFailed e)
    have "s = sub_step s0 Submit \<Longrightarrow> sub_step s (Report r) = handle_submit (SdkRejected e) s0"
      "s = sub_step (sub_step s0 Submit) (Report SdkAccepted) \<Longrightarrow>
       sub_step s (Report r) = handle_submit (SdkRevertedAfterBroadcast e) s0"
      using nb SdkFailed by (simp_all add: handle_submit_def)
    then show ?thesis using sub by blast
  qed
qed

lemma legs_reach_not_in_flight:
  "h2h_legs_reach status (renvm, out) \<Longrightarrow> \<not> in_flight (phase renvm) \<and> \<not> in_flight (phase out)"
  using h2h_legs_reach_settled [of status "(renvm, out)"] by (simp add: legs_settled_def)

lemma legs_reach_dialog:
  assumes "h2h_legs_reach status (renvm, out)"
  shows "error_submitting (sub_flags renvm) \<noteq> None \<Longrightarrow> h2h_legs_reach status (sub_step renvm Reset, out)"
    and "error_submitting (sub_flags out) \<noteq> None \<Longrightarrow> h2h_legs_reach status (renvm, sub_step out Reset)"
  using h2h_legs_reach.step [OF assms, of RenVMDialogAction] h2h_legs_reach.step [OF assms, of OutDialogAction]
  by simp_all

lemma in_flight_no_error: "in_flight (phase s) \<Longrightarrow> error_submitting (sub_flags s) = None"
  by (auto simp: in_flight_def)

lemma errored_reset_idle: "error_submitting (sub_flags s) \<noteq> None \<Longrightarrow> phase (sub_step s Reset) = Idle"
  by (auto split: if_splits)

text \<open>The invariant is kept by every event, in each position of the handler.\<close>

lemma async_inv_quiet_step:
  assumes "h2h_legs_reach status (renvm, out)"
  shows "async_inv status (legs_async_step status (renvm, out, NoPending) ev)"
proof -
  have nf: "\<not> in_flight (phase renvm)" "\<not> in_flight (phase out)"
    using legs_reach_not_in_flight [OF assms] by simp_all
  show ?thesis
  proof (cases ev)
    case AsyncClick
    have "\<not> legs_button_disabled renvm out status \<Longrightarrow> submission_of renvm (sub_step renvm Submit)"
      by (simp add: submit_submission legs_button_disabled_busy del: sub_step.simps)
    then show ?thesis using AsyncClick assms by (auto simp del: sub_step.simps)
  next
    case AsyncRenVMDialog
    then show ?thesis using assms legs_reach_dialog(1) [OF assms]
      by (simp del: sub_step.simps sub_flags_simps)
  next
    case AsyncOutDialog
    then show ?thesis using assms legs_reach_dialog(2) [OF assms]
      by (simp del: sub_step.simps sub_flags_simps)
  next
    case (RenVMReport r)
    then show ?thesis using assms report_not_in_flight [OF nf(1), of r] by (simp add: Let_def)
  next
    case (OutReport r)
    then show ?thesis using assms report_not_in_flight [OF nf(2), of r] by (simp add: Let_def)
  qed
qed

lemma async_inv_renvm_step:
  assumes "h2h_legs_reach status (renvm0, out)" "\<not> legs_button_disabled renvm0 out status"
    and "submission_of renvm0 renvm"
  shows "async_inv status (legs_async_step status (renvm, out, AwaitRenVM) ev)"
proof -
  have fl: "in_flight (phase renvm)" using assms(3) by (rule submission_in_flight)
  have dis: "legs_button_disabled renvm out status"
    using in_flight_busy [OF fl] by (simp add: legs_button_disabled_busy)
  have nb: "\<not> busy (phase out)" "\<not> busy (phase renvm0)" "status \<noteq> Some TxConfirming"
    using assms(2) by (simp_all add: legs_button_disabled_busy)
  have keep: "async_inv status (renvm, out, AwaitRenVM)" using assms by auto
  show ?thesis
  proof (cases ev)
    case AsyncClick
    then show ?thesis using dis keep by simp
  next
    case AsyncRenVMDialog
    then show ?thesis using in_flight_no_error [OF fl] keep by simp
  next
    case AsyncOutDialog
    have "error_submitting (sub_flags out) \<noteq> None \<Longrightarrow>
          h2h_legs_reach status (renvm0, sub_step out Reset) \<and>
          \<not> legs_button_disabled renvm0 (sub_step out Reset) status"
      using legs_reach_dialog(2) [OF assms(1)] errored_reset_idle [of out] nb
      by (simp add: legs_button_disabled_busy del: sub_step.simps)
    then show ?thesis using AsyncOutDialog keep assms(3) by (auto simp del: sub_step.simps)
  next
    case (OutReport r)
    have "sub_step out (Report r) = out" using nb(1) in_flight_busy report_not_in_flight by blast
    then show ?thesis using OutReport keep by (simp add: Let_def)
  next
    case (RenVMReport r)
    let ?renvm' = "sub_step renvm (Report r)"
    show ?thesis
    proof (cases "in_flight (phase ?renvm')")
      case True
      then show ?thesis using RenVMReport assms(1,2) submission_report_in_flight [OF assms(3) True]
        by (auto simp: Let_def simp del: sub_step.simps)
    next
      case False
      obtain oc where oc: "?renvm' = handle_submit oc renvm0"
        using submission_report_settles [OF assms(3) False] by blast
      have "\<forall>r2. h2h_legs_reach status (?renvm', handle_submit r2 out)"
        using h2h_legs_reach.step [OF assms(1)] h2h_legs_click [OF assms(2)] oc by metis
      then show ?thesis using RenVMReport False nb(1)
        by (simp add: Let_def resume_out_def submit_submission del: sub_step.simps) (blast intro: submit_submission)
    qed
  qed
qed

lemma async_inv_out_step:
  assumes "submission_of out0 out" "\<forall>r. h2h_legs_reach status (renvm, handle_submit r out0)"
  shows "async_inv status (legs_async_step status (renvm, out, AwaitOut) ev)"
proof -
  have fl: "in_flight (phase out)" using assms(1) by (rule submission_in_flight)
  have dis: "legs_button_disabled renvm out status"
    using in_flight_busy [OF fl] by (simp add: legs_button_disabled_busy)
  have nf: "\<not> in_flight (phase renvm)"
    using legs_reach_not_in_flight assms(2) by blast
  have keep: "async_inv status (renvm, out, AwaitOut)" using assms by auto
  show ?thesis
  proof (cases ev)
    case AsyncClick
    then show ?thesis using dis keep by simp
  next
    case AsyncOutDialog
    then show ?thesis using in_flight_no_error [OF fl] keep by simp
  next
    case AsyncRenVMDialog
    have "error_submitting (sub_flags renvm) \<noteq> None \<Longrightarrow>
          \<forall>r. h2h_legs_reach status (sub_step renvm Reset, handle_submit r out0)"
      using legs_reach_dialog(1) assms(2) by blast
    then show ?thesis using AsyncRenVMDialog assms(1) keep by (auto simp del: sub_step.simps sub_flags_simps)
  next
    case (RenVMReport r)
    then show ?thesis using report_not_in_flight [OF nf, of r] keep by (simp add: Let_def)
  next
    case (OutReport r)
    let ?out' = "sub_step out (Report r)"
    show ?thesis
    proof (cases "in_flight (phase ?out')")
      case True
      then show ?thesis using OutReport assms(2) submission_report_in_flight [OF assms(1) True]
        by (auto simp: Let_def simp del: sub_step.simps)
    next
      case False
      then show ?thesis using OutReport assms(2) submission_report_settles [OF assms(1) False]
        by (auto simp: Let_def simp del: sub_step.simps)
    qed
  qed
qed

lemma async_inv_step: "async_inv status s \<Longrightarrow> async_inv status (legs_async_step status s ev)"
proof -
  assume inv: "async_inv status s"
  obtain renvm out pc where s: "s = (renvm, out, pc)" by (cases s) auto
  show ?thesis
  proof (cases pc)
    case NoPending
    then show ?thesis using inv s async_inv_quiet_step by simp
  next
    case AwaitRenVM
    then show ?thesis using inv s async_inv_renvm_step by auto
  next
    case AwaitOut
    then show ?thesis using inv s async_inv_out_step by auto
  qed
qed

lemma legs_async_reach_inv: "legs_async_reach status s \<Longrightarrow> async_inv status s"
  by (induction rule: legs_async_reach.induct) (auto intro: h2h_legs_reach.mount async_inv_step)

lemma async_inv_flight:
  assumes "async_inv status (renvm, out, pc)"
  shows "(in_flight (phase renvm) \<longleftrightarrow> pc = AwaitRenVM) \<and> (in_flight (phase out) \<longleftrightarrow> pc = AwaitOut)"
proof (cases pc)
  case NoPending
  then show ?thesis using assms legs_reach_not_in_flight by auto
next
  case AwaitRenVM
  then show ?thesis using assms submission_in_flight in_flight_busy
    by (auto simp: legs_button_disabled_busy)
next
  case AwaitOut
  then show ?thesis using assms submission_in_flight legs_reach_not_in_flight by fastforce
qed

lemma legs_async_reach_run: "legs_async_reach status s \<Longrightarrow> legs_async_reach status (legs_async_run status s evs)"
proof (induction evs arbitrary: s)
  case (Cons ev evs)
  then show ?case using legs_async_reach.step [OF Cons.prems, of ev] by simp
qed simp

lemma submission_completes:
  "submission_of s0 s \<Longrightarrow>
   phase (sub_step (sub_step s (Report SdkAccepted)) (Report SdkConfirmed)) = Done"
  by (auto simp: submission_of_def busy_def)

lemma completing_reports_settle:
  assumes "async_inv status (renvm, out, pc)"
  shows "snd (snd (legs_async_run status (renvm, out, pc) completing_reports)) = NoPending"
proof (cases pc)
  case NoPending
  then show ?thesis using assms legs_reach_not_in_flight report_not_in_flight
    by (simp add: completing_reports_def Let_def)
next
  case AwaitRenVM
  then obtain renvm0 where "\<not> legs_button_disabled renvm0 out status" "submission_of renvm0 renvm"
    using assms by auto
  then show ?thesis using AwaitRenVM
    by (auto simp: completing_reports_def Let_def resume_out_def submission_of_def legs_button_disabled_busy busy_def)
next
  case AwaitOut
  then obtain out0 where o: "submission_of out0 out" "h2h_legs_reach status (renvm, handle_submit SdkCompleted out0)"
    using assms by auto
  have "\<not> in_flight (phase renvm)" using legs_reach_not_in_flight [OF o(2)] by simp
  then show ?thesis using AwaitOut o(1) report_not_in_flight
    by (auto simp: completing_reports_def Let_def submission_of_def busy_def)
qed

section \<open>Properties\<close>

text \<open>
  C4: On the two-leg screens with handleSubmitBoth asynchronous, the two legs are
  submitted in sequence: in every reachable state at most one leg has a submission in
  flight, the RenVM leg exactly while the handler awaits it and the out leg exactly
  while the handler awaits it; and while the handler is pending the button is disabled
  and labelled submitting.
\<close>

theorem legs_async_sequenced:
  assumes "legs_async_reach status (renvm, out, pc)"
  shows "\<not> (in_flight (phase renvm) \<and> in_flight (phase out)) \<and>
         (in_flight (phase renvm) \<longleftrightarrow> pc = AwaitRenVM) \<and>
         (in_flight (phase out) \<longleftrightarrow> pc = AwaitOut) \<and>
         (pc \<noteq> NoPending \<longrightarrow> legs_button_disabled renvm out status \<and>
            legs_button_label renvm out = ''gateway.submitting-tx-label'')"
proof -
  have f: "(in_flight (phase renvm) \<longleftrightarrow> pc = AwaitRenVM) \<and> (in_flight (phase out) \<longleftrightarrow> pc = AwaitOut)"
    using async_inv_flight legs_async_reach_inv [OF assms] by blast
  then have "pc \<noteq> NoPending \<Longrightarrow> in_flight (phase renvm) \<or> in_flight (phase out)"
    by (cases pc) simp_all
  then show ?thesis using f in_flight_busy
    by (auto simp: legs_button_disabled_busy legs_button_label_def in_flight_def)
qed

theorem legs_async_sequenced_witness:
  "legs_async_reach (Some TxDone) (sub_step (wrap :: nat submitter) Submit, wrap, AwaitRenVM) \<and>
   legs_button_label (sub_step (wrap :: nat submitter) Submit) (wrap :: nat submitter) = ''gateway.submitting-tx-label''"
proof -
  have eq: "legs_async_step (Some TxDone) ((wrap :: nat submitter), wrap, NoPending) AsyncClick =
        (sub_step wrap Submit, wrap, AwaitRenVM)"
    by (simp add: legs_button_disabled_busy del: sub_step.simps)
  have "legs_async_reach (Some TxDone)
          (legs_async_step (Some TxDone) ((wrap :: nat submitter), wrap, NoPending) AsyncClick)"
    by (rule legs_async_reach.step [OF legs_async_reach.mount])
  then have r: "legs_async_reach (Some TxDone) (sub_step (wrap :: nat submitter) Submit, wrap, AwaitRenVM)"
    by (simp only: eq)
  show ?thesis using r legs_async_sequenced [OF r] by simp
qed

text \<open>
  C5: The one-step model of the two-leg screens is faithful to the asynchronous
  handler: every reachable state of the asynchronous screen with no handler pending
  is a reachable state of the one-step model, and from every reachable state the
  SDK's completing reports end the pending handler in such a state.
\<close>

theorem legs_async_refines:
  assumes "legs_async_reach status (renvm, out, pc)"
  shows "(pc = NoPending \<longrightarrow> h2h_legs_reach status (renvm, out)) \<and>
         (case legs_async_run status (renvm, out, pc) completing_reports of
            (renvm', out', pc') \<Rightarrow> pc' = NoPending \<and> h2h_legs_reach status (renvm', out'))"
proof -
  have inv: "async_inv status (renvm, out, pc)" by (rule legs_async_reach_inv [OF assms])
  obtain renvm' out' pc' where run: "legs_async_run status (renvm, out, pc) completing_reports = (renvm', out', pc')"
    by (cases "legs_async_run status (renvm, out, pc) completing_reports") auto
  have "pc' = NoPending" using completing_reports_settle [OF inv] run by simp
  moreover have "async_inv status (renvm', out', pc')"
    using legs_async_reach_inv [OF legs_async_reach_run [OF assms]] run by metis
  ultimately show ?thesis using inv run by (cases pc) auto
qed

theorem legs_async_refines_witness:
  "legs_async_reach (Some TxDone) (sub_step (wrap :: nat submitter) Submit, wrap, AwaitRenVM) \<and>
   h2h_legs_reach (Some TxDone)
     (fst (legs_async_run (Some TxDone) (sub_step (wrap :: nat submitter) Submit, wrap, AwaitRenVM) completing_reports),
      fst (snd (legs_async_run (Some TxDone) (sub_step (wrap :: nat submitter) Submit, wrap, AwaitRenVM) completing_reports)))"
proof -
  have eq: "legs_async_step (Some TxDone) ((wrap :: nat submitter), wrap, NoPending) AsyncClick =
        (sub_step wrap Submit, wrap, AwaitRenVM)"
    by (simp add: legs_button_disabled_busy del: sub_step.simps)
  have "legs_async_reach (Some TxDone)
          (legs_async_step (Some TxDone) ((wrap :: nat submitter), wrap, NoPending) AsyncClick)"
    by (rule legs_async_reach.step [OF legs_async_reach.mount])
  then have r: "legs_async_reach (Some TxDone) (sub_step (wrap :: nat submitter) Submit, wrap, AwaitRenVM)"
    by (simp only: eq)
  show ?thesis using r legs_async_refines [OF r] by (auto split: prod.splits)
qed

end
