(* ===== verification/MintAcceptedEffects.thy ===== *)
theory MintAcceptedEffects
  imports MintStatuses
begin

text \<open>
  The two notification effects of \<open>MintDepositAcceptedStatus\<close>
  (src/src/features/gateway/steps/mint/MintStatuses.tsx, lines 194--240) as a
  lifecycle of the component instance over a notification service: mount (the first
  render, then both effects), re-renders that re-run the first effect when one of its
  dependencies changed (after its cleanup), and unmount (both cleanups).
\<close>

section \<open>The notification effects\<close>

text \<open>
  The notification service (\<open>useNotifications\<close>, providers/Notifications, not among
  the sources; specification, section 6): \<open>showNotification\<close> returns a handle,
  \<open>closeNotification\<close> disposes the notice with that handle.  The model keeps the open
  notices with their handles, the history of every notice shown, and the handle the
  next \<open>show\<close> returns.  Closing without a handle (\<open>closeNotification(undefined)\<close>)
  is a no-op here; the specification does not say what it does.
\<close>

datatype notice =
    DepositAcceptedNotice int int string string
  | ValidityNotice int bool

record notifier =
  nt_open :: "(nat \<times> notice) list"
  nt_shown :: "notice list"
  nt_next :: nat

definition show_notification :: "notice \<Rightarrow> notifier \<Rightarrow> nat \<times> notifier" where
  "show_notification m ns =
     (nt_next ns, ns\<lparr>nt_open := nt_open ns @ [(nt_next ns, m)], nt_shown := nt_shown ns @ [m],
                     nt_next := Suc (nt_next ns)\<rparr>)"

definition close_notification :: "nat option \<Rightarrow> notifier \<Rightarrow> notifier" where
  "close_notification k ns =
     (case k of None \<Rightarrow> ns | Some h \<Rightarrow> ns\<lparr>nt_open := filter (\<lambda>(h', _). h' \<noteq> h) (nt_open ns)\<rparr>)"

text \<open>JavaScript truthiness of a \<open>ReactText\<close> handle: \<open>undefined\<close> and \<open>0\<close> are falsy.\<close>

definition js_truthy_handle :: "nat option \<Rightarrow> bool" where
  "js_truthy_handle k = (case k of None \<Rightarrow> False | Some h \<Rightarrow> h \<noteq> 0)"

text \<open>
  What the effects read from outside the component: the clock at mount (for
  \<open>getRemainingTime\<close>), \<open>GATEWAY_EXPIRY_OFFSET_MS\<close> (gatewayUtils) and
  \<open>getHours\<close> (utils/dates).  \<open>getRemainingTime\<close> (utils/time) is taken from the
  specification's \<open>remainingExpiry\<close>: \<open>max(0, expiry - now)\<close>.
\<close>

record effect_env =
  now_ms :: int
  expiry_offset_ms :: int
  hours_of :: "int \<Rightarrow> int"

definition get_remaining_time :: "int \<Rightarrow> int \<Rightarrow> int" where
  "get_remaining_time now expiry = max 0 (expiry - now)"

text \<open>
  The body of the first effect (lines 196--216), run with the current value of the
  state \<open>notification\<close>: it shows the deposit-accepted notice only when both counts
  are non-null and \<open>notification\<close> is truthy, and then stores the new handle.
\<close>

definition deposit_notice_effect ::
  "asset_config \<Rightarrow> chain_config \<Rightarrow> accepted_props \<Rightarrow> nat option \<Rightarrow> notifier \<Rightarrow> nat option \<times> notifier" where
  "deposit_notice_effect lock_asset mint_chain p notification ns =
     (case both_present (ap_lock_confirmations p) (ap_lock_target_confirmations p) of
        None \<Rightarrow> (notification, ns)
      | Some (c, t) \<Rightarrow>
          (if js_truthy_handle notification
           then (case show_notification
                        (DepositAcceptedNotice (max_confirmations c t) t (ac_short_name lock_asset)
                           (cc_full_name mint_chain)) ns of
                   (key, ns') \<Rightarrow> (Some key, ns'))
           else (notification, ns)))"

text \<open>
  The second effect (lines 222--240): the remaining time is fixed at mount
  (\<open>useState(getRemainingTime(expiryTime))\<close>); below the offset a persistent
  notice is shown, an error when fewer than 12 hours remain and a warning otherwise.
  Its cleanup closes the handle only when it is truthy (\<open>if (key)\<close>).
\<close>

definition expiry_notice_effect :: "effect_env \<Rightarrow> int \<Rightarrow> notifier \<Rightarrow> nat \<times> notifier" where
  "expiry_notice_effect env remained ns =
     (if remained < expiry_offset_ms env
      then show_notification (ValidityNotice remained (hours_of env remained < 12)) ns
      else (0, ns))"

definition expiry_notice_cleanup :: "nat \<Rightarrow> notifier \<Rightarrow> notifier" where
  "expiry_notice_cleanup key ns = (if key \<noteq> 0 then close_notification (Some key) ns else ns)"

text \<open>
  The component instance: the dependencies and the captured \<open>notification\<close> of the
  first effect's last run (its cleanup closes the captured value), the state
  \<open>notification\<close>, the fixed remaining time, the handle the second effect's cleanup
  closes, and the notification service.  Dependencies are compared by value; the
  configuration objects come from a static registry.
\<close>

record accepted_instance =
  ai_deps :: "asset_config \<times> chain_config"
  ai_effect_notification :: "nat option"
  ai_notification :: "nat option"
  ai_time_remained :: int
  ai_expiry_key :: nat
  ai_notifier :: notifier

text \<open>Mount: the first render, then both effects in declaration order.\<close>

definition accepted_mount ::
  "effect_env \<Rightarrow> asset_config \<Rightarrow> chain_config \<Rightarrow> accepted_props \<Rightarrow> notifier \<Rightarrow> accepted_instance" where
  "accepted_mount env lock_asset mint_chain p ns0 =
     (let remained = get_remaining_time (now_ms env) (ap_expiry_time p) in
      case deposit_notice_effect lock_asset mint_chain p None ns0 of
        (n1, ns1) \<Rightarrow>
          (case expiry_notice_effect env remained ns1 of
             (key, ns2) \<Rightarrow>
               \<lparr>ai_deps = (lock_asset, mint_chain), ai_effect_notification = None, ai_notification = n1,
                ai_time_remained = remained, ai_expiry_key = key, ai_notifier = ns2\<rparr>))"

text \<open>
  A re-render: the first effect re-runs (after its cleanup) when a dependency changed;
  the second effect's dependencies never change after mount.
\<close>

definition accepted_rerender ::
  "asset_config \<Rightarrow> chain_config \<Rightarrow> accepted_props \<Rightarrow> accepted_instance \<Rightarrow> accepted_instance" where
  "accepted_rerender lock_asset mint_chain p i =
     (if ai_deps i = (lock_asset, mint_chain) \<and> ai_notification i = ai_effect_notification i then i
      else (case deposit_notice_effect lock_asset mint_chain p (ai_notification i)
                    (close_notification (ai_effect_notification i) (ai_notifier i)) of
              (n', ns') \<Rightarrow>
                i\<lparr>ai_deps := (lock_asset, mint_chain), ai_effect_notification := ai_notification i,
                  ai_notification := n', ai_notifier := ns'\<rparr>))"

fun accepted_run ::
  "accepted_instance \<Rightarrow> (asset_config \<times> chain_config \<times> accepted_props) list \<Rightarrow> accepted_instance" where
  "accepted_run i [] = i"
| "accepted_run i ((a, k, p) # rs) = accepted_run (accepted_rerender a k p i) rs"

text \<open>Unmount: both cleanups, in declaration order.\<close>

definition accepted_unmount :: "accepted_instance \<Rightarrow> notifier" where
  "accepted_unmount i =
     expiry_notice_cleanup (ai_expiry_key i) (close_notification (ai_effect_notification i) (ai_notifier i))"

text \<open>
  Two predicates for the proofs about the effects: the state \<open>notification\<close> and the
  value captured by the first effect are both \<open>undefined\<close>; every open handle of
  the service is below the handle it returns next.
\<close>

definition accepted_quiet :: "accepted_instance \<Rightarrow> bool" where
  "accepted_quiet i \<longleftrightarrow> ai_notification i = None \<and> ai_effect_notification i = None"

definition handles_below :: "notifier \<Rightarrow> bool" where
  "handles_below ns \<longleftrightarrow> (\<forall>(h, m) \<in> set (nt_open ns). h < nt_next ns)"

text \<open>
  A state update made by an effect (\<open>setNotification\<close>, line 215) re-renders the
  component with the same props; React keeps re-rendering while a render's effects
  change the instance.  \<open>accepted_settle\<close> is that loop: it returns the instance
  once a re-render leaves it unchanged, and \<open>None\<close> when re-renders never stop.
  \<open>notification_pending\<close> describes an instance whose state \<open>notification\<close> holds a
  truthy handle that the first effect has not yet run with.
\<close>

partial_function (option) accepted_settle ::
  "asset_config \<Rightarrow> chain_config \<Rightarrow> accepted_props \<Rightarrow> accepted_instance \<Rightarrow> accepted_instance option" where
  "accepted_settle lock_asset mint_chain p i =
     (let i' = accepted_rerender lock_asset mint_chain p i in
      if i' = i then Some i else accepted_settle lock_asset mint_chain p i')"

definition notification_pending :: "accepted_props \<Rightarrow> accepted_instance \<Rightarrow> bool" where
  "notification_pending p i \<longleftrightarrow>
     ap_lock_confirmations p \<noteq> None \<and> ap_lock_target_confirmations p \<noteq> None \<and>
     (case ai_notification i of None \<Rightarrow> False
      | Some h \<Rightarrow> 0 < h \<and> h < nt_next (ai_notifier i) \<and> ai_effect_notification i \<noteq> Some h)"

declare get_remaining_time_def [eval_simps]

section \<open>Lemmas\<close>

lemma deposit_notice_effect_untruthy:
  "\<not> js_truthy_handle n \<Longrightarrow> deposit_notice_effect a k p n ns = (n, ns)"
  by (simp add: deposit_notice_effect_def split: option.splits)

lemma js_truthy_handle_None [simp]: "\<not> js_truthy_handle None"
  by (simp add: js_truthy_handle_def)

lemma close_notification_None [simp]: "close_notification None ns = ns"
  by (simp add: close_notification_def)

lemma accepted_rerender_quiet:
  assumes "accepted_quiet i"
  shows "accepted_quiet (accepted_rerender a k p i) \<and>
         ai_notifier (accepted_rerender a k p i) = ai_notifier i \<and>
         ai_expiry_key (accepted_rerender a k p i) = ai_expiry_key i"
  using assms by (simp add: accepted_rerender_def accepted_quiet_def deposit_notice_effect_untruthy)

lemma accepted_run_quiet:
  assumes "accepted_quiet i"
  shows "accepted_quiet (accepted_run i rs) \<and>
         ai_notifier (accepted_run i rs) = ai_notifier i \<and>
         ai_expiry_key (accepted_run i rs) = ai_expiry_key i"
  using assms
proof (induction rs arbitrary: i)
  case Nil
  then show ?case by simp
next
  case (Cons r rs)
  obtain a k p where r: "r = (a, k, p)" by (cases r) auto
  from accepted_rerender_quiet [OF Cons.prems, of a k p] Cons.IH [of "accepted_rerender a k p i"]
  show ?case by (simp add: r)
qed

lemma accepted_mount_fields:
  "accepted_quiet (accepted_mount env a k p ns0)"
  "ai_notifier (accepted_mount env a k p ns0) =
     snd (expiry_notice_effect env (get_remaining_time (now_ms env) (ap_expiry_time p)) ns0)"
  "ai_expiry_key (accepted_mount env a k p ns0) =
     fst (expiry_notice_effect env (get_remaining_time (now_ms env) (ap_expiry_time p)) ns0)"
  by (simp_all add: accepted_mount_def accepted_quiet_def deposit_notice_effect_untruthy Let_def split_def
      split: prod.splits)

lemma filter_fresh_handle:
  "handles_below ns \<Longrightarrow> filter (\<lambda>(h', _). h' \<noteq> nt_next ns) (nt_open ns) = nt_open ns"
  by (auto simp: handles_below_def intro!: filter_True)

lemma close_notification_next [simp]: "nt_next (close_notification k ns) = nt_next ns"
  by (simp add: close_notification_def split: option.splits)

lemma accepted_rerender_pending:
  assumes "notification_pending p i"
  shows "accepted_rerender a k p i \<noteq> i \<and> notification_pending p (accepted_rerender a k p i)"
proof -
  obtain h c t where h: "ai_notification i = Some h" "0 < h" "h < nt_next (ai_notifier i)"
      "ai_effect_notification i \<noteq> Some h"
    and ct: "ap_lock_confirmations p = Some c" "ap_lock_target_confirmations p = Some t"
    using assms by (auto simp: notification_pending_def split: option.splits)
  have r: "ai_notification (accepted_rerender a k p i) = Some (nt_next (ai_notifier i)) \<and>
           ai_effect_notification (accepted_rerender a k p i) = Some h \<and>
           nt_next (ai_notifier (accepted_rerender a k p i)) = Suc (nt_next (ai_notifier i))"
    using h ct by (simp add: accepted_rerender_def deposit_notice_effect_def js_truthy_handle_def
        show_notification_def)
  then have "accepted_rerender a k p i \<noteq> i"
    using h by auto
  with r h ct show ?thesis by (simp add: notification_pending_def)
qed

lemma accepted_settle_pending_None:
  assumes "accepted_settle a k p i = Some r"
  shows "\<not> notification_pending p i"
proof (rule accepted_settle.raw_induct [where P = "\<lambda>a k p i r. \<not> notification_pending p i", OF _ assms])
  fix f :: "asset_config \<Rightarrow> chain_config \<Rightarrow> accepted_props \<Rightarrow> accepted_instance \<Rightarrow> accepted_instance option"
    and a k p i r
  assume IH: "\<And>a k p i r. f a k p i = Some r \<Longrightarrow> \<not> notification_pending p i"
    and eq: "(let i' = accepted_rerender a k p i in if i' = i then Some i else f a k p i') = Some r"
  show "\<not> notification_pending p i"
  proof
    assume pend: "notification_pending p i"
    with eq have "f a k p (accepted_rerender a k p i) = Some r"
      using accepted_rerender_pending [OF pend] by (simp add: Let_def)
    with IH accepted_rerender_pending [OF pend] show False by blast
  qed
qed

section \<open>Properties\<close>

text \<open>
  C19: The deposit-accepted notification is never shown: over the mount and any
  sequence of re-renders of the accepted screen, the only notice shown is the expiry
  notice, and the state notification stays undefined.
\<close>

theorem deposit_notice_never_shown:
  "nt_shown (ai_notifier (accepted_run (accepted_mount env a k p ns0) rs)) =
     nt_shown ns0 @
     (if get_remaining_time (now_ms env) (ap_expiry_time p) < expiry_offset_ms env
      then [ValidityNotice (get_remaining_time (now_ms env) (ap_expiry_time p))
              (hours_of env (get_remaining_time (now_ms env) (ap_expiry_time p)) < 12)]
      else []) \<and>
   ai_notification (accepted_run (accepted_mount env a k p ns0) rs) = None"
  using accepted_run_quiet [OF accepted_mount_fields(1), of env a k p ns0 rs]
    accepted_mount_fields(2) [of env a k p ns0]
  by (simp add: accepted_quiet_def expiry_notice_effect_def show_notification_def)

text \<open>
  C20: The accepted screen leaves no notice open after unmount when the notification
  service hands out non-zero handles: the open notices are those before mount.
\<close>

theorem expiry_notice_closed_on_unmount:
  assumes "handles_below ns0" "nt_next ns0 \<noteq> 0"
  shows "nt_open (accepted_unmount (accepted_run (accepted_mount env a k p ns0) rs)) = nt_open ns0"
proof -
  let ?i = "accepted_mount env a k p ns0"
  let ?rt = "get_remaining_time (now_ms env) (ap_expiry_time p)"
  have run: "accepted_quiet (accepted_run ?i rs)" "ai_notifier (accepted_run ?i rs) = ai_notifier ?i"
      "ai_expiry_key (accepted_run ?i rs) = ai_expiry_key ?i"
    using accepted_run_quiet [OF accepted_mount_fields(1)] by blast+
  show ?thesis
  proof (cases "?rt < expiry_offset_ms env")
    case True
    then show ?thesis using run assms accepted_mount_fields(2,3) [of env a k p ns0]
      by (simp add: accepted_unmount_def accepted_quiet_def expiry_notice_effect_def show_notification_def
          expiry_notice_cleanup_def close_notification_def filter_fresh_handle)
  next
    case False
    then show ?thesis using run accepted_mount_fields(2,3) [of env a k p ns0]
      by (simp add: accepted_unmount_def accepted_quiet_def expiry_notice_effect_def expiry_notice_cleanup_def)
  qed
qed

theorem expiry_notice_closed_on_unmount_witness:
  "nt_open (accepted_unmount (accepted_run
     (accepted_mount \<lparr>now_ms = 0, expiry_offset_ms = 86400000, hours_of = (\<lambda>ms. ms div 3600000)\<rparr>
        btc_config \<lparr>cc_full_name = ''Ethereum''\<rparr>
        \<lparr>ap_gateway = example_gateway, ap_expiry_time = 3600000, ap_lock_target_confirmations = Some 6,
         ap_lock_confirmations = Some 6, ap_lock_amount = None, ap_lock_asset_decimals = None,
         ap_lock_tx_id = None, ap_lock_tx_url = None\<rparr>
        \<lparr>nt_open = [], nt_shown = [], nt_next = 1\<rparr>) [])) = []"
proof -
  have h: "handles_below \<lparr>nt_open = [], nt_shown = [], nt_next = 1\<rparr>" by (simp add: handles_below_def)
  show ?thesis
    using expiry_notice_closed_on_unmount [OF h, of
      "\<lparr>now_ms = 0, expiry_offset_ms = 86400000, hours_of = (\<lambda>ms. ms div 3600000)\<rparr>"
      btc_config "\<lparr>cc_full_name = ''Ethereum''\<rparr>"
      "\<lparr>ap_gateway = example_gateway, ap_expiry_time = 3600000, ap_lock_target_confirmations = Some 6,
         ap_lock_confirmations = Some 6, ap_lock_amount = None, ap_lock_asset_decimals = None,
         ap_lock_tx_id = None, ap_lock_tx_url = None\<rparr>" "[]"]
    by simp
qed

text \<open>
  C21: A persistent expiry notice whose handle is 0 is never closed: the cleanup tests
  the handle for truthiness, so the notice stays open after unmount.
\<close>

theorem expiry_notice_leaks_zero_handle:
  assumes "nt_next ns0 = 0"
    and "get_remaining_time (now_ms env) (ap_expiry_time p) < expiry_offset_ms env"
  shows "(0, ValidityNotice (get_remaining_time (now_ms env) (ap_expiry_time p))
            (hours_of env (get_remaining_time (now_ms env) (ap_expiry_time p)) < 12))
         \<in> set (nt_open (accepted_unmount (accepted_run (accepted_mount env a k p ns0) rs)))"
proof -
  let ?i = "accepted_mount env a k p ns0"
  have run: "accepted_quiet (accepted_run ?i rs)" "ai_notifier (accepted_run ?i rs) = ai_notifier ?i"
      "ai_expiry_key (accepted_run ?i rs) = ai_expiry_key ?i"
    using accepted_run_quiet [OF accepted_mount_fields(1)] by blast+
  then show ?thesis using assms accepted_mount_fields(2,3) [of env a k p ns0]
    by (simp add: accepted_unmount_def accepted_quiet_def expiry_notice_effect_def show_notification_def
        expiry_notice_cleanup_def)
qed

theorem expiry_notice_leaks_zero_handle_witness:
  "(0, ValidityNotice 3600000 True) \<in> set (nt_open (accepted_unmount (accepted_run
     (accepted_mount \<lparr>now_ms = 0, expiry_offset_ms = 86400000, hours_of = (\<lambda>ms. ms div 3600000)\<rparr>
        btc_config \<lparr>cc_full_name = ''Ethereum''\<rparr>
        \<lparr>ap_gateway = example_gateway, ap_expiry_time = 3600000, ap_lock_target_confirmations = Some 6,
         ap_lock_confirmations = Some 6, ap_lock_amount = None, ap_lock_asset_decimals = None,
         ap_lock_tx_id = None, ap_lock_tx_url = None\<rparr>
        \<lparr>nt_open = [], nt_shown = [], nt_next = 0\<rparr>) [])))"
  using expiry_notice_leaks_zero_handle [of "\<lparr>nt_open = [], nt_shown = [], nt_next = 0\<rparr>"
     "\<lparr>now_ms = 0, expiry_offset_ms = 86400000, hours_of = (\<lambda>ms. ms div 3600000)\<rparr>"
     "\<lparr>ap_gateway = example_gateway, ap_expiry_time = 3600000, ap_lock_target_confirmations = Some 6,
         ap_lock_confirmations = Some 6, ap_lock_amount = None, ap_lock_asset_decimals = None,
         ap_lock_tx_id = None, ap_lock_tx_url = None\<rparr>" btc_config "\<lparr>cc_full_name = ''Ethereum''\<rparr>" "[]"]
  by (simp add: get_remaining_time_def)

text \<open>
  C22: The accepted screen's re-renders settle: from every instance whose state
  notification and captured notification are undefined (the mounted instance in
  particular) the re-render loop returns at once, only recording the current
  dependencies.
\<close>

theorem quiet_render_settles:
  assumes "accepted_quiet i"
  shows "accepted_settle a k p i = Some (i\<lparr>ai_deps := (a, k)\<rparr>)"
proof -
  have step: "accepted_rerender a k p i = i\<lparr>ai_deps := (a, k)\<rparr>"
    using assms by (auto simp: accepted_rerender_def accepted_quiet_def deposit_notice_effect_untruthy)
  have fx: "accepted_rerender a k p (i\<lparr>ai_deps := (a, k)\<rparr>) = i\<lparr>ai_deps := (a, k)\<rparr>"
    using assms by (simp add: accepted_rerender_def accepted_quiet_def)
  show ?thesis
  proof (cases "i\<lparr>ai_deps := (a, k)\<rparr> = i")
    case True
    then show ?thesis by (subst accepted_settle.simps) (simp add: step)
  next
    case False
    then show ?thesis
      by (subst accepted_settle.simps) (simp add: step fx accepted_settle.simps [of a k p "i\<lparr>ai_deps := (a, k)\<rparr>"])
  qed
qed

theorem quiet_render_settles_witness:
  "\<exists>r. accepted_settle btc_config \<lparr>cc_full_name = ''Ethereum''\<rparr>
     \<lparr>ap_gateway = example_gateway, ap_expiry_time = 5, ap_lock_target_confirmations = Some 6,
      ap_lock_confirmations = Some 6, ap_lock_amount = Some ''50000'', ap_lock_asset_decimals = Some 8,
      ap_lock_tx_id = None, ap_lock_tx_url = None\<rparr>
     (accepted_mount \<lparr>now_ms = 0, expiry_offset_ms = 10, hours_of = \<lambda>ms. 0\<rparr> btc_config
        \<lparr>cc_full_name = ''Ethereum''\<rparr>
        \<lparr>ap_gateway = example_gateway, ap_expiry_time = 5, ap_lock_target_confirmations = Some 6,
         ap_lock_confirmations = Some 6, ap_lock_amount = Some ''50000'', ap_lock_asset_decimals = Some 8,
         ap_lock_tx_id = None, ap_lock_tx_url = None\<rparr>
        \<lparr>nt_open = [], nt_shown = [], nt_next = 1\<rparr>) = Some r"
  using quiet_render_settles [OF accepted_mount_fields(1)] by blast

end
