(* ===== verification/App.thy ===== *)
theory App
  imports Prelude
begin

text \<open>
  The application's router, src/src/App.tsx: a \<open>Switch\<close> of react-router over four
  routes, tried in order, the first whose path matches the location being rendered.
  The path values (\<open>paths\<close> of pages/routes) and react-router's \<open>matchPath\<close> are
  not part of the sources: both are parameters of the model, the matcher receiving the
  route's \<open>exact\<close> flag, a path pattern and the location.
\<close>

datatype page = WelcomePage | AboutPage | MainPage | NotFoundPage

record 'p route_paths =
  path_welcome :: 'p
  path_about :: 'p
  path_home :: 'p
  path_mint :: 'p
  path_mint_gateway :: 'p
  path_release :: 'p
  path_release_gateway :: 'p

type_synonym ('p, 'l) path_matcher = "bool \<Rightarrow> 'p \<Rightarrow> 'l \<Rightarrow> bool"

text \<open>\<open>mainPagePaths\<close>, lines 13--19.\<close>

definition main_page_paths :: "'p route_paths \<Rightarrow> 'p list" where
  "main_page_paths ps =
     [path_home ps, path_mint ps, path_mint_gateway ps, path_release ps, path_release_gateway ps]"

text \<open>
  A \<open>Route\<close>: its \<open>exact\<close> flag, its \<open>path\<close> prop (a list of patterns, or none: a
  route without a path matches every location) and the component it renders.
\<close>

datatype 'p route = Route bool "'p list option" page

fun route_matches :: "('p, 'l) path_matcher \<Rightarrow> 'l \<Rightarrow> 'p route \<Rightarrow> bool" where
  "route_matches m loc (Route ex None c) = True"
| "route_matches m loc (Route ex (Some pats) c) = list_ex (\<lambda>p. m ex p loc) pats"

text \<open>\<open>Switch\<close> renders the first matching child, or nothing when none matches.\<close>

fun switch_render :: "('p, 'l) path_matcher \<Rightarrow> 'l \<Rightarrow> 'p route list \<Rightarrow> page option" where
  "switch_render m loc [] = None"
| "switch_render m loc (Route ex pats c # rs) =
     (if route_matches m loc (Route ex pats c) then Some c else switch_render m loc rs)"

text \<open>The routes of \<open>App\<close>, lines 24--29.\<close>

definition app_routes :: "'p route_paths \<Rightarrow> 'p route list" where
  "app_routes ps =
     [Route True (Some [path_welcome ps]) WelcomePage,
      Route True (Some [path_about ps]) AboutPage,
      Route True (Some (main_page_paths ps)) MainPage,
      Route False None NotFoundPage]"

definition app_render :: "('p, 'l) path_matcher \<Rightarrow> 'p route_paths \<Rightarrow> 'l \<Rightarrow> page option" where
  "app_render m ps loc = switch_render m loc (app_routes ps)"

declare main_page_paths_def [eval_simps] app_routes_def [eval_simps] app_render_def [eval_simps]

end
