(* ===== verification/Spec2Isabelle.thy ===== *)
theory Spec2Isabelle
  imports MintH2HFlow MintH2HPresentation MintH2HAsync MintAcceptedEffects App
begin

text \<open>
  \<^bold>\<open>A verification model of the bridge front-end's mint screens and router.\<close>

  The repository's sources are three React modules: the router
  (src/src/App.tsx), the deposit screens of a mint
  (src/src/features/gateway/steps/mint/MintStatuses.tsx) and the host-to-host mint
  screens (src/src/features/gateway/steps/mint/MintH2HStatuses.tsx).  The screens read
  a gateway and its transaction from the bridging SDK, format amounts with
  bignumber.js, look assets and chains up in configuration tables, show notifications,
  and submit chain transactions through the hook \<open>useChainTransactionSubmitter\<close>.
  The hook, the lookup tables, the notification service and bignumber.js are not under
  src; they are modelled from the specification (and the library's documented
  behaviour) so that the screens' code can be modelled faithfully on top of them.

  \<^bold>\<open>Theories.\<close>
  \<^item> \<open>Prelude\<close>: the SDK's status enumeration, the configuration records and
    their throwing lookups (\<open>get_asset_config\<close>, \<open>get_chain_config\<close>), the
    render error type, and the JavaScript idioms on nullable props (\<open>sum_bind\<close>
    for a throw that aborts a render, \<open>js_or\<close> for \<open>x || d\<close>,
    \<open>both_present\<close> for two \<open>!== null\<close> tests).
  \<^item> \<open>Submitter\<close>: the hook's state (\<open>submitter\<close>: phase, last error,
    counts of submissions made and settled), its step function \<open>sub_step\<close> on
    \<open>Submit\<close>, \<open>Reset\<close> and the SDK's reports, the flags it returns
    (\<open>sub_flags\<close>: submitting, waiting, done, errorSubmitting), the big-step
    \<open>handle_submit\<close> that awaits one submission to its settlement, the invariant
    \<open>sub_inv\<close> (at most one submission in flight, the error present exactly when
    errored) proved for every reachable state, and the refinement of the
    specification's lifecycle relation \<open>lifecycle\<close> by \<open>sub_step\<close>.
  \<^item> \<open>BigNum\<close>: the part of bignumber.js that \<open>lockAmountFormatted\<close> uses:
    \<open>bn_of_string\<close> (the numeric grammar, the whitespace and plus-sign recovery of
    \<open>parseNumeric\<close>, \<open>NaN\<close>, \<open>Infinity\<close>), \<open>bn_shifted_by\<close> (throwing
    outside the safe-integer range, otherwise \<open>bn_times\<close> by \<open>bn_pow10\<close>) and
    \<open>bn_to_string\<close> (exponential notation below \<open>1e-7\<close> and from \<open>1e21\<close>), all
    inside the default exponent range \<open>[min_exp, max_exp] = [-1e7, 1e7]\<close>
    (\<open>bn_range\<close>).  Values are kept canonical; the lemma \<open>bn_roundtrip\<close> shows
    that parsing the printed form of a canonical value gives it back, and
    \<open>bn_shifted_by_inverse\<close> that a shift inside the range is undone by the
    opposite shift.
  \<^item> \<open>MintStatuses\<close>: \<open>MintDepositConfirmationStatus\<close>
    (\<open>mint_deposit_confirmation_status\<close>) and \<open>MintDepositAcceptedStatus\<close>
    (\<open>mint_deposit_accepted_status\<close>) as render functions from props to a view
    record or a render error, with \<open>maxConfirmations\<close> and
    \<open>lockAmountFormatted\<close>.
  \<^item> \<open>MintAcceptedEffects\<close>: the accepted screen's two notification effects over
    an explicit notification service, with React's order of effects: mount
    (\<open>accepted_mount\<close>), re-renders that re-run an effect when a dependency
    changed, cleanup first (\<open>accepted_rerender\<close>, \<open>accepted_run\<close>), unmount
    (\<open>accepted_unmount\<close>), and the loop of re-renders that an effect's state
    update starts (\<open>accepted_settle\<close>, a \<open>partial_function (option)\<close>:
    \<open>None\<close> when the re-renders never stop).
  \<^item> \<open>MintH2HStatuses\<close>: \<open>MintH2HLockTransactionStatus\<close> as a render function
    of its props record (\<open>h2h_lock_props\<close>) and the user's and SDK's actions on it as a step function over the lock leg's
    submitter (\<open>h2h_lock_step\<close>, \<open>gateway.in\<close>), with its reachable states
    (\<open>h2h_lock_reach\<close>).
  \<^item> \<open>MintH2HProgress\<close>: the two progress screens as render functions of their
    props records (\<open>h2h_lock_progress_props\<close>, \<open>h2h_mint_progress_props\<close>),
    clicked through
    \<open>handleSubmitBoth\<close> over the legs \<open>transaction.renVM\<close> and
    \<open>transaction.out\<close> (\<open>h2h_legs_step\<close>, reachable states \<open>h2h_legs_reach\<close>).
  \<^item> \<open>MintH2HAsync\<close>: the two-leg screens with \<open>handleSubmitBoth\<close> as the
    asynchronous function it is: the handler's position (\<open>pending\<close>: none, awaiting
    the RenVM leg, awaiting the out leg), the click, the dialogs and the SDK's reports
    on each leg as events (\<open>legs_async_step\<close>), the continuation that calls
    \<open>out.handleSubmit()\<close> once the RenVM leg settles (\<open>resume_out\<close>), and a
    simulation invariant (\<open>async_inv\<close>) relating its reachable states to those of the
    one-step model.
  \<^item> \<open>MintH2HFlow\<close>: the two progress screens composed into the flow, with a
    parent that switches screens (\<open>h2h_flow_step\<close>); each mounted screen owns
    fresh submitters for the same legs, and the flow keeps the submissions the
    unmounted ones made.
  \<^item> \<open>MintH2HPresentation\<close>: the specification's per-leg presentation state
    machine (section 4.3) as an abstract specification: states \<open>pres_state\<close>,
    edges \<open>pres_edge\<close> labelled by their initiator (user or SDK), the paths one
    program event may take (\<open>pres_path\<close>: an edge by the event's initiator, then
    the SDK's pushes), and the state a leg presents, recomputed from the lock status
    and the leg's submitter (\<open>pres_of\<close>).  The lock progress screen is the
    transition relation \<open>lock_progress_trans\<close>: the SDK pushes a later lock status
    (\<open>status_advance\<close>) or the user acts through \<open>h2h_legs_step\<close>.
  \<^item> \<open>App\<close>: the router's \<open>Switch\<close> over its four routes, first match wins,
    with the path values and react-router's matcher as parameters.

  \<^bold>\<open>What the properties show.\<close>  For the lock screen: the submissions never
  exceed one plus the failures reported (a bound proved with a potential function);
  errors open the dialog, its action resets the hook and a new click submits again;
  from every state some schedule of events completes the lock (liveness); repeated
  clicks submit once.  For the two-leg screens: with \<open>handleSubmitBoth\<close>'s awaits
  as separate events the legs are submitted in sequence, never both in flight, and the
  button is disabled and labelled submitting while the handler is pending; the states
  with no handler pending are exactly those of the one-step model, and the SDK's
  completing reports always end the handler, so the one-step properties hold of the
  asynchronous screen: from a state where neither leg is done one click can complete
  both, but once exactly one leg is done the other can never be completed (the button
  stays disabled); the mint leg is submitted even after the RenVM leg failed (a
  divergence from the specification's fail-fast order); both error dialogs can be
  open at once; in the composed flow, a RenVM leg done on the lock progress screen is
  submitted again by the mint progress screen, whose submitters are fresh.  For the
  presentation machine: every step of the lock progress screen refines it on each leg
  (no change, or a path started by the step's initiator), except user actions out of
  \<open>AwaitingDeposit\<close>, \<open>Reverted\<close> and \<open>Errored\<close>; in particular the button
  submits both legs after the lock was reverted, a state the machine makes final, and
  reset and retry leave \<open>Errored\<close>, which the machine does not allow.  For the
  deposit screens: the amount formatting round-trips inside the exponent range,
  beyond the range it prints every amount as 0 (or NaN), its null and throw cases,
  the order in which every screen's render throws, the shape of the rendered
  confirmation view, the exponential and \<open>NaN\<close> renderings the code produces, and
  the notification effects (the deposit notification can never fire; the expiry
  notice is closed on unmount unless its handle is 0; the re-renders settle at
  mount).  The router is modelled without a property of its own.  The property ids
  C1--C27 of the text blocks before the theorems order them by importance.

  \<^bold>\<open>Abstractions and bounds.\<close>  No fuel is used: every step function is
  total and structural, and the one loop that may not end, the re-renders of the
  accepted screen, is a \<open>partial_function (option)\<close> whose termination from the
  mounted instance is proved as a result \<open>Some\<close> (a lemma also shows that a pending
  notification handle, a state the screen never reaches, would make it \<open>None\<close>).  \<open>handleSubmitBoth\<close> is modelled twice: in
  \<open>MintH2HProgress\<close> as running to completion between two user actions, the SDK's
  outcome of each leg being an input (\<open>sdk_outcome\<close>), and in
  \<open>MintH2HAsync\<close> with its awaits, the SDK's reports and the user's dialog actions
  interleaved; the refinement between them shows that nothing the user can do while
  the handler is pending leads outside the one-step model's states (the button is
  disabled while a leg is in flight, and a dialog reset during the handler commutes
  with it).  A report of the SDK on a leg with nothing in flight is ignored by the
  hook, and a promise continuation runs before the next event.  JavaScript numbers holding counts and
  decimals are unbounded integers, and the bignumber.js range check on the shift
  (\<open>max_safe_integer\<close> = 2 ^ 53 - 1) and its default exponent range
  (\<open>[-1e7, 1e7]\<close>) are written out; strings with the base prefixes \<open>0x\<close>,
  \<open>0b\<close>, \<open>0o\<close> (which bignumber.js reads in base 16, 2, 8) are not modelled and
  parse as \<open>NaN\<close>, and characters are 8-bit, so only the 8-bit whitespace of
  JavaScript's \<open>\s\<close> is trimmed.  The flow's parent is not among the sources: it
  may show either progress screen at any time.

  \<^bold>\<open>Not modelled.\<close>  Layout, icons, theming beyond the colours the screens choose,
  i18n (texts are their keys), wallet and balance hooks and the switch-wallet dialog
  (their values are parameters), \<open>Debug\<close> and \<open>console.log\<close>, lazy loading and
  \<open>Suspense\<close> in the router, the \<open>Fees\<close> prop (a rendered node passed
  through).  Which screen is shown for a gateway is decided by parent components
  that are not among the sources; each screen is modelled for the props it receives,
  and the presentation machine is related to the code on the lock progress screen,
  whose lock status prop is the deposit status the machine reads.
\<close>

end
